theory Spec2Isabelle
  imports Complex_Main
begin

section \<open>Strings\<close>

text \<open>
  The program is TypeScript. A string is modelled as a \<^typ>\<open>string\<close> whose characters are
  the code units \<open>0x00\<close> to \<open>0xFF\<close> (Latin-1); the functions below are the ECMAScript
  library functions restricted to that range, which is closed under all of them.
\<close>

definition is_space :: "char \<Rightarrow> bool" where
  \<comment> \<open>\<open>\s\<close>, and what \<open>trim\<close> strips: white space and line terminators\<close>
  "is_space c \<longleftrightarrow> c \<in> set [CHR 0x09, CHR 0x0A, CHR 0x0B, CHR 0x0C, CHR 0x0D, CHR 0x20, CHR 0xA0]"

definition is_line_terminator :: "char \<Rightarrow> bool" where
  "is_line_terminator c \<longleftrightarrow> c = CHR 0x0A \<or> c = CHR 0x0D"

definition is_digit :: "char \<Rightarrow> bool" where
  "is_digit c \<longleftrightarrow> c \<in> set ''0123456789''"

definition is_word_char :: "char \<Rightarrow> bool" where
  \<comment> \<open>\<open>\w\<close>\<close>
  "is_word_char c \<longleftrightarrow>
     c \<in> set ''abcdefghijklmnopqrstuvwxyzABCDEFGHIJKLMNOPQRSTUVWXYZ0123456789_''"

definition lower_char :: "char \<Rightarrow> char" where
  "lower_char c =
     (let n = of_char c :: nat in
      if (65 \<le> n \<and> n \<le> 90) \<or> (192 \<le> n \<and> n \<le> 222 \<and> n \<noteq> 215)
      then char_of (n + 32) else c)"

definition upper_char :: "char \<Rightarrow> char" where
  \<comment> \<open>the \<open>Canonicalize\<close> of a regular expression with the \<open>i\<close> flag: upper case, where
     that is one code unit of the range\<close>
  "upper_char c =
     (let n = of_char c :: nat in
      if (97 \<le> n \<and> n \<le> 122) \<or> (224 \<le> n \<and> n \<le> 254 \<and> n \<noteq> 247)
      then char_of (n - 32) else c)"

definition toLowerCase :: "string \<Rightarrow> string" where
  "toLowerCase s = map lower_char s"

definition trim :: "string \<Rightarrow> string" where
  "trim s = rev (dropWhile is_space (rev (dropWhile is_space s)))"

fun starts_with :: "string \<Rightarrow> string \<Rightarrow> bool" where
  "starts_with s [] = True"
| "starts_with [] (y # ys) = False"
| "starts_with (x # xs) (y # ys) = (x = y \<and> starts_with xs ys)"

fun js_includes :: "string \<Rightarrow> string \<Rightarrow> bool" where
  \<comment> \<open>\<open>s.includes(t)\<close>\<close>
  "js_includes [] t = (t = [])"
| "js_includes (x # xs) t = (starts_with (x # xs) t \<or> js_includes xs t)"

fun split_on :: "char \<Rightarrow> string \<Rightarrow> string \<Rightarrow> string list" where
  \<comment> \<open>\<open>s.split(c)\<close> for a one-character separator; the second argument is the piece
     being read, reversed\<close>
  "split_on sep cur [] = [rev cur]"
| "split_on sep cur (x # xs) =
     (if x = sep then rev cur # split_on sep [] xs else split_on sep (x # cur) xs)"

definition split_space :: "string \<Rightarrow> string list" where
  \<comment> \<open>\<open>s.split(' ')\<close>\<close>
  "split_space s = split_on CHR '' '' [] s"

fun join_space :: "string list \<Rightarrow> string" where
  \<comment> \<open>\<open>xs.join(' ')\<close>\<close>
  "join_space [] = []"
| "join_space [x] = x"
| "join_space (x # y # ys) = x @ '' '' @ join_space (y # ys)"

section \<open>Regular expressions\<close>

text \<open>
  The fragment of ECMAScript regular expressions the program uses, as a syntax tree and a
  backtracking matcher. The matcher returns every way the expression matches at the
  current position, in the order in which backtracking tries them, so the head of the
  list is the match JavaScript reports.
\<close>

datatype atom =
    Lit char
  | Dot
  | Space
  | Digit
  | WordChar
  | NoneOf "atom list"

datatype rx =
    Atom atom
  | Eps
  | Cat rx rx
  | Alt rx rx
  | Opt rx
  | Rep atom nat bool
  | Grp nat rx
  | Bos
  | Eos

fun cmatch :: "bool \<Rightarrow> atom \<Rightarrow> char \<Rightarrow> bool" where
  "cmatch ic (Lit c) x = (if ic then upper_char x = upper_char c else x = c)"
| "cmatch ic Dot x = (\<not> is_line_terminator x)"
| "cmatch ic Space x = is_space x"
| "cmatch ic Digit x = is_digit x"
| "cmatch ic WordChar x = is_word_char x"
| "cmatch ic (NoneOf as) x = (\<not> list_ex (\<lambda>a. cmatch ic a x) as)"

type_synonym caps = "nat \<rightharpoonup> string"

type_synonym mstate = "nat \<times> string \<times> caps"

fun run :: "bool \<Rightarrow> rx \<Rightarrow> mstate \<Rightarrow> mstate list" where
  "run ic (Atom a) (i, s, c) =
     (case s of [] \<Rightarrow> [] | x # xs \<Rightarrow> if cmatch ic a x then [(Suc i, xs, c)] else [])"
| "run ic Eps st = [st]"
| "run ic (Cat r1 r2) st = concat (map (run ic r2) (run ic r1 st))"
| "run ic (Alt r1 r2) st = run ic r1 st @ run ic r2 st"
| "run ic (Opt r) st = run ic r st @ [st]"
| "run ic (Rep a n greedy) (i, s, c) =
     (let k = length (takeWhile (cmatch ic a) s);
          ks = [n..<Suc k]
      in map (\<lambda>j. (i + j, drop j s, c)) (if greedy then rev ks else ks))"
| "run ic (Grp n r) (i, s, c) =
     map (\<lambda>(j, s', c'). (j, s', c'(n \<mapsto> take (j - i) s))) (run ic r (i, s, c))"
| "run ic Bos (i, s, c) = (if i = 0 then [(i, s, c)] else [])"
| "run ic Eos (i, s, c) = (if s = [] then [(i, s, c)] else [])"

definition cat :: "rx list \<Rightarrow> rx" where
  "cat rs = foldr Cat rs Eps"

definition lits :: "string \<Rightarrow> rx" where
  "lits s = cat (map (\<lambda>c. Atom (Lit c)) s)"

definition match_at :: "bool \<Rightarrow> rx \<Rightarrow> nat \<Rightarrow> string \<Rightarrow> mstate option" where
  "match_at ic r i s = (case run ic r (i, s, Map.empty) of [] \<Rightarrow> None | m # _ \<Rightarrow> Some m)"

fun exec :: "bool \<Rightarrow> rx \<Rightarrow> nat \<Rightarrow> string \<Rightarrow> mstate option" where
  \<comment> \<open>\<open>RegExp.prototype.exec\<close> without the \<open>g\<close> flag: the first start position, from
     the left, at which the expression matches\<close>
  "exec ic r i [] = match_at ic r i []"
| "exec ic r i (x # xs) =
     (case match_at ic r i (x # xs) of
        Some m \<Rightarrow> Some m
      | None \<Rightarrow> exec ic r (Suc i) xs)"

definition js_match :: "bool \<Rightarrow> rx \<Rightarrow> string \<Rightarrow> caps option" where
  \<comment> \<open>\<open>s.match(re)\<close>: the capture groups of the match, or \<open>null\<close>\<close>
  "js_match ic r s = map_option (\<lambda>(j, s', c). c) (exec ic r 0 s)"

definition js_test :: "bool \<Rightarrow> rx \<Rightarrow> string \<Rightarrow> bool" where
  "js_test ic r s = (exec ic r 0 s \<noteq> None)"

function replace_all :: "bool \<Rightarrow> rx \<Rightarrow> string \<Rightarrow> nat \<Rightarrow> string \<Rightarrow> string" where
  \<comment> \<open>\<open>s.replace(re, rep)\<close> with the \<open>g\<close> flag, for a replacement without \<open>$\<close>\<close>
  "replace_all ic r rep i s =
     (case match_at ic r i s of
        None \<Rightarrow> (case s of [] \<Rightarrow> [] | x # xs \<Rightarrow> x # replace_all ic r rep (Suc i) xs)
      | Some (j, s', c) \<Rightarrow>
          if length s' < length s then rep @ replace_all ic r rep j s'
          else rep @ (case s of [] \<Rightarrow> [] | x # xs \<Rightarrow> x # replace_all ic r rep (Suc i) xs))"
  by pat_completeness auto
termination
  by (relation "measure (\<lambda>(ic, r, rep, i, s). length s)") auto

declare replace_all.simps [simp del]

definition js_replace :: "bool \<Rightarrow> rx \<Rightarrow> string \<Rightarrow> string \<Rightarrow> string" where
  "js_replace ic r rep s = replace_all ic r rep 0 s"

section \<open>The title parser\<close>

record song =
  artist :: string
  album :: string
  title :: string

datatype js_error = TypeError | AuthError | NetworkError | SyntaxError | HttpError

definition group :: "caps \<Rightarrow> nat \<Rightarrow> string option" where
  \<comment> \<open>\<open>m[n]\<close>: \<open>undefined\<close> is \<open>None\<close>\<close>
  "group m n = m n"

definition trim_group :: "caps \<Rightarrow> nat \<Rightarrow> js_error + string" where
  \<comment> \<open>\<open>m[n].trim()\<close>, a \<open>TypeError\<close> when the group is \<open>undefined\<close>\<close>
  "trim_group m n = (case group m n of None \<Rightarrow> Inl TypeError | Some s \<Rightarrow> Inr (trim s))"

definition str_truthy :: "string \<Rightarrow> bool" where
  \<comment> \<open>a string in a condition: the empty string is falsy\<close>
  "str_truthy s \<longleftrightarrow> s \<noteq> []"

definition truthy :: "string option \<Rightarrow> bool" where
  \<comment> \<open>a string that may be \<open>undefined\<close>, in a condition\<close>
  "truthy v = (case v of None \<Rightarrow> False | Some s \<Rightarrow> str_truthy s)"

definition songYearArtistPattern :: rx where
  \<comment> \<open>\<open>/^(.+?)\s*\(([^)]+)\)\s*-\s*(.+)$/\<close>\<close>
  "songYearArtistPattern =
     cat [Bos, Grp 1 (Rep Dot 1 False), Rep Space 0 True, Atom (Lit CHR ''(''),
          Grp 2 (Rep (NoneOf [Lit CHR '')'']) 1 True), Atom (Lit CHR '')''),
          Rep Space 0 True, Atom (Lit CHR ''-''), Rep Space 0 True,
          Grp 3 (Rep Dot 1 True), Eos]"

definition yearPattern :: rx where
  \<comment> \<open>\<open>/^\d{4}$/\<close>\<close>
  "yearPattern = cat [Bos, Atom Digit, Atom Digit, Atom Digit, Atom Digit, Eos]"

definition dashPattern :: rx where
  \<comment> \<open>\<open>/^(.+?)\s*-\s*(.+?)(?:\s*-\s*(.+))?$/\<close>\<close>
  "dashPattern =
     cat [Bos, Grp 1 (Rep Dot 1 False), Rep Space 0 True, Atom (Lit CHR ''-''),
          Rep Space 0 True, Grp 2 (Rep Dot 1 False),
          Opt (cat [Rep Space 0 True, Atom (Lit CHR ''-''), Rep Space 0 True,
                    Grp 3 (Rep Dot 1 True)]),
          Eos]"

definition songVideoPattern :: rx where
  \<comment> \<open>\<open>/^(.+?)\s*\(([^)]+)\)$/\<close>\<close>
  "songVideoPattern =
     cat [Bos, Grp 1 (Rep Dot 1 False), Rep Space 0 True, Atom (Lit CHR ''(''),
          Grp 2 (Rep (NoneOf [Lit CHR '')'']) 1 True), Atom (Lit CHR '')''), Eos]"

definition artistColonPattern :: rx where
  \<comment> \<open>\<open>/^(.+?)\s*[:]\s*(.+)$/\<close>\<close>
  "artistColonPattern =
     cat [Bos, Grp 1 (Rep Dot 1 False), Rep Space 0 True, Atom (Lit CHR '':''),
          Rep Space 0 True, Grp 2 (Rep Dot 1 True), Eos]"

definition is_year_like :: "string \<Rightarrow> bool" where
  \<comment> \<open>the test on the qualifier of the first rule\<close>
  "is_year_like year \<longleftrightarrow>
     js_test False yearPattern year
     \<or> js_includes (toLowerCase year) ''remaster''
     \<or> js_includes (toLowerCase year) ''edition''"

definition is_video_type :: "string \<Rightarrow> bool" where
  \<comment> \<open>the test on the qualifier of the third rule\<close>
  "is_video_type videoType \<longleftrightarrow>
     js_includes (toLowerCase videoType) ''official''
     \<or> js_includes (toLowerCase videoType) ''video''
     \<or> js_includes (toLowerCase videoType) ''audio''
     \<or> js_includes (toLowerCase videoType) ''lyrics''
     \<or> js_includes (toLowerCase videoType) ''remaster''"

text \<open>
  Each rule of \<open>extractBasicMetadata\<close> is one definition: \<open>Inr (Some r)\<close> when the rule
  returns \<open>r\<close>, \<open>Inr None\<close> when control falls through to the next rule, \<open>Inl e\<close> when
  the rule throws.
\<close>

definition songYearArtistRule :: "string \<Rightarrow> js_error + song option" where
  "songYearArtistRule ttl =
     (case js_match False songYearArtistPattern ttl of
        None \<Rightarrow> Inr None
      | Some m \<Rightarrow>
          (case trim_group m 1 of Inl e \<Rightarrow> Inl e | Inr songTitle \<Rightarrow>
          (case trim_group m 2 of Inl e \<Rightarrow> Inl e | Inr year \<Rightarrow>
          (case trim_group m 3 of Inl e \<Rightarrow> Inl e | Inr art \<Rightarrow>
             if is_year_like year
             then Inr (Some \<lparr>artist = art, album = ''Unknown Album'', title = songTitle\<rparr>)
             else Inr None))))"

definition dashRule :: "string \<Rightarrow> js_error + song option" where
  "dashRule ttl =
     (case js_match False dashPattern ttl of
        None \<Rightarrow> Inr None
      | Some m \<Rightarrow>
          if truthy (group m 3) then
            (case trim_group m 1 of Inl e \<Rightarrow> Inl e | Inr a \<Rightarrow>
            (case trim_group m 2 of Inl e \<Rightarrow> Inl e | Inr b \<Rightarrow>
            (case trim_group m 3 of Inl e \<Rightarrow> Inl e | Inr c \<Rightarrow>
               Inr (Some \<lparr>artist = a, album = b, title = c\<rparr>))))
          else if truthy (group m 2) then
            (case trim_group m 1 of Inl e \<Rightarrow> Inl e | Inr a \<Rightarrow>
            (case trim_group m 2 of Inl e \<Rightarrow> Inl e | Inr b \<Rightarrow>
               Inr (Some \<lparr>artist = a, album = ''Unknown Album'', title = b\<rparr>)))
          else Inr None)"

definition songVideoRule :: "string \<Rightarrow> js_error + song option" where
  "songVideoRule ttl =
     (case js_match False songVideoPattern ttl of
        None \<Rightarrow> Inr None
      | Some m \<Rightarrow>
          (case trim_group m 1 of Inl e \<Rightarrow> Inl e | Inr songTitle \<Rightarrow>
          (case trim_group m 2 of Inl e \<Rightarrow> Inl e | Inr videoType \<Rightarrow>
             if is_video_type videoType
             then Inr (Some \<lparr>artist = ''Unknown Artist'', album = ''Unknown Album'',
                              title = songTitle\<rparr>)
             else Inr None)))"

definition artistColonRule :: "string \<Rightarrow> js_error + song option" where
  "artistColonRule ttl =
     (case js_match False artistColonPattern ttl of
        None \<Rightarrow> Inr None
      | Some m \<Rightarrow>
          (case trim_group m 1 of Inl e \<Rightarrow> Inl e | Inr a \<Rightarrow>
          (case trim_group m 2 of Inl e \<Rightarrow> Inl e | Inr b \<Rightarrow>
             Inr (Some \<lparr>artist = a, album = ''Unknown Album'', title = b\<rparr>))))"

definition fallback :: "string \<Rightarrow> song" where
  "fallback ttl = \<lparr>artist = ''Unknown Artist'', album = ''Unknown Album'', title = trim ttl\<rparr>"

fun first_rule :: "(string \<Rightarrow> js_error + song option) list \<Rightarrow> string \<Rightarrow> js_error + song" where
  \<comment> \<open>the rules in order: the first that returns decides, the fallback is last\<close>
  "first_rule [] ttl = Inr (fallback ttl)"
| "first_rule (r # rs) ttl =
     (case r ttl of Inl e \<Rightarrow> Inl e | Inr (Some m) \<Rightarrow> Inr m | Inr None \<Rightarrow> first_rule rs ttl)"

definition extractBasicMetadata :: "string \<Rightarrow> js_error + song" where
  "extractBasicMetadata ttl =
     first_rule [songYearArtistRule, dashRule, songVideoRule, artistColonRule] ttl"

section \<open>Numbers\<close>

text \<open>
  A JavaScript number is an IEEE 754 double. A finite double is modelled as the rational
  it denotes, and every arithmetic operation rounds its exact result to the nearest
  double, ties to even (\<open>to_double\<close>). \<open>NaN\<close> is \<open>None\<close> where a number can be
  \<open>NaN\<close>. Infinities are not modelled: they arise only in \<open>parseInt\<close>, for a digit
  string whose value is beyond the range of the doubles, where the model gives a finite
  number and JavaScript gives \<open>Infinity\<close>.
\<close>

type_synonym number = rat

fun pow2_floor :: "nat \<Rightarrow> rat \<Rightarrow> rat \<Rightarrow> rat" where
  \<comment> \<open>from the power of two \<open>b\<close>, the power of two \<open>b'\<close> with \<open>b' \<le> x < 2 * b'\<close>, at most
     \<open>n\<close> binades away\<close>
  "pow2_floor 0 b x = b"
| "pow2_floor (Suc n) b x =
     (if x < b then pow2_floor n (b / 2) x
      else if 2 * b \<le> x then pow2_floor n (2 * b) x
      else b)"

definition round_even :: "rat \<Rightarrow> int" where
  "round_even q =
     (let f = \<lfloor>q\<rfloor>; d = q - of_int f in
      if d < 1 / 2 then f else if 1 / 2 < d then f + 1 else if even f then f else f + 1)"

definition ulp :: "rat \<Rightarrow> rat" where
  \<comment> \<open>the spacing of the doubles around \<open>x\<close>: 52 fraction bits below the binade of \<open>x\<close>,
     and the subnormal spacing below \<open>2^-1022\<close>\<close>
  "ulp x = pow2_floor 1022 1 \<bar>x\<bar> / 2 ^ 52"

definition to_double :: "rat \<Rightarrow> number" where
  "to_double x = of_int (round_even (x / ulp x)) * ulp x"

definition fadd :: "number \<Rightarrow> number \<Rightarrow> number" where
  "fadd x y = to_double (x + y)"

definition fmul :: "number \<Rightarrow> number \<Rightarrow> number" where
  "fmul x y = to_double (x * y)"

definition fdiv :: "number \<Rightarrow> number \<Rightarrow> number option" where
  \<comment> \<open>\<open>x / y\<close> for \<open>x \<ge> 0\<close>: \<open>0 / 0\<close> is \<open>NaN\<close>; a positive number over zero is
     \<open>Infinity\<close>, which no caller in this development produces\<close>
  "fdiv x y = (if y = 0 then None else Some (to_double (x / y)))"

definition math_round :: "number \<Rightarrow> number" where
  \<comment> \<open>\<open>Math.round\<close>: the nearest integer, a half rounding up\<close>
  "math_round x = of_int \<lfloor>x + 1 / 2\<rfloor>"

definition digit_value :: "char \<Rightarrow> int" where
  \<comment> \<open>the value of a digit of \<open>parseInt\<close>; 36 when the character is none\<close>
  "digit_value c =
     (let n = of_char c :: int in
      if 48 \<le> n \<and> n \<le> 57 then n - 48
      else if 97 \<le> n \<and> n \<le> 122 then n - 87
      else if 65 \<le> n \<and> n \<le> 90 then n - 55
      else 36)"

definition parseInt :: "string \<Rightarrow> number option" where
  \<comment> \<open>\<open>parseInt(s)\<close> without a radix, for a value within the range of the doubles\<close>
  "parseInt s =
     (let s1 = dropWhile is_space s;
          sign = (if starts_with s1 ''-'' then - 1 else 1 :: int);
          s2 = (if starts_with s1 ''-'' \<or> starts_with s1 ''+'' then drop 1 s1 else s1);
          hex = (starts_with s2 ''0x'' \<or> starts_with s2 ''0X'');
          radix = (if hex then 16 else 10 :: int);
          s3 = (if hex then drop 2 s2 else s2);
          ds = takeWhile (\<lambda>c. digit_value c < radix) s3
      in if ds = [] then None
         else Some (to_double
                (of_int (sign * foldl (\<lambda>acc c. acc * radix + digit_value c) 0 ds))))"

section \<open>The similarity scorer\<close>

record image =
  url :: string
  width :: number
  height :: number

record spotify_artist =
  ar_id :: string
  ar_name :: string
  ar_genres :: "string list option"

record spotify_album =
  al_id :: string
  al_name :: string
  al_release_date :: string
  al_images :: "image list"
  al_genres :: "string list option"

record spotify_track =
  t_id :: string
  t_name :: string
  t_artists :: "spotify_artist list"
  t_album :: spotify_album
  t_duration_ms :: number
  t_popularity :: number
  t_genres :: "string list option"

text \<open>
  The qualifier patterns of \<open>cleanTitleForComparison\<close>, all with the flags \<open>gi\<close>.
\<close>

definition officialPattern :: rx where
  \<comment> \<open>\<open>/\s*\(official\s*(audio|video|music\s*video?)\)/gi\<close>\<close>
  "officialPattern =
     cat [Rep Space 0 True, lits ''(official'', Rep Space 0 True,
          Grp 1 (Alt (lits ''audio'')
                (Alt (lits ''video'')
                     (cat [lits ''music'', Rep Space 0 True, lits ''vide'',
                           Opt (Atom (Lit CHR ''o''))]))),
          Atom (Lit CHR '')'')]"

definition lyricsPattern :: rx where
  \<comment> \<open>\<open>/\s*\(lyrics?\)/gi\<close>\<close>
  "lyricsPattern =
     cat [Rep Space 0 True, lits ''(lyric'', Opt (Atom (Lit CHR ''s'')), Atom (Lit CHR '')'')]"

definition audioPattern :: rx where
  \<comment> \<open>\<open>/\s*\(audio\)/gi\<close>\<close>
  "audioPattern = cat [Rep Space 0 True, lits ''(audio)'']"

definition officialOnlyPattern :: rx where
  \<comment> \<open>\<open>/\s*\(official\)/gi\<close>\<close>
  "officialOnlyPattern = cat [Rep Space 0 True, lits ''(official)'']"

definition musicVideoPattern :: rx where
  \<comment> \<open>\<open>/\s*\(music\s*video\)/gi\<close>\<close>
  "musicVideoPattern = cat [Rep Space 0 True, lits ''(music'', Rep Space 0 True, lits ''video)'']"

definition featPattern :: rx where
  \<comment> \<open>\<open>/\s*\(feat\.?\s*[^)]+\)/gi\<close>\<close>
  "featPattern =
     cat [Rep Space 0 True, lits ''(feat'', Opt (Atom (Lit CHR ''.'')), Rep Space 0 True,
          Rep (NoneOf [Lit CHR '')'']) 1 True, Atom (Lit CHR '')'')]"

definition ftPattern :: rx where
  \<comment> \<open>\<open>/\s*\(ft\.?\s*[^)]+\)/gi\<close>\<close>
  "ftPattern =
     cat [Rep Space 0 True, lits ''(ft'', Opt (Atom (Lit CHR ''.'')), Rep Space 0 True,
          Rep (NoneOf [Lit CHR '')'']) 1 True, Atom (Lit CHR '')'')]"

definition featuringPattern :: rx where
  \<comment> \<open>\<open>/\s*\(featuring\s*[^)]+\)/gi\<close>\<close>
  "featuringPattern =
     cat [Rep Space 0 True, lits ''(featuring'', Rep Space 0 True,
          Rep (NoneOf [Lit CHR '')'']) 1 True, Atom (Lit CHR '')'')]"

definition bracketPattern :: rx where
  \<comment> \<open>\<open>/\s*\[[^\]]+\]/gi\<close>\<close>
  "bracketPattern =
     cat [Rep Space 0 True, Atom (Lit CHR ''[''), Rep (NoneOf [Lit CHR '']'']) 1 True,
          Atom (Lit CHR '']'')]"

definition punctuationPattern :: rx where
  \<comment> \<open>\<open>/[^\w\s]/g\<close>\<close>
  "punctuationPattern = Atom (NoneOf [WordChar, Space])"

definition spacesPattern :: rx where
  \<comment> \<open>\<open>/\s+/g\<close>, and the separator \<open>/\s+/\<close> of \<open>split\<close>\<close>
  "spacesPattern = Rep Space 1 True"

definition cleanTitleForComparison :: "string \<Rightarrow> string" where
  "cleanTitleForComparison ttl =
     trim
      (js_replace False spacesPattern '' ''
      (js_replace False punctuationPattern '' ''
      (js_replace True bracketPattern []
      (js_replace True featuringPattern []
      (js_replace True ftPattern []
      (js_replace True featPattern []
      (js_replace True musicVideoPattern []
      (js_replace True officialOnlyPattern []
      (js_replace True audioPattern []
      (js_replace True lyricsPattern []
      (js_replace True officialPattern []
      (toLowerCase ttl))))))))))))"

function split_loop :: "bool \<Rightarrow> rx \<Rightarrow> string \<Rightarrow> nat \<Rightarrow> string \<Rightarrow> string list" where
  \<comment> \<open>\<open>s.split(re)\<close> for an expression without groups; the third argument is the piece
     being read, reversed\<close>
  "split_loop ic r cur i s =
     (case s of
        [] \<Rightarrow> [rev cur]
      | x # xs \<Rightarrow>
          (case match_at ic r i s of
             None \<Rightarrow> split_loop ic r (x # cur) (Suc i) xs
           | Some (j, s', c) \<Rightarrow>
               if length s' < length s then rev cur # split_loop ic r [] j s'
               else split_loop ic r (x # cur) (Suc i) xs))"
  by pat_completeness auto
termination
  by (relation "measure (\<lambda>(ic, r, cur, i, s). length s)") auto

declare split_loop.simps [simp del]

definition js_split :: "rx \<Rightarrow> string \<Rightarrow> string list" where
  "js_split r s = split_loop False r [] 0 s"

definition titleScore :: "string \<Rightarrow> string \<Rightarrow> number option" where
  \<comment> \<open>what the title adds to the score, from the two cleaned titles\<close>
  "titleScore cleanOriginalTitle cleanSpotifyTitle =
     (if cleanOriginalTitle = cleanSpotifyTitle then Some (to_double (6 / 10))
      else if js_includes cleanSpotifyTitle cleanOriginalTitle
              \<or> js_includes cleanOriginalTitle cleanSpotifyTitle then Some (to_double (4 / 10))
      else
        let originalWords = js_split spacesPattern (toLowerCase cleanOriginalTitle);
            spotifyWords = js_split spacesPattern (toLowerCase cleanSpotifyTitle);
            commonWords = filter (\<lambda>word. word \<in> set spotifyWords) originalWords
        in map_option (\<lambda>wordSimilarity. fmul wordSimilarity (to_double (3 / 10)))
             (fdiv (of_nat (length commonWords))
                   (of_nat (max (length originalWords) (length spotifyWords)))))"

definition first_artist_name :: "spotify_track \<Rightarrow> string option" where
  \<comment> \<open>\<open>track.artists[0]?.name\<close>\<close>
  "first_artist_name track = (case t_artists track of [] \<Rightarrow> None | a # _ \<Rightarrow> Some (ar_name a))"

definition artistScore :: "spotify_track \<Rightarrow> string option \<Rightarrow> number option" where
  \<comment> \<open>what the artist adds to the score; \<open>None\<close> when nothing is added\<close>
  "artistScore track originalArtist =
     (case originalArtist of
        None \<Rightarrow> None
      | Some oa \<Rightarrow>
          if str_truthy oa \<and> oa \<noteq> ''Unknown Artist'' then
            (case first_artist_name track of
               None \<Rightarrow> None
             | Some spotifyArtist \<Rightarrow>
                 if str_truthy spotifyArtist then
                   if toLowerCase spotifyArtist = toLowerCase oa then Some (to_double (3 / 10))
                   else if js_includes (toLowerCase spotifyArtist) (toLowerCase oa)
                           \<or> js_includes (toLowerCase oa) (toLowerCase spotifyArtist)
                   then Some (to_double (2 / 10))
                   else None
                 else None)
          else None)"

definition num_add :: "number option \<Rightarrow> number option \<Rightarrow> number option" where
  \<comment> \<open>\<open>+\<close> on numbers that may be \<open>NaN\<close>\<close>
  "num_add x y = (case (x, y) of (Some a, Some b) \<Rightarrow> Some (fadd a b) | _ \<Rightarrow> None)"

definition math_min :: "number option \<Rightarrow> number \<Rightarrow> number option" where
  \<comment> \<open>\<open>Math.min(x, y)\<close>, \<open>NaN\<close> when \<open>x\<close> is\<close>
  "math_min x y = map_option (\<lambda>a. min a y) x"

definition calculateSimilarityScore ::
    "spotify_track \<Rightarrow> string \<Rightarrow> string option \<Rightarrow> number option" where
  "calculateSimilarityScore track originalTitle originalArtist =
     (let score = Some 0;
          cleanOriginalTitle = cleanTitleForComparison originalTitle;
          cleanSpotifyTitle = cleanTitleForComparison (t_name track);
          score = num_add score (titleScore cleanOriginalTitle cleanSpotifyTitle);
          score = (case artistScore track originalArtist of
                     None \<Rightarrow> score
                   | Some w \<Rightarrow> num_add score (Some w));
          score = (if 50 < t_popularity track
                   then num_add score (Some (to_double (1 / 10))) else score)
      in math_min score 1)"

section \<open>The query builder\<close>

text \<open>
  The qualifier patterns of \<open>buildSearchQueries\<close>, all with the flags \<open>gi\<close>.
\<close>

definition qOfficialPattern :: rx where
  \<comment> \<open>\<open>/\s*\(Official\s*(Audio|Video|Music\s*Video?)\)/gi\<close>\<close>
  "qOfficialPattern =
     cat [Rep Space 0 True, lits ''(Official'', Rep Space 0 True,
          Grp 1 (Alt (lits ''Audio'')
                (Alt (lits ''Video'')
                     (cat [lits ''Music'', Rep Space 0 True, lits ''Vide'',
                           Opt (Atom (Lit CHR ''o''))]))),
          Atom (Lit CHR '')'')]"

definition qLyricsPattern :: rx where
  \<comment> \<open>\<open>/\s*\(Lyrics?\)/gi\<close>\<close>
  "qLyricsPattern =
     cat [Rep Space 0 True, lits ''(Lyric'', Opt (Atom (Lit CHR ''s'')), Atom (Lit CHR '')'')]"

definition qAudioPattern :: rx where
  \<comment> \<open>\<open>/\s*\(Audio\)/gi\<close>\<close>
  "qAudioPattern = cat [Rep Space 0 True, lits ''(Audio)'']"

definition qOfficialOnlyPattern :: rx where
  \<comment> \<open>\<open>/\s*\(Official\)/gi\<close>\<close>
  "qOfficialOnlyPattern = cat [Rep Space 0 True, lits ''(Official)'']"

definition qMusicVideoPattern :: rx where
  \<comment> \<open>\<open>/\s*\(Music\s*Video\)/gi\<close>\<close>
  "qMusicVideoPattern =
     cat [Rep Space 0 True, lits ''(Music'', Rep Space 0 True, lits ''Video)'']"

definition cleanTitle :: "string \<Rightarrow> string" where
  \<comment> \<open>the constant \<open>cleanTitle\<close> of \<open>buildSearchQueries\<close>\<close>
  "cleanTitle ttl =
     trim
      (js_replace True qMusicVideoPattern []
      (js_replace True qOfficialOnlyPattern []
      (js_replace True qAudioPattern []
      (js_replace True qLyricsPattern []
      (js_replace True qOfficialPattern [] ttl)))))"

definition dq :: string where
  \<comment> \<open>the double quote\<close>
  "dq = [CHR 0x22]"

definition artistTrackQuery :: "string \<Rightarrow> string \<Rightarrow> string" where
  \<comment> \<open>\<open>`artist:"${a}" track:"${t}"`\<close>\<close>
  "artistTrackQuery a t = ''artist:'' @ dq @ a @ dq @ '' track:'' @ dq @ t @ dq"

definition trackQuery :: "string \<Rightarrow> string" where
  \<comment> \<open>\<open>`track:"${t}"`\<close>\<close>
  "trackQuery t = ''track:'' @ dq @ t @ dq"

definition nth_opt :: "'a list \<Rightarrow> nat \<Rightarrow> 'a option" where
  \<comment> \<open>\<open>xs[i]\<close>: \<open>undefined\<close> out of range\<close>
  "nth_opt xs i = (if i < length xs then Some (xs ! i) else None)"

definition last_opt :: "'a list \<Rightarrow> 'a option" where
  \<comment> \<open>\<open>xs[xs.length - 1]\<close>\<close>
  "last_opt xs = (if xs = [] then None else nth_opt xs (length xs - 1))"

definition part_ok :: "string option \<Rightarrow> bool" where
  \<comment> \<open>\<open>part && part.length > 2\<close>\<close>
  "part_ok part = (case part of None \<Rightarrow> False | Some p \<Rightarrow> str_truthy p \<and> 2 < length p)"

definition artistQueries :: "string \<Rightarrow> string \<Rightarrow> string list" where
  \<comment> \<open>strategies 1 to 5, for a known artist\<close>
  "artistQueries art ct =
     (let queries = [artistTrackQuery art ct, art @ '' '' @ ct, ct @ '' '' @ art];
          artistFirstPart = nth_opt (split_space art) 0;
          queries =
            (if part_ok artistFirstPart
             then queries @ [artistTrackQuery (the artistFirstPart) ct,
                             the artistFirstPart @ '' '' @ ct]
             else queries);
          artistWords = split_space art;
          artistLastPart = last_opt artistWords
      in if part_ok artistLastPart \<and> artistLastPart \<noteq> artistFirstPart
         then queries @ [artistTrackQuery (the artistLastPart) ct,
                         the artistLastPart @ '' '' @ ct]
         else queries)"

definition titleQueries :: "string \<Rightarrow> string list" where
  \<comment> \<open>strategies 6 to 8\<close>
  "titleQueries ct =
     (let queries = [trackQuery ct, ct];
          titleWords = split_space ct
      in if 2 < length titleWords
         then let shortTitle = join_space (take 2 titleWords)
              in queries @ [trackQuery shortTitle, shortTitle]
         else queries)"

definition buildSearchQueries :: "string \<Rightarrow> string \<Rightarrow> string list" where
  "buildSearchQueries ttl art =
     (let ct = cleanTitle ttl
      in (if str_truthy art \<and> art \<noteq> ''Unknown Artist'' then artistQueries art ct else [])
         @ titleQueries ct)"

section \<open>The providers\<close>

text \<open>
  The three providers are reached through \<open>fetch\<close>. A reply is what one request gives:
  \<open>NetFail\<close> when \<open>fetch\<close> rejects, otherwise \<open>Resp ok body\<close> with the flag
  \<open>response.ok\<close> and the parsed JSON body, \<open>None\<close> when \<open>response.json()\<close> rejects.
  The environment gives the reply to each request as a function of the requests made
  before it (the trace), so a provider may answer the same request differently each time.
  Every request is appended to the trace. Writing to the console is not modelled.
\<close>

datatype 'a reply = NetFail | Resp bool "'a option"

datatype call =
    SpotifyToken
  | SpotifySearch string
  | SpotifyArtist string
  | SpotifyAlbum string
  | LastFmSearch string "string option"
  | LastFmInfo string string
  | MusicBrainzSearch string "string option"
  | MusicBrainzRecording string

record token_json =
  access_token :: "string option"
  expires_in :: "number option"

datatype json_names =
    Absent
  | Names "string list"
  | NotArray

record lastfm_info =
  li_name :: "string option"
  li_artist_name :: "string option"
  li_album_title :: "string option"
  li_album_image :: "string option"
  li_published :: "string option"
  li_duration :: "string option"
  li_tags :: json_names

record mb_recording =
  mr_title :: "string option"
  mr_artist_name :: "string option"
  mr_artist_id :: "string option"
  mr_release_title :: "string option"
  mr_release_date :: "string option"
  mr_release_id :: "string option"
  mr_length :: "string option"
  mr_genres :: json_names

text \<open>
  \<open>lastfm_info\<close> is the \<open>track\<close> object of Last.fm's \<open>track.getInfo\<close>, and
  \<open>mb_recording\<close> the recording object of MusicBrainz, each with the paths the program
  reads: \<open>li_artist_name\<close> is \<open>artist?.name\<close>, \<open>li_album_image\<close> is
  \<open>album?.image?.[2]?.['#text']\<close>, \<open>li_published\<close> is \<open>wiki?.published\<close>,
  \<open>li_tags\<close> is \<open>toptags?.tag\<close> with the \<open>name\<close> of each tag,
  \<open>mr_artist_name\<close> is \<open>['artist-credit']?.[0]?.name\<close>, \<open>mr_release_title\<close> is
  \<open>releases?.[0]?.title\<close>, and so on; \<open>mr_length\<close> is \<open>length\<close> as the string
  \<open>parseInt\<close> converts it to. A search hit of Last.fm is read for its truthiness only
  and one of MusicBrainz for its \<open>id\<close>.
\<close>

record env =
  now :: "call list \<Rightarrow> number"
  token_reply :: "call list \<Rightarrow> token_json reply"
  search_reply :: "call list \<Rightarrow> string \<Rightarrow> spotify_track list reply"
  artist_reply :: "call list \<Rightarrow> string \<Rightarrow> string list option reply"
  album_reply :: "call list \<Rightarrow> string \<Rightarrow> string list option reply"
  lastfm_search_reply :: "call list \<Rightarrow> string \<Rightarrow> string option \<Rightarrow> unit list reply"
  lastfm_info_reply :: "call list \<Rightarrow> string \<Rightarrow> string \<Rightarrow> lastfm_info option reply"
  mb_search_reply :: "call list \<Rightarrow> string \<Rightarrow> string option \<Rightarrow> string list reply"
  mb_recording_reply :: "call list \<Rightarrow> string \<Rightarrow> mb_recording option reply"

record enriched = song +
  releaseDate :: string
  duration :: "number option"
  genres :: "string list"
  popularity :: number
  spotifyId :: "string option"
  albumCover :: "string option"
  artistId :: "string option"
  albumId :: "string option"

definition catch_return :: "'a \<Rightarrow> (js_error + 'a) \<times> 's \<Rightarrow> (js_error + 'a) \<times> 's" where
  \<comment> \<open>\<open>try { body } catch (error) { return d }\<close>\<close>
  "catch_return d r = (case r of (Inl e, s) \<Rightarrow> (Inr d, s) | (Inr v, s) \<Rightarrow> (Inr v, s))"

definition js_or :: "string option \<Rightarrow> string \<Rightarrow> string" where
  \<comment> \<open>\<open>v || d\<close>\<close>
  "js_or v d = (case v of None \<Rightarrow> d | Some s \<Rightarrow> if str_truthy s then s else d)"

definition num_gt :: "number option \<Rightarrow> number option \<Rightarrow> bool" where
  \<comment> \<open>\<open>x > y\<close>, false when either is \<open>NaN\<close>\<close>
  "num_gt x y = (case (x, y) of (Some a, Some b) \<Rightarrow> b < a | _ \<Rightarrow> False)"

subsection \<open>Spotify\<close>

record enricher =
  accessToken :: "string option"
  tokenExpiry :: "number option"

definition new_enricher :: enricher where
  "new_enricher = \<lparr>accessToken = None, tokenExpiry = Some 0\<rparr>"

type_synonym 'a outcome = "(js_error + 'a) \<times> enricher \<times> call list"

definition fetchToken :: "env \<Rightarrow> enricher \<Rightarrow> call list \<Rightarrow> string outcome" where
  \<comment> \<open>the \<open>try\<close> block of \<open>getAccessToken\<close>, whose \<open>catch\<close> throws again\<close>
  "fetchToken e this tr =
     (let tr' = tr @ [SpotifyToken] in
      case token_reply e tr of
        NetFail \<Rightarrow> (Inl AuthError, this, tr')
      | Resp ok None \<Rightarrow> (Inl AuthError, this, tr')
      | Resp ok (Some data) \<Rightarrow>
          if truthy (access_token data) then
            (Inr (the (access_token data)),
             this\<lparr>accessToken := access_token data,
                  tokenExpiry :=
                    (case expires_in data of
                       None \<Rightarrow> None
                     | Some x \<Rightarrow> Some (fadd (now e tr') (fmul x 1000)))\<rparr>,
             tr')
          else (Inl AuthError, this, tr'))"

definition getAccessToken :: "env \<Rightarrow> enricher \<Rightarrow> call list \<Rightarrow> string outcome" where
  "getAccessToken e this tr =
     (if truthy (accessToken this) \<and> num_gt (tokenExpiry this) (Some (now e tr))
      then (Inr (the (accessToken this)), this, tr)
      else fetchToken e this tr)"

definition artistStep ::
    "env \<Rightarrow> call list \<Rightarrow> spotify_track \<Rightarrow> js_error option \<times> spotify_track \<times> call list" where
  \<comment> \<open>the artist request of \<open>enrichTrackData\<close>: the error thrown, if any, and the track
     as it then is\<close>
  "artistStep e tr track =
     (case t_artists track of
        [] \<Rightarrow> (None, track, tr)
      | a # rest \<Rightarrow>
          (let tr' = tr @ [SpotifyArtist (ar_id a)] in
           case artist_reply e tr (ar_id a) of
             NetFail \<Rightarrow> (Some NetworkError, track, tr')
           | Resp ok body \<Rightarrow>
               if ok then
                 (case body of
                    None \<Rightarrow> (Some SyntaxError, track, tr')
                  | Some g \<Rightarrow> (None, track\<lparr>t_artists := a\<lparr>ar_genres := g\<rparr> # rest\<rparr>, tr'))
               else (None, track, tr')))"

definition albumStep ::
    "env \<Rightarrow> call list \<Rightarrow> spotify_track \<Rightarrow> js_error option \<times> spotify_track \<times> call list" where
  \<comment> \<open>the album request of \<open>enrichTrackData\<close>\<close>
  "albumStep e tr track =
     (let tr' = tr @ [SpotifyAlbum (al_id (t_album track))] in
      case album_reply e tr (al_id (t_album track)) of
        NetFail \<Rightarrow> (Some NetworkError, track, tr')
      | Resp ok body \<Rightarrow>
          if ok then
            (case body of
               None \<Rightarrow> (Some SyntaxError, track, tr')
             | Some g \<Rightarrow> (None, track\<lparr>t_album := (t_album track)\<lparr>al_genres := g\<rparr>\<rparr>, tr'))
          else (None, track, tr'))"

definition enrichTrackData ::
    "env \<Rightarrow> enricher \<Rightarrow> call list \<Rightarrow> spotify_track \<Rightarrow> spotify_track outcome" where
  \<comment> \<open>the track is updated in place, so the \<open>catch\<close> returns it as far as it got\<close>
  "enrichTrackData e this tr track =
     (case getAccessToken e this tr of
        (Inl err, this1, tr1) \<Rightarrow> (Inr track, this1, tr1)
      | (Inr token, this1, tr1) \<Rightarrow>
          (case artistStep e tr1 track of
             (Some err, track1, tr2) \<Rightarrow> (Inr track1, this1, tr2)
           | (None, track1, tr2) \<Rightarrow>
               (case albumStep e tr2 track1 of
                  (err, track2, tr3) \<Rightarrow> (Inr track2, this1, tr3))))"

fun bestMatchLoop ::
    "(spotify_track \<times> number option) option \<Rightarrow> spotify_track list \<Rightarrow> string \<Rightarrow> string option
       \<Rightarrow> (spotify_track \<times> number option) option" where
  "bestMatchLoop bestMatch [] originalTitle originalArtist = bestMatch"
| "bestMatchLoop bestMatch (track # tracks) originalTitle originalArtist =
     (let score = calculateSimilarityScore track originalTitle originalArtist in
      case bestMatch of
        None \<Rightarrow> bestMatchLoop (Some (track, score)) tracks originalTitle originalArtist
      | Some (bt, bs) \<Rightarrow>
          if num_gt score bs
          then bestMatchLoop (Some (track, score)) tracks originalTitle originalArtist
          else bestMatchLoop bestMatch tracks originalTitle originalArtist)"

definition findBestMatch ::
    "spotify_track list \<Rightarrow> string \<Rightarrow> string option
       \<Rightarrow> (spotify_track \<times> number option) option" where
  "findBestMatch tracks originalTitle originalArtist =
     bestMatchLoop None tracks originalTitle originalArtist"

definition threshold :: number where
  \<comment> \<open>the literal \<open>0.7\<close>\<close>
  "threshold = to_double (7 / 10)"

fun searchLoop ::
    "env \<Rightarrow> enricher \<Rightarrow> call list \<Rightarrow> string list \<Rightarrow> string \<Rightarrow> string
       \<Rightarrow> spotify_track option outcome" where
  \<comment> \<open>the \<open>for\<close> loop of \<open>searchSpotifyTrack\<close> over the search queries, and the
     \<open>return null\<close> after it\<close>
  "searchLoop e this tr [] originalTitle originalArtist = (Inr None, this, tr)"
| "searchLoop e this tr (searchQuery # rest) originalTitle originalArtist =
     (let tr' = tr @ [SpotifySearch searchQuery] in
      case search_reply e tr searchQuery of
        NetFail \<Rightarrow> (Inl NetworkError, this, tr')
      | Resp ok body \<Rightarrow>
          if \<not> ok then searchLoop e this tr' rest originalTitle originalArtist
          else
            (case body of
               None \<Rightarrow> (Inl SyntaxError, this, tr')
             | Some items \<Rightarrow>
                 if 0 < length items then
                   (case findBestMatch items originalTitle (Some originalArtist) of
                      None \<Rightarrow> searchLoop e this tr' rest originalTitle originalArtist
                    | Some (track, score) \<Rightarrow>
                        if num_gt score (Some threshold) then
                          (case enrichTrackData e this tr' track of
                             (Inl err, this1, tr1) \<Rightarrow> (Inl err, this1, tr1)
                           | (Inr enrichedTrack, this1, tr1) \<Rightarrow>
                               (Inr (Some enrichedTrack), this1, tr1))
                        else searchLoop e this tr' rest originalTitle originalArtist)
                 else searchLoop e this tr' rest originalTitle originalArtist))"

definition searchSpotifyTrack ::
    "env \<Rightarrow> enricher \<Rightarrow> call list \<Rightarrow> string \<Rightarrow> string \<Rightarrow> string
       \<Rightarrow> spotify_track option outcome" where
  "searchSpotifyTrack e this tr query originalTitle originalArtist =
     catch_return None
       (case getAccessToken e this tr of
          (Inl err, this1, tr1) \<Rightarrow> (Inl err, this1, tr1)
        | (Inr token, this1, tr1) \<Rightarrow>
            searchLoop e this1 tr1 (buildSearchQueries originalTitle originalArtist)
              originalTitle originalArtist)"

definition indexOf :: "'a list \<Rightarrow> 'a \<Rightarrow> nat" where
  \<comment> \<open>\<open>arr.indexOf(x)\<close> for an \<open>x\<close> that occurs\<close>
  "indexOf arr x = length (takeWhile (\<lambda>y. y \<noteq> x) arr)"

definition removeDuplicates :: "string list \<Rightarrow> string list" where
  \<comment> \<open>\<open>arr.filter((genre, index, arr) => arr.indexOf(genre) === index)\<close>\<close>
  "removeDuplicates arr =
     map fst (filter (\<lambda>(genre, index). indexOf arr genre = index) (zip arr [0..<length arr]))"

definition or_empty :: "string list option \<Rightarrow> string list" where
  \<comment> \<open>\<open>v || []\<close>\<close>
  "or_empty v = (case v of None \<Rightarrow> [] | Some xs \<Rightarrow> xs)"

definition seconds :: "number \<Rightarrow> number option" where
  \<comment> \<open>\<open>Math.round(ms / 1000)\<close>\<close>
  "seconds ms = map_option math_round (fdiv ms 1000)"

definition toEnriched :: "spotify_track \<Rightarrow> enriched" where
  \<comment> \<open>the object \<open>enriched\<close> of \<open>enrichMetadata\<close>\<close>
  "toEnriched spotifyTrack =
     \<lparr>artist = js_or (first_artist_name spotifyTrack) ''Unknown Artist'',
      album = al_name (t_album spotifyTrack),
      title = t_name spotifyTrack,
      releaseDate = al_release_date (t_album spotifyTrack),
      duration = seconds (t_duration_ms spotifyTrack),
      genres = removeDuplicates
        (or_empty (case t_artists spotifyTrack of [] \<Rightarrow> None | a # _ \<Rightarrow> ar_genres a)
         @ or_empty (al_genres (t_album spotifyTrack))),
      popularity = t_popularity spotifyTrack,
      spotifyId = Some (t_id spotifyTrack),
      albumCover = (case al_images (t_album spotifyTrack) of [] \<Rightarrow> None | i # _ \<Rightarrow> Some (url i)),
      artistId = (case t_artists spotifyTrack of [] \<Rightarrow> None | a # _ \<Rightarrow> Some (ar_id a)),
      albumId = Some (al_id (t_album spotifyTrack))\<rparr>"

definition searchQueryOf :: "string \<Rightarrow> string option \<Rightarrow> string option \<Rightarrow> string" where
  \<comment> \<open>the variable \<open>searchQuery\<close> of \<open>enrichMetadata\<close>\<close>
  "searchQueryOf ttl art alb =
     (let searchQuery = ttl;
          searchQuery = (if truthy art \<and> art \<noteq> Some ''Unknown Artist''
                         then the art @ '' '' @ ttl else searchQuery)
      in if truthy alb \<and> alb \<noteq> Some ''Unknown Album''
         then searchQuery @ '' '' @ the alb else searchQuery)"

definition enrichMetadata ::
    "env \<Rightarrow> enricher \<Rightarrow> call list \<Rightarrow> string \<Rightarrow> string option \<Rightarrow> string option
       \<Rightarrow> enriched option outcome" where
  "enrichMetadata e this tr ttl art alb =
     catch_return None
       (case searchSpotifyTrack e this tr (searchQueryOf ttl art alb) ttl
               (js_or art ''Unknown Artist'') of
          (Inl err, this1, tr1) \<Rightarrow> (Inl err, this1, tr1)
        | (Inr None, this1, tr1) \<Rightarrow> (Inr None, this1, tr1)
        | (Inr (Some spotifyTrack), this1, tr1) \<Rightarrow>
            (Inr (Some (toEnriched spotifyTrack)), this1, tr1))"

subsection \<open>Last.fm\<close>

definition knownArtist :: "string option \<Rightarrow> string option" where
  \<comment> \<open>the artist a search names: none when \<open>artist && artist !== 'Unknown Artist'\<close>
     fails\<close>
  "knownArtist art = (if truthy art \<and> art \<noteq> Some ''Unknown Artist'' then art else None)"

definition searchTrack ::
    "env \<Rightarrow> call list \<Rightarrow> string \<Rightarrow> string option \<Rightarrow> (js_error + unit option) \<times> call list" where
  "searchTrack e tr ttl art =
     catch_return None
       (let tr' = tr @ [LastFmSearch ttl (knownArtist art)] in
        case lastfm_search_reply e tr ttl (knownArtist art) of
          NetFail \<Rightarrow> (Inl NetworkError, tr')
        | Resp ok body \<Rightarrow>
            if \<not> ok then (Inl HttpError, tr')
            else (case body of
                    None \<Rightarrow> (Inl SyntaxError, tr')
                  | Some hits \<Rightarrow> (Inr (nth_opt hits 0), tr')))"

definition getTrackInfo ::
    "env \<Rightarrow> call list \<Rightarrow> string \<Rightarrow> string \<Rightarrow> (js_error + lastfm_info option) \<times> call list" where
  "getTrackInfo e tr ttl art =
     catch_return None
       (let tr' = tr @ [LastFmInfo ttl art] in
        case lastfm_info_reply e tr ttl art of
          NetFail \<Rightarrow> (Inl NetworkError, tr')
        | Resp ok body \<Rightarrow>
            if \<not> ok then (Inl HttpError, tr')
            else (case body of
                    None \<Rightarrow> (Inl SyntaxError, tr')
                  | Some info \<Rightarrow> (Inr info, tr')))"

definition names_of :: "json_names \<Rightarrow> js_error + string list option" where
  \<comment> \<open>\<open>v?.map(x => x.name)\<close>: a \<open>TypeError\<close> when \<open>v\<close> is not an array\<close>
  "names_of v = (case v of Absent \<Rightarrow> Inr None | Names ns \<Rightarrow> Inr (Some ns) | NotArray \<Rightarrow> Inl TypeError)"

definition lastfmRecord :: "lastfm_info \<Rightarrow> string \<Rightarrow> string \<Rightarrow> string \<Rightarrow> js_error + enriched" where
  \<comment> \<open>the object the Last.fm block returns\<close>
  "lastfmRecord trackInfo ttl art alb =
     (case names_of (li_tags trackInfo) of
        Inl err \<Rightarrow> Inl err
      | Inr tags \<Rightarrow>
          Inr \<lparr>artist = js_or (li_artist_name trackInfo) art,
               album = js_or (li_album_title trackInfo) alb,
               title = js_or (li_name trackInfo) ttl,
               releaseDate = js_or (li_published trackInfo) [],
               duration = parseInt (js_or (li_duration trackInfo) ''0''),
               genres = or_empty tags,
               popularity = 0,
               spotifyId = None,
               albumCover = li_album_image trackInfo,
               artistId = None,
               albumId = None\<rparr>)"

subsection \<open>MusicBrainz\<close>

definition searchRecording ::
    "env \<Rightarrow> call list \<Rightarrow> string \<Rightarrow> string option \<Rightarrow> (js_error + string option) \<times> call list" where
  \<comment> \<open>the first recording of the search, as its \<open>id\<close>\<close>
  "searchRecording e tr ttl art =
     catch_return None
       (let tr' = tr @ [MusicBrainzSearch ttl (knownArtist art)] in
        case mb_search_reply e tr ttl (knownArtist art) of
          NetFail \<Rightarrow> (Inl NetworkError, tr')
        | Resp ok body \<Rightarrow>
            if \<not> ok then (Inl HttpError, tr')
            else (case body of
                    None \<Rightarrow> (Inl SyntaxError, tr')
                  | Some recordings \<Rightarrow> (Inr (nth_opt recordings 0), tr')))"

definition getRecording ::
    "env \<Rightarrow> call list \<Rightarrow> string \<Rightarrow> (js_error + mb_recording option) \<times> call list" where
  "getRecording e tr recordingId =
     catch_return None
       (let tr' = tr @ [MusicBrainzRecording recordingId] in
        case mb_recording_reply e tr recordingId of
          NetFail \<Rightarrow> (Inl NetworkError, tr')
        | Resp ok body \<Rightarrow>
            if \<not> ok then (Inl HttpError, tr')
            else (case body of
                    None \<Rightarrow> (Inl SyntaxError, tr')
                  | Some data \<Rightarrow> (Inr data, tr')))"

definition musicbrainzRecord ::
    "mb_recording \<Rightarrow> string \<Rightarrow> string \<Rightarrow> string \<Rightarrow> js_error + enriched" where
  \<comment> \<open>the object the MusicBrainz block returns\<close>
  "musicbrainzRecord fullRecording ttl art alb =
     (case names_of (mr_genres fullRecording) of
        Inl err \<Rightarrow> Inl err
      | Inr gs \<Rightarrow>
          Inr \<lparr>artist = js_or (mr_artist_name fullRecording) art,
               album = js_or (mr_release_title fullRecording) alb,
               title = js_or (mr_title fullRecording) ttl,
               releaseDate = js_or (mr_release_date fullRecording) [],
               duration =
                 (case parseInt (js_or (mr_length fullRecording) ''0'') of
                    None \<Rightarrow> None
                  | Some ms \<Rightarrow> seconds ms),
               genres = or_empty gs,
               popularity = 0,
               spotifyId = None,
               albumCover = None,
               artistId = mr_artist_id fullRecording,
               albumId = mr_release_id fullRecording\<rparr>)"

section \<open>The orchestrator\<close>

text \<open>
  \<open>enrichMetadataWithAPIs\<close> is three \<open>try\<close> blocks in a row, one for each provider. A
  block is modelled by a stage: \<open>Inr (Some m)\<close> when the block returns the record \<open>m\<close>,
  \<open>Inr None\<close> when control leaves the block for what follows it, either at its end or
  through its \<open>catch\<close>.
\<close>

type_synonym stage_result = "(js_error + enriched option) \<times> call list"

definition spotifyStage :: "env \<Rightarrow> call list \<Rightarrow> string \<Rightarrow> string \<Rightarrow> string \<Rightarrow> stage_result" where
  "spotifyStage e tr ttl art alb =
     catch_return None
       (case enrichMetadata e new_enricher tr ttl (Some art) (Some alb) of
          (r, this1, tr1) \<Rightarrow> (r, tr1))"

definition lastfmStage :: "env \<Rightarrow> call list \<Rightarrow> string \<Rightarrow> string \<Rightarrow> string \<Rightarrow> stage_result" where
  "lastfmStage e tr ttl art alb =
     catch_return None
       (case searchTrack e tr ttl (Some art) of
          (Inl err, tr1) \<Rightarrow> (Inl err, tr1)
        | (Inr None, tr1) \<Rightarrow> (Inr None, tr1)
        | (Inr (Some lastfmTrack), tr1) \<Rightarrow>
            (case getTrackInfo e tr1 ttl art of
               (Inl err, tr2) \<Rightarrow> (Inl err, tr2)
             | (Inr None, tr2) \<Rightarrow> (Inr None, tr2)
             | (Inr (Some trackInfo), tr2) \<Rightarrow>
                 (case lastfmRecord trackInfo ttl art alb of
                    Inl err \<Rightarrow> (Inl err, tr2)
                  | Inr m \<Rightarrow> (Inr (Some m), tr2))))"

definition musicbrainzStage ::
    "env \<Rightarrow> call list \<Rightarrow> string \<Rightarrow> string \<Rightarrow> string \<Rightarrow> stage_result" where
  "musicbrainzStage e tr ttl art alb =
     catch_return None
       (case searchRecording e tr ttl (Some art) of
          (Inl err, tr1) \<Rightarrow> (Inl err, tr1)
        | (Inr None, tr1) \<Rightarrow> (Inr None, tr1)
        | (Inr (Some recordingId), tr1) \<Rightarrow>
            (case getRecording e tr1 recordingId of
               (Inl err, tr2) \<Rightarrow> (Inl err, tr2)
             | (Inr None, tr2) \<Rightarrow> (Inr None, tr2)
             | (Inr (Some fullRecording), tr2) \<Rightarrow>
                 (case musicbrainzRecord fullRecording ttl art alb of
                    Inl err \<Rightarrow> (Inl err, tr2)
                  | Inr m \<Rightarrow> (Inr (Some m), tr2))))"

definition enrichMetadataWithAPIs ::
    "env \<Rightarrow> call list \<Rightarrow> string \<Rightarrow> string \<Rightarrow> string \<Rightarrow> stage_result" where
  "enrichMetadataWithAPIs e tr ttl art alb =
     (case spotifyStage e tr ttl art alb of
        (Inl err, tr1) \<Rightarrow> (Inl err, tr1)
      | (Inr (Some spotifyMetadata), tr1) \<Rightarrow> (Inr (Some spotifyMetadata), tr1)
      | (Inr None, tr1) \<Rightarrow>
          (case lastfmStage e tr1 ttl art alb of
             (Inl err, tr2) \<Rightarrow> (Inl err, tr2)
           | (Inr (Some m), tr2) \<Rightarrow> (Inr (Some m), tr2)
           | (Inr None, tr2) \<Rightarrow>
               (case musicbrainzStage e tr2 ttl art alb of
                  (Inl err, tr3) \<Rightarrow> (Inl err, tr3)
                | (Inr (Some m), tr3) \<Rightarrow> (Inr (Some m), tr3)
                | (Inr None, tr3) \<Rightarrow> (Inr None, tr3))))"

section \<open>Validation of the enriched record\<close>

text \<open>
  The part of the \<open>POST\<close> handler from \<open>extractBasicMetadata(title)\<close> to
  \<open>finalMetadata\<close>.
\<close>

definition titleSimilarity :: "song \<Rightarrow> enriched \<Rightarrow> bool" where
  "titleSimilarity basicMetadata enrichedMetadata \<longleftrightarrow>
     js_includes (toLowerCase (title enrichedMetadata)) (toLowerCase (title basicMetadata))
     \<or> js_includes (toLowerCase (title basicMetadata)) (toLowerCase (title enrichedMetadata))"

definition artistSimilarity :: "song \<Rightarrow> enriched \<Rightarrow> bool" where
  "artistSimilarity basicMetadata enrichedMetadata \<longleftrightarrow>
     js_includes (toLowerCase (artist enrichedMetadata)) (toLowerCase (artist basicMetadata))
     \<or> js_includes (toLowerCase (artist basicMetadata)) (toLowerCase (artist enrichedMetadata))"

definition hybrid :: "song \<Rightarrow> enriched \<Rightarrow> enriched" where
  \<comment> \<open>the object built when the validation fails\<close>
  "hybrid basicMetadata enrichedMetadata =
     \<lparr>artist = artist basicMetadata,
      album = album basicMetadata,
      title = title basicMetadata,
      releaseDate = (if str_truthy (releaseDate enrichedMetadata)
                     then releaseDate enrichedMetadata else []),
      duration = (case duration enrichedMetadata of
                    None \<Rightarrow> Some 0
                  | Some d \<Rightarrow> if d = 0 then Some 0 else Some d),
      genres = genres enrichedMetadata,
      popularity = (if popularity enrichedMetadata = 0 then 0 else popularity enrichedMetadata),
      spotifyId = spotifyId enrichedMetadata,
      albumCover = albumCover enrichedMetadata,
      artistId = artistId enrichedMetadata,
      albumId = albumId enrichedMetadata\<rparr>"

definition validateEnriched :: "song \<Rightarrow> enriched \<Rightarrow> enriched" where
  \<comment> \<open>the body of \<open>if (enrichedMetadata)\<close>: the value of \<open>enrichedMetadata\<close> after it\<close>
  "validateEnriched basicMetadata enrichedMetadata =
     (if titleSimilarity basicMetadata enrichedMetadata
         \<and> artistSimilarity basicMetadata enrichedMetadata
      then enrichedMetadata
      else hybrid basicMetadata enrichedMetadata)"


definition importMetadata ::
    "env \<Rightarrow> call list \<Rightarrow> string \<Rightarrow> (js_error + song \<times> enriched option) \<times> call list" where
  \<comment> \<open>\<open>basicMetadata\<close> and \<open>enrichedMetadata\<close> as they are when \<open>finalMetadata\<close> is
     computed\<close>
  "importMetadata e tr rawTitle =
     (case extractBasicMetadata rawTitle of
        Inl err \<Rightarrow> (Inl err, tr)
      | Inr basicMetadata \<Rightarrow>
          (case catch_return None
                  (case enrichMetadataWithAPIs e tr (title basicMetadata)
                          (artist basicMetadata) (album basicMetadata) of
                     (Inl err, tr1) \<Rightarrow> (Inl err, tr1)
                   | (Inr None, tr1) \<Rightarrow> (Inr None, tr1)
                   | (Inr (Some enrichedMetadata), tr1) \<Rightarrow>
                       (Inr (Some (validateEnriched basicMetadata enrichedMetadata)), tr1)) of
             (Inl err, tr1) \<Rightarrow> (Inl err, tr1)
           | (Inr enrichedMetadata, tr1) \<Rightarrow> (Inr (basicMetadata, enrichedMetadata), tr1)))"

section \<open>Auxiliary definitions\<close>

fun sure_groups :: "rx \<Rightarrow> nat set" where
  "sure_groups (Cat r1 r2) = sure_groups r1 \<union> sure_groups r2"
| "sure_groups (Alt r1 r2) = sure_groups r1 \<inter> sure_groups r2"
| "sure_groups (Grp n r) = insert n (sure_groups r)"
| "sure_groups r = {}"



definition trim_start :: "string \<Rightarrow> string" where
  \<comment> \<open>\<open>s.trimStart()\<close>\<close>
  "trim_start s = dropWhile is_space s"

definition trim_end :: "string \<Rightarrow> string" where
  \<comment> \<open>\<open>s.trimEnd()\<close>\<close>
  "trim_end s = rev (dropWhile is_space (rev s))"

definition early_qualifier :: "string \<Rightarrow> bool" where
  \<comment> \<open>after white space the text opens a parenthesis that is never closed, or is closed
     after at least one character and followed, after white space, by a dash\<close>
  "early_qualifier u =
     (case dropWhile is_space u of
        [] \<Rightarrow> False
      | x # v \<Rightarrow>
          x = CHR ''('' \<and>
          (let w = dropWhile (\<lambda>c. c \<noteq> CHR '')'') v
           in w = [] \<or> (w \<noteq> v \<and> starts_with (dropWhile is_space (tl w)) ''-'')))"

datatype provider = Spotify | LastFm | MusicBrainz

fun provider_of :: "call \<Rightarrow> provider" where
  "provider_of SpotifyToken = Spotify"
| "provider_of (SpotifySearch q) = Spotify"
| "provider_of (SpotifyArtist i) = Spotify"
| "provider_of (SpotifyAlbum i) = Spotify"
| "provider_of (LastFmSearch t a) = LastFm"
| "provider_of (LastFmInfo t a) = LastFm"
| "provider_of (MusicBrainzSearch t a) = MusicBrainz"
| "provider_of (MusicBrainzRecording i) = MusicBrainz"

definition only_spotify :: "call list \<Rightarrow> call list \<Rightarrow> bool" where
  \<comment> \<open>the trace \<open>tr'\<close> is \<open>tr\<close> followed by requests to Spotify only\<close>
  "only_spotify tr tr' \<longleftrightarrow> (\<exists>cs. tr' = tr @ cs \<and> list_all (\<lambda>c. provider_of c = Spotify) cs)"

definition yields_nothing :: "'a list reply \<Rightarrow> bool" where
  \<comment> \<open>a search that gives no candidate: a transport error, a response that is not 2xx, a
     body that does not parse, or an empty result\<close>
  "yields_nothing r =
     (case r of NetFail \<Rightarrow> True | Resp ok body \<Rightarrow> \<not> ok \<or> body = None \<or> body = Some [])"

definition auth_fails :: "token_json reply \<Rightarrow> bool" where
  \<comment> \<open>a token request that gives no token\<close>
  "auth_fails r =
     (case r of
        NetFail \<Rightarrow> True
      | Resp ok None \<Rightarrow> True
      | Resp ok (Some data) \<Rightarrow> \<not> truthy (access_token data))"

definition no_details :: "'a option reply \<Rightarrow> bool" where
  \<comment> \<open>a request for one object that gives none: a transport error, a response that is not
     2xx, a body that does not parse, or a body without the object\<close>
  "no_details r =
     (case r of NetFail \<Rightarrow> True | Resp ok body \<Rightarrow> \<not> ok \<or> body = None \<or> body = Some None)"

definition offered :: "env \<Rightarrow> spotify_track list \<Rightarrow> bool" where
  \<comment> \<open>the list is the result of some Spotify search\<close>
  "offered e items \<longleftrightarrow> (\<exists>tr q. search_reply e tr q = Resp True (Some items))"

definition same_track :: "spotify_track \<Rightarrow> spotify_track \<Rightarrow> bool" where
  \<comment> \<open>two tracks that differ in the genres of the first artist and of the album at most,
     which is what \<open>enrichTrackData\<close> writes\<close>
  "same_track t t' \<longleftrightarrow>
     t_id t' = t_id t \<and> t_name t' = t_name t \<and> t_duration_ms t' = t_duration_ms t
     \<and> t_popularity t' = t_popularity t
     \<and> map ar_name (t_artists t') = map ar_name (t_artists t)
     \<and> map ar_id (t_artists t') = map ar_id (t_artists t)
     \<and> al_id (t_album t') = al_id (t_album t) \<and> al_name (t_album t') = al_name (t_album t)
     \<and> al_release_date (t_album t') = al_release_date (t_album t)
     \<and> al_images (t_album t') = al_images (t_album t)"

section \<open>Example environments\<close>

definition example_track :: "string \<Rightarrow> string \<Rightarrow> number \<Rightarrow> spotify_track" where
  "example_track nm ar pop =
     \<lparr>t_id = ''t1'', t_name = nm,
      t_artists = [\<lparr>ar_id = ''a1'', ar_name = ar, ar_genres = None\<rparr>],
      t_album = \<lparr>al_id = ''b1'', al_name = ''An Album'', al_release_date = ''2016-06-01'',
                 al_images = [], al_genres = None\<rparr>,
      t_duration_ms = 2500, t_popularity = pop, t_genres = None\<rparr>"

definition env_down :: env where
  \<comment> \<open>no provider can be reached\<close>
  "env_down =
     \<lparr>now = (\<lambda>tr. 0),
      token_reply = (\<lambda>tr. NetFail),
      search_reply = (\<lambda>tr q. NetFail),
      artist_reply = (\<lambda>tr i. NetFail),
      album_reply = (\<lambda>tr i. NetFail),
      lastfm_search_reply = (\<lambda>tr t a. NetFail),
      lastfm_info_reply = (\<lambda>tr t a. NetFail),
      mb_search_reply = (\<lambda>tr t a. NetFail),
      mb_recording_reply = (\<lambda>tr i. NetFail)\<rparr>"

definition other_song :: lastfm_info where
  "other_song =
     \<lparr>li_name = Some ''Dreams'', li_artist_name = Some ''Packaday'', li_album_title = None,
      li_album_image = None, li_published = None, li_duration = Some ''215'',
      li_tags = Names [''pop'']\<rparr>"

definition env_lastfm :: env where
  \<comment> \<open>Spotify cannot be reached, Last.fm answers every request with another song\<close>
  "env_lastfm =
     env_down
       \<lparr>lastfm_search_reply := (\<lambda>tr t a. Resp True (Some [()])),
        lastfm_info_reply := (\<lambda>tr t a. Resp True (Some (Some other_song)))\<rparr>"

definition env_spotify :: "spotify_track list \<Rightarrow> env" where
  \<comment> \<open>Spotify answers every search with the same tracks, the other two providers are as
     in \<open>env_lastfm\<close>\<close>
  "env_spotify items =
     env_lastfm
       \<lparr>token_reply :=
          (\<lambda>tr. Resp True (Some \<lparr>access_token = Some ''token'', expires_in = Some 3600\<rparr>)),
        search_reply := (\<lambda>tr q. Resp True (Some items)),
        artist_reply := (\<lambda>tr i. Resp True (Some (Some [''rock'']))),
        album_reply := (\<lambda>tr i. Resp False None)\<rparr>"

definition other_recording :: mb_recording where
  "other_recording =
     \<lparr>mr_title = Some ''Dreams'', mr_artist_name = Some ''Packaday'', mr_artist_id = Some ''a9'',
      mr_release_title = None, mr_release_date = None, mr_release_id = None,
      mr_length = Some ''2500'', mr_genres = Absent\<rparr>"

definition env_musicbrainz :: env where
  \<comment> \<open>only MusicBrainz can be reached, and answers every request with another song\<close>
  "env_musicbrainz =
     env_down
       \<lparr>mb_search_reply := (\<lambda>tr t a. Resp True (Some [''r1''])),
        mb_recording_reply := (\<lambda>tr i. Resp True (Some (Some other_recording)))\<rparr>"

section \<open>The parser never throws\<close>

lemma catch_return_Inr: "\<exists>v s. catch_return d r = (Inr v, s)"
  by (cases r; cases "fst r") (auto simp: catch_return_def)

text \<open>
  Claim C10. The result of the primary provider does not depend on the album hint: two calls
  of \<open>enrichMetadata\<close> that differ in the album argument only make the same requests
  and return the same record. The album goes into the string \<open>searchQuery\<close> only, and
  \<open>searchSpotifyTrack\<close> does not read that argument.
\<close>

theorem album_hint_ignored:
  "enrichMetadata e this tr ttl art alb1 = enrichMetadata e this tr ttl art alb2
   \<and> searchSpotifyTrack e this tr query1 ttl a = searchSpotifyTrack e this tr query2 ttl a"
  by (simp add: enrichMetadata_def searchSpotifyTrack_def)

lemma run_dom:
  "(j, s', c') \<in> set (run ic r (i, s, c)) \<Longrightarrow> dom c \<union> sure_groups r \<subseteq> dom c'"
proof (induction r arbitrary: i s c j s' c')
  case (Atom a)
  then show ?case by (auto split: list.splits if_splits)
next
  case (Cat r1 r2)
  from Cat.prems obtain j1 s1 c1 where
    m1: "(j1, s1, c1) \<in> set (run ic r1 (i, s, c))" and
    m2: "(j, s', c') \<in> set (run ic r2 (j1, s1, c1))"
    by auto
  from Cat.IH(1)[OF m1] Cat.IH(2)[OF m2] show ?case by (simp add: subset_iff)
next
  case (Alt r1 r2)
  then show ?case by fastforce
next
  case (Opt r)
  then show ?case by fastforce
next
  case (Rep a n g)
  then show ?case by (auto simp: Let_def split: if_splits)
next
  case (Grp n r)
  from Grp.prems obtain c0 where
    m: "(j, s', c0) \<in> set (run ic r (i, s, c))" and c': "c' = c0(n \<mapsto> take (j - i) s)"
    by auto
  from Grp.IH[OF m] c' show ?case by auto
qed (auto split: if_splits)

lemma match_at_mem:
  "match_at ic r i s = Some m \<Longrightarrow> m \<in> set (run ic r (i, s, Map.empty))"
  by (auto simp: match_at_def split: list.splits)

lemma exec_mem:
  "exec ic r i s = Some m \<Longrightarrow> \<exists>i' s0. m \<in> set (run ic r (i', s0, Map.empty))"
proof (induction s arbitrary: i)
  case Nil
  then show ?case by (auto dest: match_at_mem)
next
  case (Cons x xs)
  then show ?case by (auto dest: match_at_mem split: option.splits)
qed

lemma js_match_groups:
  assumes "js_match ic r s = Some m" and "n \<in> sure_groups r"
  shows "\<exists>g. m n = Some g"
proof -
  from assms(1) obtain j s' where "exec ic r 0 s = Some (j, s', m)"
    by (auto simp: js_match_def)
  then obtain i' s0 where "(j, s', m) \<in> set (run ic r (i', s0, Map.empty))"
    using exec_mem by blast
  from run_dom[OF this] assms(2) show ?thesis by auto
qed

lemma sure_songYearArtist: "{1, 2, 3} \<subseteq> sure_groups songYearArtistPattern"
  by (simp add: songYearArtistPattern_def cat_def)

lemma sure_dash: "{1, 2} \<subseteq> sure_groups dashPattern"
  by (simp add: dashPattern_def cat_def)

lemma sure_songVideo: "{1, 2} \<subseteq> sure_groups songVideoPattern"
  by (simp add: songVideoPattern_def cat_def)

lemma sure_artistColon: "{1, 2} \<subseteq> sure_groups artistColonPattern"
  by (simp add: artistColonPattern_def cat_def)

lemma trim_group_defined: "m n = Some g \<Longrightarrow> trim_group m n = Inr (trim g)"
  by (simp add: trim_group_def group_def)

lemma songYearArtistRule_total: "\<exists>r. songYearArtistRule s = Inr r"
proof (cases "js_match False songYearArtistPattern s")
  case None
  then show ?thesis by (simp add: songYearArtistRule_def)
next
  case (Some m)
  from js_match_groups[OF Some] sure_songYearArtist
  obtain g1 g2 g3 where "m 1 = Some g1" "m 2 = Some g2" "m 3 = Some g3"
    by (metis insertCI subsetD)
  then show ?thesis using Some
    by (simp add: songYearArtistRule_def trim_group_defined)
qed

lemma dashRule_total: "\<exists>r. dashRule s = Inr r"
proof (cases "js_match False dashPattern s")
  case None
  then show ?thesis by (simp add: dashRule_def)
next
  case (Some m)
  from js_match_groups[OF Some] sure_dash
  obtain g1 g2 where g: "m 1 = Some g1" "m 2 = Some g2"
    by (metis insertCI subsetD)
  show ?thesis
  proof (cases "m 3")
    case None
    then show ?thesis using Some g
      by (simp add: dashRule_def trim_group_defined truthy_def group_def)
  next
    case (Some g3)
    then show ?thesis using \<open>js_match False dashPattern s = Some m\<close> g
      by (simp add: dashRule_def trim_group_defined truthy_def group_def)
  qed
qed

lemma songVideoRule_total: "\<exists>r. songVideoRule s = Inr r"
proof (cases "js_match False songVideoPattern s")
  case None
  then show ?thesis by (simp add: songVideoRule_def)
next
  case (Some m)
  from js_match_groups[OF Some] sure_songVideo
  obtain g1 g2 where "m 1 = Some g1" "m 2 = Some g2"
    by (metis insertCI subsetD)
  then show ?thesis using Some
    by (simp add: songVideoRule_def trim_group_defined)
qed

lemma artistColonRule_total: "\<exists>r. artistColonRule s = Inr r"
proof (cases "js_match False artistColonPattern s")
  case None
  then show ?thesis by (simp add: artistColonRule_def)
next
  case (Some m)
  from js_match_groups[OF Some] sure_artistColon
  obtain g1 g2 where "m 1 = Some g1" "m 2 = Some g2"
    by (metis insertCI subsetD)
  then show ?thesis using Some
    by (simp add: artistColonRule_def trim_group_defined)
qed

lemma first_rule_total:
  "\<forall>r \<in> set rs. \<exists>v. r s = Inr v \<Longrightarrow> \<exists>m. first_rule rs s = Inr m"
  by (induction rs) (auto split: sum.splits option.splits)

lemma extractBasicMetadata_total: "\<exists>m. extractBasicMetadata s = Inr m"
  unfolding extractBasicMetadata_def
  by (rule first_rule_total)
     (simp add: songYearArtistRule_total dashRule_total songVideoRule_total artistColonRule_total)

text \<open>
  Claim C4. The title parser never throws: it returns a record for every string, and the
  record is the fallback, the unknown artist and album with the trimmed string as title,
  when none of the four rules returns.
\<close>

theorem parse_total:
  "(\<exists>m. extractBasicMetadata s = Inr m)
   \<and> (songYearArtistRule s = Inr None \<and> dashRule s = Inr None
        \<and> songVideoRule s = Inr None \<and> artistColonRule s = Inr None
      \<longrightarrow> extractBasicMetadata s
            = Inr \<lparr>artist = ''Unknown Artist'', album = ''Unknown Album'', title = trim s\<rparr>)"
  using extractBasicMetadata_total[of s]
  by (auto simp: extractBasicMetadata_def fallback_def)

theorem parse_total_witness:
  "songYearArtistRule ''justsomeweirdtitle'' = Inr None
   \<and> dashRule ''justsomeweirdtitle'' = Inr None
   \<and> songVideoRule ''justsomeweirdtitle'' = Inr None
   \<and> artistColonRule ''justsomeweirdtitle'' = Inr None
   \<and> extractBasicMetadata ''justsomeweirdtitle''
       = Inr \<lparr>artist = ''Unknown Artist'', album = ''Unknown Album'',
              title = ''justsomeweirdtitle''\<rparr>"
proof -
  have h: "songYearArtistRule ''justsomeweirdtitle'' = Inr None
     \<and> dashRule ''justsomeweirdtitle'' = Inr None
     \<and> songVideoRule ''justsomeweirdtitle'' = Inr None
     \<and> artistColonRule ''justsomeweirdtitle'' = Inr None"
    by code_simp
  have t: "trim ''justsomeweirdtitle'' = ''justsomeweirdtitle''"
    by code_simp
  from parse_total[of "''justsomeweirdtitle''"] h t show ?thesis by simp
qed

section \<open>Numbers: rounding is monotone\<close>

lemma pow2_floor_pos: "0 < b \<Longrightarrow> 0 < pow2_floor n b x"
  by (induction n arbitrary: b) auto

lemma ulp_pos: "0 < ulp x"
  by (simp add: ulp_def pow2_floor_pos)

lemma round_even_cases: "round_even q = \<lfloor>q\<rfloor> \<or> round_even q = \<lfloor>q\<rfloor> + 1"
  by (simp add: round_even_def Let_def)

lemma round_even_le: "q \<le> of_int n \<Longrightarrow> round_even q \<le> n"
proof -
  assume h: "q \<le> of_int n"
  then have f: "\<lfloor>q\<rfloor> \<le> n" by (simp add: floor_le_iff)
  show ?thesis
  proof (cases "\<lfloor>q\<rfloor> = n")
    case True
    then have "q = of_int n" using h by (metis of_int_floor_le order_antisym)
    then show ?thesis by (simp add: round_even_def)
  next
    case False
    then show ?thesis using f round_even_cases[of q] by linarith
  qed
qed

lemma round_even_ge: "of_int n \<le> q \<Longrightarrow> n \<le> round_even q"
proof -
  assume "of_int n \<le> q"
  then have "n \<le> \<lfloor>q\<rfloor>" by (simp add: le_floor_iff)
  then show ?thesis using round_even_cases[of q] by linarith
qed

lemma round_even_mono: "p \<le> q \<Longrightarrow> round_even p \<le> round_even q"
proof -
  assume h: "p \<le> q"
  then have f: "\<lfloor>p\<rfloor> \<le> \<lfloor>q\<rfloor>" by (rule floor_mono)
  show ?thesis
  proof (cases "\<lfloor>p\<rfloor> = \<lfloor>q\<rfloor>")
    case True
    then show ?thesis using h by (auto simp: round_even_def Let_def)
  next
    case False
    then show ?thesis using f round_even_cases[of p] round_even_cases[of q] by linarith
  qed
qed

lemma to_double_nonneg: "0 \<le> x \<Longrightarrow> 0 \<le> to_double x"
proof -
  assume "0 \<le> x"
  then have "(0::rat) \<le> x / ulp x" using ulp_pos[of x] by simp
  then have "0 \<le> round_even (x / ulp x)" using round_even_ge[of 0] by simp
  then show ?thesis using ulp_pos[of x] by (simp add: to_double_def)
qed

lemma pow2_floor_upper: "0 < b \<Longrightarrow> x < 2 * b \<Longrightarrow> pow2_floor n b x \<le> b"
proof (induction n arbitrary: b)
  case 0
  then show ?case by simp
next
  case (Suc n)
  show ?case
  proof (cases "x < b")
    case True
    have "pow2_floor n (b / 2) x \<le> b / 2" using Suc.prems True by (intro Suc.IH) auto
    then show ?thesis using True Suc.prems by simp
  next
    case False
    then show ?thesis using Suc.prems by simp
  qed
qed

lemma pow2_floor_lower: "0 < b \<Longrightarrow> b \<le> x \<Longrightarrow> b \<le> pow2_floor n b x"
proof (induction n arbitrary: b)
  case 0
  then show ?case by simp
next
  case (Suc n)
  show ?case
  proof (cases "2 * b \<le> x")
    case True
    have "2 * b \<le> pow2_floor n (2 * b) x" using Suc.prems True by (intro Suc.IH) auto
    then show ?thesis using True Suc.prems by simp
  next
    case False
    then show ?thesis using Suc.prems by simp
  qed
qed

lemma pow2_ge1: "(1::rat) \<le> 2 ^ n"
  by (rule one_le_power) simp

lemma pow2_floor_char:
  "0 < b \<Longrightarrow>
   (pow2_floor n b x \<le> x \<and> x < 2 * pow2_floor n b x)
   \<or> (x < pow2_floor n b x \<and> pow2_floor n b x = b / 2 ^ n)
   \<or> (2 * pow2_floor n b x \<le> x \<and> pow2_floor n b x = b * 2 ^ n)"
proof (induction n arbitrary: b)
  case 0
  then show ?case by auto
next
  case (Suc n)
  have p: "(1::rat) \<le> 2 ^ n" by (rule pow2_ge1)
  consider "x < b" | "b \<le> x" "x < 2 * b" | "2 * b \<le> x" by linarith
  then show ?case
  proof cases
    case 1
    define r where "r = pow2_floor n (b / 2) x"
    have r: "pow2_floor (Suc n) b x = r" using 1 by (simp add: r_def)
    have ih: "(r \<le> x \<and> x < 2 * r) \<or> (x < r \<and> r = b / 2 / 2 ^ n) \<or> (2 * r \<le> x \<and> r = b / 2 * 2 ^ n)"
      unfolding r_def using Suc.prems by (intro Suc.IH) simp
    have no: "\<not> (2 * r \<le> x \<and> r = b / 2 * 2 ^ n)"
    proof
      assume a: "2 * r \<le> x \<and> r = b / 2 * 2 ^ n"
      then have "2 * r = b * 2 ^ n" by simp
      moreover have "b * 1 \<le> b * 2 ^ n" using p Suc.prems by (intro mult_left_mono) auto
      ultimately show False using a 1 by linarith
    qed
    show ?thesis unfolding r using ih no by (auto simp: field_simps)
  next
    case 2
    then show ?thesis by simp
  next
    case 3
    define r where "r = pow2_floor n (2 * b) x"
    have nb: "\<not> x < b" using 3 Suc.prems by linarith
    have r: "pow2_floor (Suc n) b x = r" using 3 nb by (simp add: r_def)
    have ih: "(r \<le> x \<and> x < 2 * r) \<or> (x < r \<and> r = 2 * b / 2 ^ n) \<or> (2 * r \<le> x \<and> r = 2 * b * 2 ^ n)"
      unfolding r_def using Suc.prems by (intro Suc.IH) simp
    have no: "\<not> (x < r \<and> r = 2 * b / 2 ^ n)"
    proof
      assume a: "x < r \<and> r = 2 * b / 2 ^ n"
      have "2 * b / 2 ^ n \<le> 2 * b / 1" using p Suc.prems by (intro divide_left_mono) auto
      then show False using a 3 by simp
    qed
    show ?thesis unfolding r using ih no by (auto simp: field_simps)
  qed
qed

lemma pow2_floor_form:
  "\<exists>k\<le>n. pow2_floor n b x = b * 2 ^ k \<or> pow2_floor n b x = b / 2 ^ k"
proof (induction n arbitrary: b)
  case 0
  then show ?case by simp
next
  case (Suc n)
  consider "x < b" | "\<not> x < b" "2 * b \<le> x" | "\<not> x < b" "\<not> 2 * b \<le> x" by blast
  then show ?case
  proof cases
    case 1
    from Suc.IH[of "b / 2"] obtain k where k: "k \<le> n"
      "pow2_floor n (b / 2) x = b / 2 * 2 ^ k \<or> pow2_floor n (b / 2) x = b / 2 / 2 ^ k" by blast
    from k(2) show ?thesis
    proof
      assume a: "pow2_floor n (b / 2) x = b / 2 * 2 ^ k"
      show ?thesis
      proof (cases k)
        case 0
        then have "pow2_floor (Suc n) b x = b / 2 ^ 1" using a 1 by simp
        then show ?thesis by (metis Suc_leI zero_less_Suc One_nat_def)
      next
        case (Suc j)
        then have "pow2_floor (Suc n) b x = b * 2 ^ j" using a 1 by simp
        moreover have "j \<le> Suc n" using Suc k(1) by simp
        ultimately show ?thesis by blast
      qed
    next
      assume a: "pow2_floor n (b / 2) x = b / 2 / 2 ^ k"
      then have "pow2_floor (Suc n) b x = b / 2 ^ Suc k" using 1 by simp
      moreover have "Suc k \<le> Suc n" using k(1) by simp
      ultimately show ?thesis by blast
    qed
  next
    case 2
    from Suc.IH[of "2 * b"] obtain k where k: "k \<le> n"
      "pow2_floor n (2 * b) x = 2 * b * 2 ^ k \<or> pow2_floor n (2 * b) x = 2 * b / 2 ^ k" by blast
    from k(2) show ?thesis
    proof
      assume a: "pow2_floor n (2 * b) x = 2 * b * 2 ^ k"
      then have "pow2_floor (Suc n) b x = b * 2 ^ Suc k" using 2 by simp
      moreover have "Suc k \<le> Suc n" using k(1) by simp
      ultimately show ?thesis by blast
    next
      assume a: "pow2_floor n (2 * b) x = 2 * b / 2 ^ k"
      show ?thesis
      proof (cases k)
        case 0
        then have "pow2_floor (Suc n) b x = b * 2 ^ 1" using a 2 by simp
        then show ?thesis by (metis Suc_leI zero_less_Suc One_nat_def)
      next
        case (Suc j)
        then have "pow2_floor (Suc n) b x = b / 2 ^ j" using a 2 by simp
        moreover have "j \<le> Suc n" using Suc k(1) by simp
        ultimately show ?thesis by blast
      qed
    qed
  next
    case 3
    then have "pow2_floor (Suc n) b x = b * 2 ^ 0" by simp
    then show ?thesis by blast
  qed
qed

lemma pow2_forms_gap:
  assumes "a = 2 ^ i \<or> a = 1 / 2 ^ i" and "c = 2 ^ j \<or> c = 1 / 2 ^ j" and "a < (c::rat)"
  shows "2 * a \<le> c"
proof -
  have pi: "(1::rat) \<le> 2 ^ i" and pj: "(1::rat) \<le> 2 ^ j" by (rule pow2_ge1)+
  have qi: "1 / 2 ^ i \<le> (1::rat)" and qj: "1 / 2 ^ j \<le> (1::rat)" by simp_all
  consider (pp) "a = 2 ^ i" "c = 2 ^ j" | (pn) "a = 2 ^ i" "c = 1 / 2 ^ j"
    | (np) "a = 1 / 2 ^ i" "c = 2 ^ j" | (nn) "a = 1 / 2 ^ i" "c = 1 / 2 ^ j"
    using assms(1,2) by blast
  then show ?thesis
  proof cases
    case pp
    then have "i < j" using assms(3) by simp
    then have "(2::rat) ^ Suc i \<le> 2 ^ j" by (intro power_increasing) auto
    then show ?thesis using pp by simp
  next
    case pn
    then show ?thesis using assms(3) pi qj by linarith
  next
    case np
    show ?thesis
    proof (cases i)
      case 0
      then have "(1::rat) < 2 ^ j" using np assms(3) by simp
      then have "j \<noteq> 0" by (cases j) auto
      then obtain j' where "j = Suc j'" by (cases j) auto
      then have "(2::rat) \<le> 2 ^ j" using pow2_ge1[of j'] by simp
      then show ?thesis using np 0 by simp
    next
      case (Suc i')
      then have "2 * a = 1 / 2 ^ i'" using np by simp
      then have "2 * a \<le> 1" by simp
      then show ?thesis using np pj by linarith
    qed
  next
    case nn
    have ji: "j < i"
    proof (rule ccontr)
      assume "\<not> j < i"
      then have "(2::rat) ^ i \<le> 2 ^ j" by (intro power_increasing) auto
      then have "1 / (2::rat) ^ j \<le> 1 / 2 ^ i" by (intro divide_left_mono) auto
      then show False using nn assms(3) by simp
    qed
    then obtain i' where i': "i = Suc i'" by (cases i) auto
    then have "j \<le> i'" using ji by simp
    then have "(2::rat) ^ j \<le> 2 ^ i'" by (intro power_increasing) auto
    then have "1 / (2::rat) ^ i' \<le> 1 / 2 ^ j" by (intro divide_left_mono) auto
    moreover have "2 * a = 1 / 2 ^ i'" using nn i' by simp
    ultimately show ?thesis using nn by simp
  qed
qed

lemma round_grid_mono:
  fixes x y :: rat
  assumes "0 \<le> x" and "x \<le> y"
  shows "of_int (round_even (x / (pow2_floor n 1 x / 2 ^ p))) * (pow2_floor n 1 x / 2 ^ p)
         \<le> of_int (round_even (y / (pow2_floor n 1 y / 2 ^ p))) * (pow2_floor n 1 y / 2 ^ p)"
proof -
  define bx where "bx = pow2_floor n 1 x"
  define bz where "bz = pow2_floor n 1 y"
  define P :: rat where "P = 2 ^ p"
  have P: "0 < P" by (simp add: P_def)
  have bx: "0 < bx" and bz: "0 < bz" by (simp_all add: bx_def bz_def pow2_floor_pos)
  define lo :: rat where "lo = 1 / 2 ^ n"
  define hi :: rat where "hi = 2 ^ n"
  have cx: "(bx \<le> x \<and> x < 2 * bx) \<or> (x < bx \<and> bx = lo) \<or> (2 * bx \<le> x \<and> bx = hi)"
    using pow2_floor_char[of 1 n x] by (simp add: bx_def lo_def hi_def)
  have cz: "(bz \<le> y \<and> y < 2 * bz) \<or> (y < bz \<and> bz = lo) \<or> (2 * bz \<le> y \<and> bz = hi)"
    using pow2_floor_char[of 1 n y] by (simp add: bz_def lo_def hi_def)
  obtain i where i: "i \<le> n" "bx = 2 ^ i \<or> bx = 1 / 2 ^ i"
    using pow2_floor_form[of n 1 x] by (auto simp: bx_def)
  obtain j where j: "j \<le> n" "bz = 2 ^ j \<or> bz = 1 / 2 ^ j"
    using pow2_floor_form[of n 1 y] by (auto simp: bz_def)
  have range: "\<And>b k. k \<le> n \<Longrightarrow> b = 2 ^ k \<or> b = 1 / 2 ^ k \<Longrightarrow> lo \<le> (b::rat) \<and> b \<le> hi"
  proof -
    fix b :: rat and k assume k: "k \<le> n" and b: "b = 2 ^ k \<or> b = 1 / 2 ^ k"
    have a1: "(2::rat) ^ k \<le> 2 ^ n" using k by (intro power_increasing) auto
    have a2: "1 / (2::rat) ^ n \<le> 1 / 2 ^ k" using a1 by (intro divide_left_mono) auto
    have a3: "(1::rat) \<le> 2 ^ k" "(1::rat) \<le> 2 ^ n" by (rule pow2_ge1)+
    have a4: "1 / (2::rat) ^ k \<le> 1" "1 / (2::rat) ^ n \<le> 1" by simp_all
    from b show "lo \<le> b \<and> b \<le> hi"
    proof
      assume "b = 2 ^ k"
      then show ?thesis using order_trans[OF a4(2) a3(1)] a1 by (simp add: lo_def hi_def)
    next
      assume "b = 1 / 2 ^ k"
      then show ?thesis using order_trans[OF a4(1) a3(2)] a2 by (simp add: lo_def hi_def)
    qed
  qed
  have rx: "lo \<le> bx \<and> bx \<le> hi" using range[OF i] .
  have rz: "lo \<le> bz \<and> bz \<le> hi" using range[OF j] .
  have below: "\<And>b v. 0 < b \<Longrightarrow> (b \<le> v \<and> v < 2 * b) \<or> (v < b \<and> b = lo) \<or> (2 * b \<le> v \<and> b = hi)
      \<Longrightarrow> b < hi \<Longrightarrow> v < 2 * (b::rat)"
    by (elim disjE conjE) linarith+
  have above: "\<And>b v. (b \<le> v \<and> v < 2 * b) \<or> (v < b \<and> b = lo) \<or> (2 * b \<le> v \<and> b = hi)
      \<Longrightarrow> lo < b \<Longrightarrow> 0 < b \<Longrightarrow> (b::rat) \<le> v"
    by (elim disjE conjE) linarith+
  have mono: "bx \<le> bz"
  proof (rule ccontr)
    assume "\<not> bx \<le> bz"
    then have lt: "bz < bx" by simp
    have gap: "2 * bz \<le> bx" using pow2_forms_gap[OF j(2) i(2) lt] .
    have "bz < hi" using lt rx by linarith
    then have "y < 2 * bz" using below[OF bz cz] by simp
    moreover have "lo < bx" using lt rz by linarith
    then have "bx \<le> x" using above[OF cx _ bx] by simp
    ultimately show False using gap assms by linarith
  qed
  have ux: "0 < bx / P" and uz: "0 < bz / P" using bx bz P by simp_all
  show ?thesis
  proof (cases "bx = bz")
    case True
    have "x / (bx / P) \<le> y / (bx / P)" using assms ux by (intro divide_right_mono) auto
    then have "round_even (x / (bx / P)) \<le> round_even (y / (bx / P))" by (rule round_even_mono)
    then have "of_int (round_even (x / (bx / P))) * (bx / P) \<le> of_int (round_even (y / (bx / P))) * (bx / P)"
      using ux by (intro mult_right_mono) auto
    then show ?thesis using True by (simp add: bx_def bz_def P_def)
  next
    case False
    then have lt: "bx < bz" using mono by simp
    have gap: "2 * bx \<le> bz" using pow2_forms_gap[OF i(2) j(2) lt] .
    have "bx < hi" using lt rz by linarith
    then have xlt: "x \<le> 2 * bx" using below[OF bx cx] by simp
    have "lo < bz" using lt rx by linarith
    then have zle: "bz \<le> y" using above[OF cz _ bz] by simp
    have "x / (bx / P) \<le> of_int (2 * 2 ^ p)"
    proof -
      have "x / (bx / P) \<le> (2 * bx) / (bx / P)" using xlt ux by (intro divide_right_mono) auto
      also have "\<dots> = 2 * P" using bx P by simp
      finally show ?thesis by (simp add: P_def)
    qed
    then have "round_even (x / (bx / P)) \<le> 2 * 2 ^ p" by (rule round_even_le)
    then have "(of_int (round_even (x / (bx / P))) :: rat) \<le> of_int (2 * 2 ^ p)" by (simp only: of_int_le_iff)
    then have "of_int (round_even (x / (bx / P))) * (bx / P) \<le> of_int (2 * 2 ^ p) * (bx / P)"
      using ux by (intro mult_right_mono) auto
    also have "of_int (2 * 2 ^ p) * (bx / P) = 2 * bx" using P by (simp add: P_def)
    finally have left: "of_int (round_even (x / (bx / P))) * (bx / P) \<le> 2 * bx" .
    have "of_int (2 ^ p) \<le> y / (bz / P)"
    proof -
      have "bz / (bz / P) \<le> y / (bz / P)" using zle uz by (intro divide_right_mono) auto
      moreover have "bz / (bz / P) = P" using bz P by simp
      ultimately show ?thesis by (simp add: P_def)
    qed
    then have "2 ^ p \<le> round_even (y / (bz / P))" by (rule round_even_ge)
    then have "(of_int (2 ^ p) :: rat) \<le> of_int (round_even (y / (bz / P)))" by (simp only: of_int_le_iff)
    then have "of_int (2 ^ p) * (bz / P) \<le> of_int (round_even (y / (bz / P))) * (bz / P)"
      using uz by (intro mult_right_mono) auto
    moreover have "of_int (2 ^ p) * (bz / P) = bz" using P by (simp add: P_def)
    ultimately have right: "bz \<le> of_int (round_even (y / (bz / P))) * (bz / P)" by simp
    show ?thesis using left right gap by (simp add: bx_def bz_def P_def)
  qed
qed

lemma to_double_mono: "0 \<le> x \<Longrightarrow> x \<le> y \<Longrightarrow> to_double x \<le> to_double y"
  using round_grid_mono[of x y 1022 52] by (simp add: to_double_def ulp_def)

lemma to_double_1: "to_double 1 = 1"
  by code_simp

lemma to_double_idem3: "to_double (to_double (3 / 10)) = to_double (3 / 10)"
  by code_simp

lemma to_double_code [code]:
  "to_double x = (if x = 0 then 0 else of_int (round_even (x / ulp x)) * ulp x)"
  by (simp add: to_double_def round_even_def)

section \<open>The scorer\<close>

lemma split_loop_nonempty: "split_loop ic r cur i s \<noteq> []"
proof (induction ic r cur i s rule: split_loop.induct)
  case (1 ic r cur i s)
  show ?case
  proof (cases s)
    case Nil
    then show ?thesis by (subst split_loop.simps) simp
  next
    case (Cons x xs)
    show ?thesis
    proof (cases "match_at ic r i s")
      case None
      then show ?thesis using 1(1)[OF Cons None] Cons by (subst split_loop.simps) simp
    next
      case (Some m)
      obtain j s' c where m: "m = (j, s', c)" by (cases m) auto
      show ?thesis
      proof (cases "length s' < length s")
        case True
        then show ?thesis using Some m Cons by (subst split_loop.simps) simp
      next
        case False
        then show ?thesis using Some m Cons 1(3)[OF Cons Some m[symmetric] refl False]
          by (subst split_loop.simps) simp
      qed
    qed
  qed
qed

lemma js_split_nonempty: "js_split r s \<noteq> []"
  by (simp add: js_split_def split_loop_nonempty)

lemma d03_idem: "to_double (to_double (3 / 10)) = to_double (3 / 10)"
  by code_simp

lemma titleScore_bounds:
  "\<exists>t. titleScore a b = Some t \<and> 0 \<le> t \<and> t \<le> to_double (6 / 10)"
proof -
  have d6: "0 \<le> to_double (6 / 10)" by (rule to_double_nonneg) simp
  have d46: "to_double (4 / 10) \<le> to_double (6 / 10)" by (rule to_double_mono) simp_all
  have d4: "0 \<le> to_double (4 / 10)" by (rule to_double_nonneg) simp
  have d3: "0 \<le> to_double (3 / 10)" by (rule to_double_nonneg) simp
  have d36: "to_double (3 / 10) \<le> to_double (6 / 10)" by (rule to_double_mono) simp_all
  define ow where "ow = js_split spacesPattern (toLowerCase a)"
  define sw where "sw = js_split spacesPattern (toLowerCase b)"
  define c where "c = length (filter (\<lambda>word. word \<in> set sw) ow)"
  define m where "m = max (length ow) (length sw)"
  have "0 < length ow" using js_split_nonempty[of spacesPattern "toLowerCase a"]
    by (simp add: ow_def)
  then have m: "0 < m" by (simp add: m_def less_max_iff_disj)
  have cm: "c \<le> m" by (simp add: c_def m_def le_max_iff_disj)
  define q :: rat where "q = of_nat c / of_nat m"
  have q0: "0 \<le> q" by (simp add: q_def)
  have q1: "q \<le> 1" using m cm by (simp add: q_def)
  define ws where "ws = to_double q"
  have ws0: "0 \<le> ws" unfolding ws_def using q0 by (rule to_double_nonneg)
  have ws1: "ws \<le> 1" unfolding ws_def using to_double_mono[OF q0 q1] by (simp add: to_double_1)
  have p0: "0 \<le> ws * to_double (3 / 10)" using ws0 d3 by simp
  have p1: "ws * to_double (3 / 10) \<le> to_double (3 / 10)"
    using ws1 d3 mult_right_mono[of ws 1 "to_double (3 / 10)"] by simp
  have f0: "0 \<le> fmul ws (to_double (3 / 10))" unfolding fmul_def using p0 by (rule to_double_nonneg)
  have f1: "fmul ws (to_double (3 / 10)) \<le> to_double (6 / 10)"
    unfolding fmul_def using to_double_mono[OF p0 p1] d36 by (simp add: d03_idem)
  have third: "titleScore a b = Some (fmul ws (to_double (3 / 10)))"
    if "a \<noteq> b" "\<not> (js_includes b a \<or> js_includes a b)"
    using that js_split_nonempty[of spacesPattern "toLowerCase a"]
    by (simp add: titleScore_def Let_def fdiv_def ws_def q_def c_def m_def ow_def sw_def)
  show ?thesis
  proof (cases "a = b")
    case True
    then show ?thesis using d6 by (simp add: titleScore_def)
  next
    case False
    show ?thesis
    proof (cases "js_includes b a \<or> js_includes a b")
      case True
      then have "titleScore a b = Some (to_double (4 / 10))"
        using False by (auto simp: titleScore_def)
      then show ?thesis using d4 d46 by blast
    next
      case inc: False
      show ?thesis using third[OF False inc] f0 f1 by blast
    qed
  qed
qed

lemma artistScore_values:
  "artistScore track oa \<in> {None, Some (to_double (2 / 10)), Some (to_double (3 / 10))}"
  by (simp add: artistScore_def split: option.splits)

lemma artistScore_nonneg: "artistScore track oa = Some w \<Longrightarrow> 0 \<le> w"
  using artistScore_values[of track oa] to_double_nonneg[of "2 / 10"] to_double_nonneg[of "3 / 10"]
  by auto

lemma fadd_nonneg: "0 \<le> x \<Longrightarrow> 0 \<le> y \<Longrightarrow> 0 \<le> fadd x y"
  by (simp add: fadd_def to_double_nonneg)

lemma score_defined:
  "\<exists>s. calculateSimilarityScore track ot oa = Some s \<and> 0 \<le> s \<and> s \<le> 1"
proof -
  obtain t where t: "titleScore (cleanTitleForComparison ot) (cleanTitleForComparison (t_name track)) = Some t"
    "0 \<le> t" using titleScore_bounds by blast
  define s1 where "s1 = fadd 0 t"
  have s1: "0 \<le> s1" unfolding s1_def using t(2) by (intro fadd_nonneg) simp_all
  define s2 where "s2 = (case artistScore track oa of None \<Rightarrow> s1 | Some w \<Rightarrow> fadd s1 w)"
  have s2: "0 \<le> s2" unfolding s2_def using s1 artistScore_nonneg[of track oa]
    by (auto split: option.splits intro: fadd_nonneg)
  define s3 where "s3 = (if 50 < t_popularity track then fadd s2 (to_double (1 / 10)) else s2)"
  have s3: "0 \<le> s3" unfolding s3_def using s2 to_double_nonneg[of "1 / 10"]
    by (auto intro: fadd_nonneg)
  have "calculateSimilarityScore track ot oa = Some (min s3 1)"
    unfolding calculateSimilarityScore_def Let_def
    using t(1) by (simp add: num_add_def math_min_def s1_def s2_def s3_def split: option.splits)
  then show ?thesis using s3 by simp
qed

lemma score_sum:
  assumes "titleScore (cleanTitleForComparison ot) (cleanTitleForComparison (t_name track)) = Some t"
  shows "calculateSimilarityScore track ot oa
         = Some (min (let s1 = fadd 0 t;
                          s2 = (case artistScore track oa of None \<Rightarrow> s1 | Some w \<Rightarrow> fadd s1 w)
                      in if 50 < t_popularity track then fadd s2 (to_double (1 / 10)) else s2) 1)"
  unfolding calculateSimilarityScore_def Let_def
  using assms by (simp add: num_add_def math_min_def split: option.splits)

text \<open>
  Claim C6. The similarity score is a function of the candidate and the guess and is never
  \<open>NaN\<close>. It is the sum, cut at 1, of what the title adds (\<open>t\<close>, between 0 and 0.6), what
  the artist adds (0.2 or 0.3, when it adds anything) and the bonus 0.1 that is added
  exactly when the popularity of the candidate is above 50; no addend is negative, the sum
  \<open>s\<close> is not negative, and the score \<open>min s 1\<close> lies between 0 and 1.
\<close>

theorem score_in_unit_interval:
  "\<exists>t s. titleScore (cleanTitleForComparison ot) (cleanTitleForComparison (t_name track)) = Some t
      \<and> 0 \<le> t \<and> t \<le> to_double (6 / 10)
      \<and> artistScore track oa \<in> {None, Some (to_double (2 / 10)), Some (to_double (3 / 10))}
      \<and> 0 \<le> to_double (2 / 10) \<and> to_double (2 / 10) \<le> to_double (3 / 10)
      \<and> 0 \<le> to_double (1 / 10)
      \<and> s = (let s1 = fadd 0 t;
                  s2 = (case artistScore track oa of None \<Rightarrow> s1 | Some w \<Rightarrow> fadd s1 w)
              in if 50 < t_popularity track then fadd s2 (to_double (1 / 10)) else s2)
      \<and> 0 \<le> s
      \<and> calculateSimilarityScore track ot oa = Some (min s 1)
      \<and> 0 \<le> min s 1 \<and> min s 1 \<le> 1"
proof -
  have a: "0 \<le> to_double (2 / 10)" by (rule to_double_nonneg) simp
  have b: "to_double (2 / 10) \<le> to_double (3 / 10)" by (rule to_double_mono) simp_all
  have c: "0 \<le> to_double (1 / 10)" by (rule to_double_nonneg) simp
  obtain t where t: "titleScore (cleanTitleForComparison ot) (cleanTitleForComparison (t_name track)) = Some t"
    "0 \<le> t" "t \<le> to_double (6 / 10)" using titleScore_bounds by blast
  define s1 where "s1 = fadd 0 t"
  have s1: "0 \<le> s1" unfolding s1_def using t(2) by (intro fadd_nonneg) simp_all
  define s2 where "s2 = (case artistScore track oa of None \<Rightarrow> s1 | Some w \<Rightarrow> fadd s1 w)"
  have s2: "0 \<le> s2" unfolding s2_def using s1 artistScore_nonneg[of track oa]
    by (auto split: option.splits intro: fadd_nonneg)
  define s where "s = (if 50 < t_popularity track then fadd s2 (to_double (1 / 10)) else s2)"
  have s: "0 \<le> s" unfolding s_def using s2 c by (auto intro: fadd_nonneg)
  have e: "s = (let s1 = fadd 0 t;
                  s2 = (case artistScore track oa of None \<Rightarrow> s1 | Some w \<Rightarrow> fadd s1 w)
              in if 50 < t_popularity track then fadd s2 (to_double (1 / 10)) else s2)"
    unfolding s_def s2_def s1_def Let_def by (rule refl)
  have sc: "calculateSimilarityScore track ot oa = Some (min s 1)"
    using score_sum[OF t(1), of oa] e by simp
  have r: "0 \<le> min s 1" "min s 1 \<le> 1" using s by simp_all
  show ?thesis using t a b c e s sc r artistScore_values[of track oa] by blast
qed

section \<open>The requests of the primary provider\<close>

lemma only_spotify_refl: "only_spotify tr tr"
  by (simp add: only_spotify_def)

lemma only_spotify_trans: "only_spotify a b \<Longrightarrow> only_spotify b c \<Longrightarrow> only_spotify a c"
  by (auto simp: only_spotify_def)

lemma only_spotify_step: "provider_of c = Spotify \<Longrightarrow> only_spotify tr (tr @ [c])"
  by (simp add: only_spotify_def)

lemma getAccessToken_trace:
  "getAccessToken e this tr = (r, this', tr') \<Longrightarrow> only_spotify tr tr'"
  by (auto simp: getAccessToken_def fetchToken_def Let_def only_spotify_refl only_spotify_step
           split: if_splits reply.splits option.splits)

lemma artistStep_trace: "artistStep e tr t = (r, t', tr') \<Longrightarrow> only_spotify tr tr'"
  by (auto simp: artistStep_def Let_def only_spotify_refl only_spotify_step
           split: list.splits if_splits reply.splits option.splits)

lemma albumStep_trace: "albumStep e tr t = (r, t', tr') \<Longrightarrow> only_spotify tr tr'"
  by (auto simp: albumStep_def Let_def only_spotify_refl only_spotify_step
           split: list.splits if_splits reply.splits option.splits)

lemma enrichTrackData_trace:
  assumes "enrichTrackData e this tr t = (r, this', tr')"
  shows "only_spotify tr tr'"
proof -
  obtain r1 this1 tr1 where g: "getAccessToken e this tr = (r1, this1, tr1)"
    by (cases "getAccessToken e this tr") auto
  note s1 = getAccessToken_trace[OF g]
  show ?thesis
  proof (cases r1)
    case (Inl err)
    then show ?thesis using assms g s1 by (simp add: enrichTrackData_def)
  next
    case (Inr token)
    obtain x t1 tr2 where a: "artistStep e tr1 t = (x, t1, tr2)"
      by (cases "artistStep e tr1 t") auto
    note s2 = only_spotify_trans[OF s1 artistStep_trace[OF a]]
    show ?thesis
    proof (cases x)
      case (Some err)
      then show ?thesis using assms g Inr a s2 by (simp add: enrichTrackData_def)
    next
      case None
      obtain y t2 tr3 where b: "albumStep e tr2 t1 = (y, t2, tr3)"
        by (cases "albumStep e tr2 t1") auto
      note s3 = only_spotify_trans[OF s2 albumStep_trace[OF b]]
      show ?thesis using assms g Inr a None b s3 by (simp add: enrichTrackData_def)
    qed
  qed
qed

lemma searchLoop_NetFail:
  "search_reply e tr q = NetFail \<Longrightarrow>
   searchLoop e this tr (q # qs) ot oa = (Inl NetworkError, this, tr @ [SpotifySearch q])"
  by (simp add: Let_def)

lemma searchLoop_not_ok:
  "search_reply e tr q = Resp False body \<Longrightarrow>
   searchLoop e this tr (q # qs) ot oa = searchLoop e this (tr @ [SpotifySearch q]) qs ot oa"
  by (simp add: Let_def)

lemma searchLoop_bad_json:
  "search_reply e tr q = Resp True None \<Longrightarrow>
   searchLoop e this tr (q # qs) ot oa = (Inl SyntaxError, this, tr @ [SpotifySearch q])"
  by (simp add: Let_def)

lemma searchLoop_empty:
  "search_reply e tr q = Resp True (Some []) \<Longrightarrow>
   searchLoop e this tr (q # qs) ot oa = searchLoop e this (tr @ [SpotifySearch q]) qs ot oa"
  by (simp add: Let_def)

lemma searchLoop_no_best:
  "search_reply e tr q = Resp True (Some items) \<Longrightarrow>
   findBestMatch items ot (Some oa) = None \<Longrightarrow>
   searchLoop e this tr (q # qs) ot oa = searchLoop e this (tr @ [SpotifySearch q]) qs ot oa"
  by (simp add: Let_def)

lemma searchLoop_low:
  "search_reply e tr q = Resp True (Some items) \<Longrightarrow>
   findBestMatch items ot (Some oa) = Some (track, score) \<Longrightarrow>
   \<not> num_gt score (Some threshold) \<Longrightarrow>
   searchLoop e this tr (q # qs) ot oa = searchLoop e this (tr @ [SpotifySearch q]) qs ot oa"
  by (simp add: Let_def)

lemma searchLoop_accept:
  "search_reply e tr q = Resp True (Some items) \<Longrightarrow> items \<noteq> [] \<Longrightarrow>
   findBestMatch items ot (Some oa) = Some (track, score) \<Longrightarrow>
   num_gt score (Some threshold) \<Longrightarrow>
   enrichTrackData e this (tr @ [SpotifySearch q]) track = (Inr t', this1, tr1) \<Longrightarrow>
   searchLoop e this tr (q # qs) ot oa = (Inr (Some t'), this1, tr1)"
  by (simp add: Let_def)

lemma enrichTrackData_Inr:
  "\<exists>t' this1 tr1. enrichTrackData e this tr t = (Inr t', this1, tr1)"
  by (simp add: enrichTrackData_def split: prod.splits sum.splits option.splits)

lemma searchLoop_cases:
  obtains
    (stop) err where "searchLoop e this tr (q # qs) ot oa = (Inl err, this, tr @ [SpotifySearch q])"
  | (continue) "searchLoop e this tr (q # qs) ot oa
                  = searchLoop e this (tr @ [SpotifySearch q]) qs ot oa"
  | (accept) items track score t' this1 tr1 where
      "search_reply e tr q = Resp True (Some items)" "items \<noteq> []"
      "findBestMatch items ot (Some oa) = Some (track, score)"
      "num_gt score (Some threshold)"
      "enrichTrackData e this (tr @ [SpotifySearch q]) track = (Inr t', this1, tr1)"
      "searchLoop e this tr (q # qs) ot oa = (Inr (Some t'), this1, tr1)"
proof (cases "search_reply e tr q")
  case NetFail
  from stop[OF searchLoop_NetFail[OF NetFail]] show ?thesis .
next
  case (Resp ok body)
  show ?thesis
  proof (cases ok)
    case False
    with Resp have "search_reply e tr q = Resp False body" by simp
    from continue[OF searchLoop_not_ok[OF this]] show ?thesis .
  next
    case True
    show ?thesis
    proof (cases body)
      case None
      with Resp True have "search_reply e tr q = Resp True None" by simp
      from stop[OF searchLoop_bad_json[OF this]] show ?thesis .
    next
      case (Some items)
      with Resp True have r: "search_reply e tr q = Resp True (Some items)" by simp
      show ?thesis
      proof (cases "items = []")
        case True
        with r have "search_reply e tr q = Resp True (Some [])" by simp
        from continue[OF searchLoop_empty[OF this]] show ?thesis .
      next
        case ne: False
        show ?thesis
        proof (cases "findBestMatch items ot (Some oa)")
          case None
          from continue[OF searchLoop_no_best[OF r None]] show ?thesis .
        next
          case (Some b)
          obtain track score where b: "findBestMatch items ot (Some oa) = Some (track, score)"
            using Some by (cases b) auto
          show ?thesis
          proof (cases "num_gt score (Some threshold)")
            case False
            from continue[OF searchLoop_low[OF r b False]] show ?thesis .
          next
            case True
            obtain t' this1 tr1 where en:
              "enrichTrackData e this (tr @ [SpotifySearch q]) track = (Inr t', this1, tr1)"
              using enrichTrackData_Inr by blast
            show ?thesis using accept[OF r ne b True en searchLoop_accept[OF r ne b True en]] .
          qed
        qed
      qed
    qed
  qed
qed

lemma searchLoop_trace:
  "searchLoop e this tr qs ot oa = (r, this', tr') \<Longrightarrow> only_spotify tr tr'"
proof (induction qs arbitrary: tr)
  case Nil
  then show ?case by (simp add: only_spotify_refl)
next
  case (Cons q qs)
  have st: "only_spotify tr (tr @ [SpotifySearch q])" by (rule only_spotify_step) simp
  show ?case
  proof (cases rule: searchLoop_cases[of e this tr q qs ot oa])
    case (stop err)
    then show ?thesis using Cons.prems st by simp
  next
    case continue
    then have "searchLoop e this (tr @ [SpotifySearch q]) qs ot oa = (r, this', tr')"
      using Cons.prems by simp
    from only_spotify_trans[OF st Cons.IH[OF this]] show ?thesis .
  next
    case (accept items track score t' this1 tr1)
    have "only_spotify tr tr1"
      using only_spotify_trans[OF st enrichTrackData_trace[OF accept(5)]] .
    then show ?thesis using Cons.prems accept(6) by simp
  qed
qed

lemma catch_return_snd: "snd (catch_return d r) = snd r"
  by (cases r; cases "fst r") (auto simp: catch_return_def)

lemma searchSpotifyTrack_trace:
  assumes "searchSpotifyTrack e this tr query ot oa = (r, this', tr')"
  shows "only_spotify tr tr'"
proof -
  obtain r1 this1 tr1 where g: "getAccessToken e this tr = (r1, this1, tr1)"
    by (cases "getAccessToken e this tr") auto
  note s1 = getAccessToken_trace[OF g]
  show ?thesis
  proof (cases r1)
    case (Inl err)
    then show ?thesis using assms g s1 by (simp add: searchSpotifyTrack_def catch_return_def)
  next
    case (Inr token)
    obtain r2 this2 tr2 where l:
      "searchLoop e this1 tr1 (buildSearchQueries ot oa) ot oa = (r2, this2, tr2)"
      by (cases "searchLoop e this1 tr1 (buildSearchQueries ot oa) ot oa") auto
    have "only_spotify tr tr2" using only_spotify_trans[OF s1 searchLoop_trace[OF l]] .
    then show ?thesis using assms g Inr l
      by (cases r2) (auto simp: searchSpotifyTrack_def catch_return_def)
  qed
qed

lemma enrichMetadata_trace:
  assumes "enrichMetadata e this tr ttl art alb = (r, this', tr')"
  shows "only_spotify tr tr'"
proof -
  obtain r1 this1 tr1 where s:
    "searchSpotifyTrack e this tr (searchQueryOf ttl art alb) ttl (js_or art ''Unknown Artist'')
       = (r1, this1, tr1)"
    by (cases "searchSpotifyTrack e this tr (searchQueryOf ttl art alb) ttl
                 (js_or art ''Unknown Artist'')") auto
  have "tr' = tr1" using assms s
    by (auto simp: enrichMetadata_def catch_return_def split: sum.splits option.splits)
  then show ?thesis using searchSpotifyTrack_trace[OF s] by simp
qed

lemma spotifyStage_trace:
  assumes "spotifyStage e tr ttl art alb = (r, tr')"
  shows "only_spotify tr tr'"
proof -
  obtain r1 this1 tr1 where s:
    "enrichMetadata e new_enricher tr ttl (Some art) (Some alb) = (r1, this1, tr1)"
    by (cases "enrichMetadata e new_enricher tr ttl (Some art) (Some alb)") auto
  have "tr' = tr1" using assms s
    by (cases r1) (simp_all add: spotifyStage_def catch_return_def)
  then show ?thesis using enrichMetadata_trace[OF s] by simp
qed

text \<open>
  Claim C9. When the primary provider returns a record, the orchestrator returns that
  record and the requests it has made are requests to Spotify only: no request goes to
  Last.fm or to MusicBrainz.
\<close>

theorem primary_short_circuit:
  assumes "spotifyStage e tr ttl art alb = (Inr (Some m), tr1)"
  shows "enrichMetadataWithAPIs e tr ttl art alb = (Inr (Some m), tr1)
         \<and> (\<exists>cs. tr1 = tr @ cs \<and> (\<forall>c \<in> set cs. provider_of c = Spotify))"
  using assms spotifyStage_trace[OF assms]
  by (auto simp: enrichMetadataWithAPIs_def only_spotify_def list_all_iff)

section \<open>The best match and the threshold\<close>

lemma bestMatchLoop_best:
  "\<exists>track s. bestMatchLoop (Some (bt, Some bs)) items ot oa = Some (track, Some s) \<and> bs \<le> s
     \<and> (track = bt \<and> s = bs \<or> track \<in> set items \<and> calculateSimilarityScore track ot oa = Some s)
     \<and> (\<forall>t \<in> set items. \<forall>v. calculateSimilarityScore t ot oa = Some v \<longrightarrow> v \<le> s)"
proof (induction items arbitrary: bt bs)
  case Nil
  then show ?case by simp
next
  case (Cons x xs)
  obtain v where v: "calculateSimilarityScore x ot oa = Some v" using score_defined by blast
  show ?case
  proof (cases "bs < v")
    case True
    from Cons.IH[of x v] obtain track s where
      h: "bestMatchLoop (Some (x, Some v)) xs ot oa = Some (track, Some s)" "v \<le> s"
         "track = x \<and> s = v \<or> track \<in> set xs \<and> calculateSimilarityScore track ot oa = Some s"
         "\<forall>t \<in> set xs. \<forall>w. calculateSimilarityScore t ot oa = Some w \<longrightarrow> w \<le> s"
      by blast
    have "bestMatchLoop (Some (bt, Some bs)) (x # xs) ot oa = Some (track, Some s)"
      using True v h(1) by (simp add: num_gt_def)
    moreover have "bs \<le> s" using True h(2) by simp
    moreover have "track \<in> set (x # xs) \<and> calculateSimilarityScore track ot oa = Some s"
      using h(3) v by auto
    moreover have "\<forall>t \<in> set (x # xs). \<forall>w. calculateSimilarityScore t ot oa = Some w \<longrightarrow> w \<le> s"
      using h(4) h(2) v by auto
    ultimately show ?thesis by blast
  next
    case False
    from Cons.IH[of bt bs] obtain track s where
      h: "bestMatchLoop (Some (bt, Some bs)) xs ot oa = Some (track, Some s)" "bs \<le> s"
         "track = bt \<and> s = bs \<or> track \<in> set xs \<and> calculateSimilarityScore track ot oa = Some s"
         "\<forall>t \<in> set xs. \<forall>w. calculateSimilarityScore t ot oa = Some w \<longrightarrow> w \<le> s"
      by blast
    have "bestMatchLoop (Some (bt, Some bs)) (x # xs) ot oa = Some (track, Some s)"
      using False v h(1) by (simp add: num_gt_def)
    moreover have "track = bt \<and> s = bs
        \<or> track \<in> set (x # xs) \<and> calculateSimilarityScore track ot oa = Some s"
      using h(3) by auto
    moreover have "\<forall>t \<in> set (x # xs). \<forall>w. calculateSimilarityScore t ot oa = Some w \<longrightarrow> w \<le> s"
      using h(4) h(2) v False by auto
    ultimately show ?thesis using h(2) by blast
  qed
qed

lemma findBestMatch_best:
  assumes "items \<noteq> []"
  shows "\<exists>track s. findBestMatch items ot oa = Some (track, Some s) \<and> track \<in> set items
           \<and> calculateSimilarityScore track ot oa = Some s
           \<and> (\<forall>t \<in> set items. \<forall>v. calculateSimilarityScore t ot oa = Some v \<longrightarrow> v \<le> s)"
proof -
  obtain x xs where items: "items = x # xs" using assms by (cases items) auto
  obtain v where v: "calculateSimilarityScore x ot oa = Some v" using score_defined by blast
  from bestMatchLoop_best[of x v xs ot oa] obtain track s where
    h: "bestMatchLoop (Some (x, Some v)) xs ot oa = Some (track, Some s)" "v \<le> s"
       "track = x \<and> s = v \<or> track \<in> set xs \<and> calculateSimilarityScore track ot oa = Some s"
       "\<forall>t \<in> set xs. \<forall>w. calculateSimilarityScore t ot oa = Some w \<longrightarrow> w \<le> s"
    by blast
  have "findBestMatch items ot oa = Some (track, Some s)"
    using items v h(1) by (simp add: findBestMatch_def)
  moreover have "track \<in> set items \<and> calculateSimilarityScore track ot oa = Some s"
    using h(3) v items by auto
  moreover have "\<forall>t \<in> set items. \<forall>w. calculateSimilarityScore t ot oa = Some w \<longrightarrow> w \<le> s"
    using h(4) h(2) v items by auto
  ultimately show ?thesis by blast
qed

lemma findBestMatch_Some:
  assumes "findBestMatch items ot oa = Some (track, score)"
  shows "\<exists>s. score = Some s \<and> track \<in> set items \<and> calculateSimilarityScore track ot oa = Some s
           \<and> (\<forall>t \<in> set items. \<forall>v. calculateSimilarityScore t ot oa = Some v \<longrightarrow> v \<le> s)"
proof -
  have "items \<noteq> []" using assms by (auto simp: findBestMatch_def)
  from findBestMatch_best[OF this, of ot oa] assms show ?thesis by auto
qed

text \<open>
  The literal \<open>0.7\<close> is the double just below 7/10. Between it and the next double there
  is no score, so a score is above the literal exactly when it is above 7/10.
\<close>

lemma pow2_floor_half: "1 / 2 \<le> x \<Longrightarrow> x < 1 \<Longrightarrow> pow2_floor (Suc (Suc n)) 1 x = 1 / 2"
  by simp

lemma ulp_half: "1 / 2 \<le> x \<Longrightarrow> x < 1 \<Longrightarrow> ulp x = 1 / 2 ^ 53"
proof -
  assume a: "1 / 2 \<le> x" "x < 1"
  have "(1022::nat) = Suc (Suc 1020)" by simp
  then have "pow2_floor 1022 1 x = 1 / 2" using pow2_floor_half[OF a, of 1020] by simp
  then show ?thesis using a by (simp add: ulp_def)
qed

lemma threshold_value: "threshold = 6305039478318694 / 2 ^ 53"
  unfolding threshold_def by code_simp

lemma to_double_gt_threshold:
  assumes "0 \<le> z"
  shows "threshold < to_double z \<longleftrightarrow> 7 / 10 < to_double z"
proof
  assume "7 / 10 < to_double z"
  then show "threshold < to_double z" by (simp add: threshold_value)
next
  assume gt: "threshold < to_double z"
  have idem: "to_double threshold = threshold" unfolding threshold_def by code_simp
  have zgt: "threshold < z"
  proof (rule ccontr)
    assume "\<not> threshold < z"
    then have "z \<le> threshold" by simp
    from to_double_mono[OF assms this] gt idem show False by simp
  qed
  show "7 / 10 < to_double z"
  proof (cases "z < 1")
    case True
    have half: "1 / 2 \<le> z" using zgt by (simp add: threshold_value)
    define k where "k = round_even (z / ulp z)"
    have td: "to_double z = of_int k / 2 ^ 53"
      by (simp add: to_double_def k_def ulp_half[OF half True])
    have "(6305039478318694::rat) < of_int k" using gt td by (simp add: threshold_value)
    then have "6305039478318694 < k" by linarith
    then have "6305039478318695 \<le> k" by simp
    then have "(6305039478318695::rat) \<le> of_int k" by linarith
    then show ?thesis by (simp add: td field_simps)
  next
    case False
    then have "1 \<le> z" by simp
    from to_double_mono[OF _ this] have "1 \<le> to_double z" by (simp add: to_double_1)
    then show ?thesis by simp
  qed
qed

lemma score_form:
  "\<exists>z. 0 \<le> z \<and> calculateSimilarityScore track ot oa = Some (min (to_double z) 1)"
proof -
  obtain t where t: "titleScore (cleanTitleForComparison ot) (cleanTitleForComparison (t_name track)) = Some t"
    "0 \<le> t" using titleScore_bounds by blast
  define s1 where "s1 = fadd 0 t"
  have s1: "0 \<le> s1" unfolding s1_def using t(2) by (intro fadd_nonneg) simp_all
  have w: "\<And>w. artistScore track oa = Some w \<Longrightarrow> 0 \<le> w" by (rule artistScore_nonneg)
  define z2 where "z2 = (case artistScore track oa of None \<Rightarrow> 0 + t | Some w \<Rightarrow> s1 + w)"
  define s2 where "s2 = (case artistScore track oa of None \<Rightarrow> s1 | Some w \<Rightarrow> fadd s1 w)"
  have z2: "0 \<le> z2" "s2 = to_double z2"
    using s1 t(2) w by (auto simp: z2_def s2_def s1_def fadd_def split: option.splits)
  have s2: "0 \<le> s2" using z2 to_double_nonneg by simp
  define z3 where "z3 = (if 50 < t_popularity track then s2 + to_double (1 / 10) else z2)"
  define s3 where "s3 = (if 50 < t_popularity track then fadd s2 (to_double (1 / 10)) else s2)"
  have z3: "0 \<le> z3" "s3 = to_double z3"
    using s2 z2 to_double_nonneg[of "1 / 10"] by (auto simp: z3_def s3_def fadd_def)
  have "calculateSimilarityScore track ot oa = Some (min s3 1)"
    unfolding calculateSimilarityScore_def Let_def
    using t(1) by (simp add: num_add_def math_min_def s1_def s2_def s3_def split: option.splits)
  then show ?thesis using z3 by auto
qed

lemma score_gt_threshold:
  assumes "calculateSimilarityScore track ot oa = Some s"
  shows "num_gt (Some s) (Some threshold) \<longleftrightarrow> 7 / 10 < s"
proof -
  obtain z where z: "0 \<le> z" "s = min (to_double z) 1" using score_form[of track ot oa] assms by auto
  have "threshold < 1" by (simp add: threshold_value)
  then show ?thesis using to_double_gt_threshold[OF z(1)] z(2)
    by (auto simp: num_gt_def min_def)
qed


section \<open>What \<open>enrichTrackData\<close> changes\<close>

lemma same_track_refl: "same_track t t"
  by (simp add: same_track_def)

lemma same_track_trans: "same_track a b \<Longrightarrow> same_track b c \<Longrightarrow> same_track a c"
  by (simp add: same_track_def)

lemma artistStep_same: "artistStep e tr t = (r, t', tr') \<Longrightarrow> same_track t t'"
  by (auto simp: artistStep_def Let_def same_track_def
           split: list.splits if_splits reply.splits option.splits)

lemma albumStep_same: "albumStep e tr t = (r, t', tr') \<Longrightarrow> same_track t t'"
  by (auto simp: albumStep_def Let_def same_track_def
           split: list.splits if_splits reply.splits option.splits)

lemma enrichTrackData_same:
  assumes "enrichTrackData e this tr t = (Inr t', this', tr')"
  shows "same_track t t'"
proof -
  obtain r1 this1 tr1 where g: "getAccessToken e this tr = (r1, this1, tr1)"
    by (cases "getAccessToken e this tr") auto
  show ?thesis
  proof (cases r1)
    case (Inl err)
    then show ?thesis using assms g by (simp add: enrichTrackData_def same_track_refl)
  next
    case (Inr token)
    obtain x t1 tr2 where a: "artistStep e tr1 t = (x, t1, tr2)"
      by (cases "artistStep e tr1 t") auto
    note s1 = artistStep_same[OF a]
    show ?thesis
    proof (cases x)
      case (Some err)
      then show ?thesis using assms g Inr a s1 by (simp add: enrichTrackData_def)
    next
      case None
      obtain y t2 tr3 where b: "albumStep e tr2 t1 = (y, t2, tr3)"
        by (cases "albumStep e tr2 t1") auto
      note s2 = same_track_trans[OF s1 albumStep_same[OF b]]
      show ?thesis using assms g Inr a None b s2 by (simp add: enrichTrackData_def)
    qed
  qed
qed


lemma enrichTrackData_artist_down:
  assumes "\<forall>t i. artist_reply e t i = NetFail" and "t_artists track \<noteq> []"
  shows "\<exists>this1 tr1. enrichTrackData e this tr track = (Inr track, this1, tr1)"
proof -
  obtain r this1 tr1 where g: "getAccessToken e this tr = (r, this1, tr1)"
    by (cases "getAccessToken e this tr") auto
  obtain a rest where a: "t_artists track = a # rest" using assms(2) by (cases "t_artists track") auto
  have "artistStep e tr1 track = (Some NetworkError, track, tr1 @ [SpotifyArtist (ar_id a)])"
    using assms(1) a by (simp add: artistStep_def Let_def)
  then show ?thesis using g by (cases r) (simp_all add: enrichTrackData_def)
qed

lemma enrichTrackData_keeps:
  "\<exists>t' this1 tr1. enrichTrackData e this tr track = (Inr t', this1, tr1) \<and> same_track track t'"
  using enrichTrackData_Inr[of e this tr track] enrichTrackData_same by blast

lemma searchLoop_origin:
  "searchLoop e this tr qs ot oa = (Inr (Some t'), this', tr') \<Longrightarrow>
   \<exists>items track s this0 tr0. offered e items \<and> track \<in> set items
     \<and> findBestMatch items ot (Some oa) = Some (track, Some s)
     \<and> calculateSimilarityScore track ot (Some oa) = Some s \<and> 7 / 10 < s
     \<and> (\<forall>t \<in> set items. \<forall>v. calculateSimilarityScore t ot (Some oa) = Some v \<longrightarrow> v \<le> s)
     \<and> enrichTrackData e this0 tr0 track = (Inr t', this', tr')
     \<and> same_track track t'"
proof (induction qs arbitrary: tr)
  case Nil
  then show ?case by simp
next
  case (Cons q qs)
  show ?case
  proof (cases rule: searchLoop_cases[of e this tr q qs ot oa])
    case (stop err)
    then show ?thesis using Cons.prems by simp
  next
    case continue
    then have "searchLoop e this (tr @ [SpotifySearch q]) qs ot oa = (Inr (Some t'), this', tr')"
      using Cons.prems by simp
    from Cons.IH[OF this] show ?thesis .
  next
    case (accept items track score t1 this1 tr1)
    from findBestMatch_Some[OF accept(3)] obtain s where
      s: "score = Some s" "track \<in> set items" "calculateSimilarityScore track ot (Some oa) = Some s"
         "\<forall>t \<in> set items. \<forall>v. calculateSimilarityScore t ot (Some oa) = Some v \<longrightarrow> v \<le> s"
      by blast
    have gt: "7 / 10 < s" using accept(4) s(1) score_gt_threshold[OF s(3)] by simp
    have eq: "t1 = t'" "this1 = this'" "tr1 = tr'" using accept(6) Cons.prems by simp_all
    have en: "enrichTrackData e this (tr @ [SpotifySearch q]) track = (Inr t', this', tr')"
      using accept(5) eq by simp
    have same: "same_track track t'" using enrichTrackData_same[OF en] .
    have fb: "findBestMatch items ot (Some oa) = Some (track, Some s)" using accept(3) s(1) by simp
    have "offered e items" using accept(1) by (auto simp: offered_def)
    then show ?thesis using s(2,3,4) gt same en fb by blast
  qed
qed

section \<open>Acceptance by the primary provider\<close>









section \<open>The three providers\<close>

lemma searchSpotifyTrack_sound:
  assumes "searchSpotifyTrack e this tr query ot oa = (Inr (Some t'), this', tr')"
  shows "\<exists>this1 tr1. searchLoop e this1 tr1 (buildSearchQueries ot oa) ot oa
           = (Inr (Some t'), this', tr')"
proof -
  obtain r1 this1 tr1 where g: "getAccessToken e this tr = (r1, this1, tr1)"
    by (cases "getAccessToken e this tr") auto
  show ?thesis
  proof (cases r1)
    case (Inl err)
    then show ?thesis using assms g by (simp add: searchSpotifyTrack_def catch_return_def)
  next
    case (Inr token)
    obtain r2 this2 tr2 where l:
      "searchLoop e this1 tr1 (buildSearchQueries ot oa) ot oa = (r2, this2, tr2)"
      by (cases "searchLoop e this1 tr1 (buildSearchQueries ot oa) ot oa") auto
    have "(r2, this2, tr2) = (Inr (Some t'), this', tr')" using assms g Inr l
      by (cases r2) (simp_all add: searchSpotifyTrack_def catch_return_def)
    then show ?thesis using l by auto
  qed
qed

lemma enrichMetadata_sound:
  assumes "enrichMetadata e this tr ttl art alb = (Inr (Some m), this', tr')"
  shows "\<exists>t'. searchSpotifyTrack e this tr (searchQueryOf ttl art alb) ttl
                 (js_or art ''Unknown Artist'') = (Inr (Some t'), this', tr')
              \<and> m = toEnriched t'"
proof -
  obtain r1 this1 tr1 where s:
    "searchSpotifyTrack e this tr (searchQueryOf ttl art alb) ttl (js_or art ''Unknown Artist'')
       = (r1, this1, tr1)"
    by (cases "searchSpotifyTrack e this tr (searchQueryOf ttl art alb) ttl
                 (js_or art ''Unknown Artist'')") auto
  show ?thesis using assms s
    by (auto simp: enrichMetadata_def catch_return_def split: sum.splits option.splits)
qed

lemma spotifyStage_origin:
  assumes "spotifyStage e tr ttl art alb = (Inr (Some m), tr1)"
  shows "\<exists>items track s t' this0 tr0 this1. offered e items \<and> track \<in> set items
     \<and> findBestMatch items ttl (Some (js_or (Some art) ''Unknown Artist'')) = Some (track, Some s)
     \<and> calculateSimilarityScore track ttl (Some (js_or (Some art) ''Unknown Artist'')) = Some s
     \<and> 7 / 10 < s
     \<and> (\<forall>t \<in> set items. \<forall>v.
           calculateSimilarityScore t ttl (Some (js_or (Some art) ''Unknown Artist'')) = Some v
           \<longrightarrow> v \<le> s)
     \<and> enrichTrackData e this0 tr0 track = (Inr t', this1, tr1)
     \<and> same_track track t' \<and> m = toEnriched t'"
proof -
  obtain r1 this1 tr' where s:
    "enrichMetadata e new_enricher tr ttl (Some art) (Some alb) = (r1, this1, tr')"
    by (cases "enrichMetadata e new_enricher tr ttl (Some art) (Some alb)") auto
  have r1: "r1 = Inr (Some m)" and tr': "tr' = tr1" using assms s
    by (cases r1; simp add: spotifyStage_def catch_return_def)+
  with s have "enrichMetadata e new_enricher tr ttl (Some art) (Some alb)
                 = (Inr (Some m), this1, tr1)" by simp
  from enrichMetadata_sound[OF this] obtain t' where
    t': "searchSpotifyTrack e new_enricher tr (searchQueryOf ttl (Some art) (Some alb)) ttl
           (js_or (Some art) ''Unknown Artist'') = (Inr (Some t'), this1, tr1)"
        "m = toEnriched t'"
    by blast
  from searchSpotifyTrack_sound[OF t'(1)] obtain this2 tr2 where
    "searchLoop e this2 tr2 (buildSearchQueries ttl (js_or (Some art) ''Unknown Artist'')) ttl
       (js_or (Some art) ''Unknown Artist'') = (Inr (Some t'), this1, tr1)"
    by blast
  from searchLoop_origin[OF this] t'(2) show ?thesis by blast
qed

lemma spotifyStage_first_query:
  assumes tok: "token_reply e tr = Resp ok (Some data)" "truthy (access_token data)"
    and qs: "buildSearchQueries ttl (js_or (Some art) ''Unknown Artist'') = q # qs"
    and sr: "search_reply e (tr @ [SpotifyToken]) q = Resp True (Some items)" "items \<noteq> []"
    and best: "findBestMatch items ttl (Some (js_or (Some art) ''Unknown Artist''))
                 = Some (track, Some s)"
    and gt: "7 / 10 < s"
  shows "\<exists>t' this0 this1 tr1.
           enrichTrackData e this0 (tr @ [SpotifyToken, SpotifySearch q]) track = (Inr t', this1, tr1)
         \<and> spotifyStage e tr ttl art alb = (Inr (Some (toEnriched t')), tr1)
         \<and> same_track track t'"
proof -
  let ?oa = "js_or (Some art) ''Unknown Artist''"
  obtain this0 where g:
    "getAccessToken e new_enricher tr = (Inr (the (access_token data)), this0, tr @ [SpotifyToken])"
    using tok by (simp add: getAccessToken_def fetchToken_def new_enricher_def truthy_def Let_def)
  obtain t' this1 tr1 where en:
    "enrichTrackData e this0 ((tr @ [SpotifyToken]) @ [SpotifySearch q]) track = (Inr t', this1, tr1)"
    using enrichTrackData_Inr by blast
  have sc: "calculateSimilarityScore track ttl (Some ?oa) = Some s"
    using findBestMatch_Some[OF best] by auto
  have ngt: "num_gt (Some s) (Some threshold)" using gt score_gt_threshold[OF sc] by simp
  have l: "searchLoop e this0 (tr @ [SpotifyToken]) (q # qs) ttl ?oa = (Inr (Some t'), this1, tr1)"
    using searchLoop_accept[OF sr best ngt en] .
  have "searchSpotifyTrack e new_enricher tr (searchQueryOf ttl (Some art) (Some alb)) ttl ?oa
          = (Inr (Some t'), this1, tr1)"
    using g l qs by (simp add: searchSpotifyTrack_def catch_return_def)
  then have "spotifyStage e tr ttl art alb = (Inr (Some (toEnriched t')), tr1)"
    by (simp add: spotifyStage_def enrichMetadata_def catch_return_def)
  then show ?thesis using en enrichTrackData_same[OF en] by auto
qed

lemma lastfmStage_accepts:
  assumes "lastfm_search_reply e tr ttl (knownArtist (Some art)) = Resp True (Some (h # hs))"
    and "lastfm_info_reply e (tr @ [LastFmSearch ttl (knownArtist (Some art))]) ttl art
           = Resp True (Some (Some info))"
    and "lastfmRecord info ttl art alb = Inr m"
  shows "lastfmStage e tr ttl art alb
           = (Inr (Some m), tr @ [LastFmSearch ttl (knownArtist (Some art)), LastFmInfo ttl art])"
  using assms
  by (simp add: lastfmStage_def searchTrack_def getTrackInfo_def catch_return_def nth_opt_def Let_def)

lemma musicbrainzStage_accepts:
  assumes "mb_search_reply e tr ttl (knownArtist (Some art)) = Resp True (Some (i # ids))"
    and "mb_recording_reply e (tr @ [MusicBrainzSearch ttl (knownArtist (Some art))]) i
           = Resp True (Some (Some rec))"
    and "musicbrainzRecord rec ttl art alb = Inr m"
  shows "musicbrainzStage e tr ttl art alb
           = (Inr (Some m),
              tr @ [MusicBrainzSearch ttl (knownArtist (Some art)), MusicBrainzRecording i])"
  using assms
  by (simp add: musicbrainzStage_def searchRecording_def getRecording_def catch_return_def
        nth_opt_def Let_def)

lemma lastfmStage_silent:
  assumes "yields_nothing (lastfm_search_reply e tr ttl (knownArtist (Some art)))"
  shows "lastfmStage e tr ttl art alb
           = (Inr None, tr @ [LastFmSearch ttl (knownArtist (Some art))])"
  using assms
  by (auto simp: lastfmStage_def searchTrack_def catch_return_def nth_opt_def Let_def
        yields_nothing_def split: reply.splits option.splits)

lemma musicbrainzStage_silent:
  assumes "yields_nothing (mb_search_reply e tr ttl (knownArtist (Some art)))"
  shows "musicbrainzStage e tr ttl art alb
           = (Inr None, tr @ [MusicBrainzSearch ttl (knownArtist (Some art))])"
  using assms
  by (auto simp: musicbrainzStage_def searchRecording_def catch_return_def nth_opt_def Let_def
        yields_nothing_def split: reply.splits option.splits)

lemma searchTrack_hit:
  "lastfm_search_reply e tr ttl (knownArtist art) = Resp True (Some (h # hs)) \<Longrightarrow>
   searchTrack e tr ttl art = (Inr (Some h), tr @ [LastFmSearch ttl (knownArtist art)])"
  by (simp add: searchTrack_def catch_return_def nth_opt_def Let_def)

lemma searchTrack_nothing:
  "yields_nothing (lastfm_search_reply e tr ttl (knownArtist art)) \<Longrightarrow>
   searchTrack e tr ttl art = (Inr None, tr @ [LastFmSearch ttl (knownArtist art)])"
  by (auto simp: searchTrack_def catch_return_def nth_opt_def Let_def yields_nothing_def
        split: reply.splits option.splits)

lemma reply_list_cases:
  fixes r :: "'a list reply"
  obtains (nothing) "yields_nothing r" | (hit) h hs where "r = Resp True (Some (h # hs))"
proof (cases r)
  case NetFail
  then have "yields_nothing r" by (simp add: yields_nothing_def)
  then show ?thesis by (rule nothing)
next
  case (Resp ok body)
  show ?thesis
  proof (cases "ok \<and> (\<exists>h hs. body = Some (h # hs))")
    case True
    then obtain h hs where "r = Resp True (Some (h # hs))" using Resp by auto
    then show ?thesis by (rule hit)
  next
    case False
    then have "\<not> ok \<or> body = None \<or> body = Some []"
      by (cases body) (auto simp: neq_Nil_conv[symmetric])
    then have "yields_nothing r" using Resp by (simp add: yields_nothing_def)
    then show ?thesis by (rule nothing)
  qed
qed

lemma reply_option_cases:
  fixes r :: "'a option reply"
  obtains (nothing) "no_details r" | (found) d where "r = Resp True (Some (Some d))"
proof (cases r)
  case NetFail
  then have "no_details r" by (simp add: no_details_def)
  then show ?thesis by (rule nothing)
next
  case (Resp ok body)
  show ?thesis
  proof (cases "ok \<and> (\<exists>d. body = Some (Some d))")
    case True
    then obtain d where "r = Resp True (Some (Some d))" using Resp by auto
    then show ?thesis by (rule found)
  next
    case False
    then have "\<not> ok \<or> body = None \<or> body = Some None" by (cases body) auto
    then have "no_details r" using Resp by (simp add: no_details_def)
    then show ?thesis by (rule nothing)
  qed
qed

lemma getTrackInfo_found:
  "lastfm_info_reply e tr ttl art = Resp True (Some (Some info)) \<Longrightarrow>
   getTrackInfo e tr ttl art = (Inr (Some info), tr @ [LastFmInfo ttl art])"
  by (simp add: getTrackInfo_def catch_return_def Let_def)

lemma getTrackInfo_nothing:
  "no_details (lastfm_info_reply e tr ttl art) \<Longrightarrow>
   getTrackInfo e tr ttl art = (Inr None, tr @ [LastFmInfo ttl art])"
  by (auto simp: getTrackInfo_def catch_return_def Let_def no_details_def
        split: reply.splits option.splits)

lemma searchRecording_hit:
  "mb_search_reply e tr ttl (knownArtist art) = Resp True (Some (i # ids)) \<Longrightarrow>
   searchRecording e tr ttl art = (Inr (Some i), tr @ [MusicBrainzSearch ttl (knownArtist art)])"
  by (simp add: searchRecording_def catch_return_def nth_opt_def Let_def)

lemma searchRecording_nothing:
  "yields_nothing (mb_search_reply e tr ttl (knownArtist art)) \<Longrightarrow>
   searchRecording e tr ttl art = (Inr None, tr @ [MusicBrainzSearch ttl (knownArtist art)])"
  by (auto simp: searchRecording_def catch_return_def nth_opt_def Let_def yields_nothing_def
        split: reply.splits option.splits)

lemma getRecording_found:
  "mb_recording_reply e tr i = Resp True (Some (Some rec)) \<Longrightarrow>
   getRecording e tr i = (Inr (Some rec), tr @ [MusicBrainzRecording i])"
  by (simp add: getRecording_def catch_return_def Let_def)

lemma getRecording_nothing:
  "no_details (mb_recording_reply e tr i) \<Longrightarrow>
   getRecording e tr i = (Inr None, tr @ [MusicBrainzRecording i])"
  by (auto simp: getRecording_def catch_return_def Let_def no_details_def
        split: reply.splits option.splits)

lemma lastfmStage_no_info:
  assumes "lastfm_search_reply e tr ttl (knownArtist (Some art)) = Resp True (Some (h # hs))"
    and "no_details (lastfm_info_reply e (tr @ [LastFmSearch ttl (knownArtist (Some art))]) ttl art)"
  shows "lastfmStage e tr ttl art alb
           = (Inr None, tr @ [LastFmSearch ttl (knownArtist (Some art)), LastFmInfo ttl art])"
  using searchTrack_hit[OF assms(1)] getTrackInfo_nothing[OF assms(2)]
  by (simp add: lastfmStage_def catch_return_def)

lemma lastfmStage_throws:
  assumes "lastfm_search_reply e tr ttl (knownArtist (Some art)) = Resp True (Some (h # hs))"
    and "lastfm_info_reply e (tr @ [LastFmSearch ttl (knownArtist (Some art))]) ttl art
           = Resp True (Some (Some info))"
    and "lastfmRecord info ttl art alb = Inl err"
  shows "lastfmStage e tr ttl art alb
           = (Inr None, tr @ [LastFmSearch ttl (knownArtist (Some art)), LastFmInfo ttl art])"
  using searchTrack_hit[OF assms(1)] getTrackInfo_found[OF assms(2)] assms(3)
  by (simp add: lastfmStage_def catch_return_def)

lemma musicbrainzStage_no_recording:
  assumes "mb_search_reply e tr ttl (knownArtist (Some art)) = Resp True (Some (i # ids))"
    and "no_details (mb_recording_reply e (tr @ [MusicBrainzSearch ttl (knownArtist (Some art))]) i)"
  shows "musicbrainzStage e tr ttl art alb
           = (Inr None,
              tr @ [MusicBrainzSearch ttl (knownArtist (Some art)), MusicBrainzRecording i])"
  using searchRecording_hit[OF assms(1)] getRecording_nothing[OF assms(2)]
  by (simp add: musicbrainzStage_def catch_return_def)

lemma musicbrainzStage_throws:
  assumes "mb_search_reply e tr ttl (knownArtist (Some art)) = Resp True (Some (i # ids))"
    and "mb_recording_reply e (tr @ [MusicBrainzSearch ttl (knownArtist (Some art))]) i
           = Resp True (Some (Some rec))"
    and "musicbrainzRecord rec ttl art alb = Inl err"
  shows "musicbrainzStage e tr ttl art alb
           = (Inr None,
              tr @ [MusicBrainzSearch ttl (knownArtist (Some art)), MusicBrainzRecording i])"
  using searchRecording_hit[OF assms(1)] getRecording_found[OF assms(2)] assms(3)
  by (simp add: musicbrainzStage_def catch_return_def)

lemma lastfmStage_iff:
  "lastfmStage e tr ttl art alb = (Inr (Some m), tr')
   \<longleftrightarrow> (\<exists>h hs info.
          lastfm_search_reply e tr ttl (knownArtist (Some art)) = Resp True (Some (h # hs))
        \<and> lastfm_info_reply e (tr @ [LastFmSearch ttl (knownArtist (Some art))]) ttl art
            = Resp True (Some (Some info))
        \<and> lastfmRecord info ttl art alb = Inr m
        \<and> tr' = tr @ [LastFmSearch ttl (knownArtist (Some art)), LastFmInfo ttl art])"
  (is "?L \<longleftrightarrow> ?R")
proof
  assume ?R
  then show ?L using lastfmStage_accepts by auto
next
  assume L: ?L
  show ?R
  proof (cases "lastfm_search_reply e tr ttl (knownArtist (Some art))" rule: reply_list_cases)
    case nothing
    then show ?thesis using L lastfmStage_silent[OF nothing, where alb = alb] by simp
  next
    case (hit h hs)
    show ?thesis
    proof (cases "lastfm_info_reply e (tr @ [LastFmSearch ttl (knownArtist (Some art))]) ttl art"
             rule: reply_option_cases)
      case nothing
      then show ?thesis using L lastfmStage_no_info[OF hit nothing, where alb = alb] by simp
    next
      case (found info)
      show ?thesis
      proof (cases "lastfmRecord info ttl art alb")
        case (Inl err)
        then show ?thesis using L lastfmStage_throws[OF hit found Inl] by simp
      next
        case (Inr m')
        then show ?thesis using L lastfmStage_accepts[OF hit found Inr] hit found by auto
      qed
    qed
  qed
qed

lemma musicbrainzStage_iff:
  "musicbrainzStage e tr ttl art alb = (Inr (Some m), tr')
   \<longleftrightarrow> (\<exists>i ids rec.
          mb_search_reply e tr ttl (knownArtist (Some art)) = Resp True (Some (i # ids))
        \<and> mb_recording_reply e (tr @ [MusicBrainzSearch ttl (knownArtist (Some art))]) i
            = Resp True (Some (Some rec))
        \<and> musicbrainzRecord rec ttl art alb = Inr m
        \<and> tr' = tr @ [MusicBrainzSearch ttl (knownArtist (Some art)), MusicBrainzRecording i])"
  (is "?L \<longleftrightarrow> ?R")
proof
  assume ?R
  then show ?L using musicbrainzStage_accepts by auto
next
  assume L: ?L
  show ?R
  proof (cases "mb_search_reply e tr ttl (knownArtist (Some art))" rule: reply_list_cases)
    case nothing
    then show ?thesis using L musicbrainzStage_silent[OF nothing, where alb = alb] by simp
  next
    case (hit i ids)
    show ?thesis
    proof (cases "mb_recording_reply e (tr @ [MusicBrainzSearch ttl (knownArtist (Some art))]) i"
             rule: reply_option_cases)
      case nothing
      then show ?thesis using L musicbrainzStage_no_recording[OF hit nothing, where alb = alb] by simp
    next
      case (found rec)
      show ?thesis
      proof (cases "musicbrainzRecord rec ttl art alb")
        case (Inl err)
        then show ?thesis using L musicbrainzStage_throws[OF hit found Inl] by simp
      next
        case (Inr m')
        then show ?thesis using L musicbrainzStage_accepts[OF hit found Inr] hit found by auto
      qed
    qed
  qed
qed

text \<open>
  Claim C1, as amended. Only the primary provider scores its candidates: a record from
  Spotify is built from the candidate that \<open>findBestMatch\<close> picks in a search result, whose
  score is the highest of that result and is above 0.7, after \<open>enrichTrackData\<close> has
  completed it. Last.fm and MusicBrainz do not score. The Last.fm block returns a record
  exactly when its search has a first hit, the details requested for the title and the
  artist of the guess (not of the hit) arrive, and building the record from them does not
  throw; the record is built from those details and the guess. The MusicBrainz block returns
  a record exactly when its search has a first hit, the recording with the id of that hit
  arrives, and building the record from it does not throw.
\<close>

theorem scoring_is_primary_only:
  "(spotifyStage e tr ttl art alb = (Inr (Some m), trs) \<longrightarrow>
      (\<exists>items track s t' this0 tr0 this1. offered e items \<and> track \<in> set items
         \<and> findBestMatch items ttl (Some (js_or (Some art) ''Unknown Artist''))
             = Some (track, Some s)
         \<and> calculateSimilarityScore track ttl (Some (js_or (Some art) ''Unknown Artist'')) = Some s
         \<and> 7 / 10 < s
         \<and> (\<forall>t \<in> set items. \<forall>v.
               calculateSimilarityScore t ttl (Some (js_or (Some art) ''Unknown Artist'')) = Some v
               \<longrightarrow> v \<le> s)
         \<and> enrichTrackData e this0 tr0 track = (Inr t', this1, trs)
         \<and> same_track track t' \<and> m = toEnriched t'))
   \<and> (lastfmStage e tr ttl art alb = (Inr (Some ml), trl)
        \<longleftrightarrow> (\<exists>h hs info.
               lastfm_search_reply e tr ttl (knownArtist (Some art)) = Resp True (Some (h # hs))
             \<and> lastfm_info_reply e (tr @ [LastFmSearch ttl (knownArtist (Some art))]) ttl art
                 = Resp True (Some (Some info))
             \<and> lastfmRecord info ttl art alb = Inr ml
             \<and> trl = tr @ [LastFmSearch ttl (knownArtist (Some art)), LastFmInfo ttl art]))
   \<and> (musicbrainzStage e tr ttl art alb = (Inr (Some mb), trb)
        \<longleftrightarrow> (\<exists>i ids rec.
               mb_search_reply e tr ttl (knownArtist (Some art)) = Resp True (Some (i # ids))
             \<and> mb_recording_reply e (tr @ [MusicBrainzSearch ttl (knownArtist (Some art))]) i
                 = Resp True (Some (Some rec))
             \<and> musicbrainzRecord rec ttl art alb = Inr mb
             \<and> trb = tr @ [MusicBrainzSearch ttl (knownArtist (Some art)),
                            MusicBrainzRecording i]))"
proof -
  have a: "spotifyStage e tr ttl art alb = (Inr (Some m), trs) \<longrightarrow>
      (\<exists>items track s t' this0 tr0 this1. offered e items \<and> track \<in> set items
         \<and> findBestMatch items ttl (Some (js_or (Some art) ''Unknown Artist''))
             = Some (track, Some s)
         \<and> calculateSimilarityScore track ttl (Some (js_or (Some art) ''Unknown Artist'')) = Some s
         \<and> 7 / 10 < s
         \<and> (\<forall>t \<in> set items. \<forall>v.
               calculateSimilarityScore t ttl (Some (js_or (Some art) ''Unknown Artist'')) = Some v
               \<longrightarrow> v \<le> s)
         \<and> enrichTrackData e this0 tr0 track = (Inr t', this1, trs)
         \<and> same_track track t' \<and> m = toEnriched t')"
    using spotifyStage_origin[of e tr ttl art alb m trs] by blast
  show ?thesis
    using a lastfmStage_iff[of e tr ttl art alb ml trl]
      musicbrainzStage_iff[of e tr ttl art alb mb trb]
    by (intro conjI) assumption+
qed

section \<open>No exception leaves the pipeline\<close>

lemma stage_Inr:
  "\<exists>r tr'. spotifyStage e tr ttl art alb = (Inr r, tr')"
  "\<exists>r tr'. lastfmStage e tr ttl art alb = (Inr r, tr')"
  "\<exists>r tr'. musicbrainzStage e tr ttl art alb = (Inr r, tr')"
  unfolding spotifyStage_def lastfmStage_def musicbrainzStage_def
  by (rule catch_return_Inr)+

lemma enrichMetadataWithAPIs_Inr:
  "\<exists>r tr'. enrichMetadataWithAPIs e tr ttl art alb = (Inr r, tr')"
proof -
  obtain r1 tr1 where s: "spotifyStage e tr ttl art alb = (Inr r1, tr1)"
    using stage_Inr(1) by blast
  obtain r2 tr2 where l: "lastfmStage e tr1 ttl art alb = (Inr r2, tr2)"
    using stage_Inr(2) by blast
  obtain r3 tr3 where m: "musicbrainzStage e tr2 ttl art alb = (Inr r3, tr3)"
    using stage_Inr(3) by blast
  show ?thesis using s l m
    by (cases r1; cases r2; cases r3) (simp_all add: enrichMetadataWithAPIs_def)
qed

lemma importMetadata_Inr: "\<exists>r tr'. importMetadata e tr rawTitle = (Inr r, tr')"
proof -
  obtain basic where b: "extractBasicMetadata rawTitle = Inr basic"
    using extractBasicMetadata_total by blast
  obtain r1 tr1 where s:
    "enrichMetadataWithAPIs e tr (title basic) (artist basic) (album basic) = (Inr r1, tr1)"
    using enrichMetadataWithAPIs_Inr by blast
  show ?thesis using b s
    by (cases r1) (simp_all add: importMetadata_def catch_return_def)
qed

lemma searchLoop_silent:
  assumes "\<forall>t q. yields_nothing (search_reply e t q)"
  shows "\<exists>r tr'. searchLoop e this tr qs ot oa = (r, this, tr') \<and> r \<noteq> Inr (Some t')"
proof (induction qs arbitrary: tr)
  case Nil
  then show ?case by simp
next
  case (Cons q qs)
  show ?case
  proof (cases rule: searchLoop_cases[of e this tr q qs ot oa])
    case (stop err)
    then show ?thesis by simp
  next
    case continue
    then show ?thesis using Cons.IH[of "tr @ [SpotifySearch q]"] by simp
  next
    case (accept items track score t1 this1 tr1)
    have "yields_nothing (search_reply e tr q)" using assms by blast
    then show ?thesis using accept(1,2) by (simp add: yields_nothing_def)
  qed
qed

lemma spotifyStage_auth_fails:
  assumes "auth_fails (token_reply e tr)"
  shows "spotifyStage e tr ttl art alb = (Inr None, tr @ [SpotifyToken])"
proof -
  have "getAccessToken e new_enricher tr = (Inl AuthError, new_enricher, tr @ [SpotifyToken])"
    using assms
    by (auto simp: getAccessToken_def fetchToken_def new_enricher_def truthy_def auth_fails_def
          Let_def split: reply.splits option.splits)
  then show ?thesis
    by (simp add: spotifyStage_def enrichMetadata_def searchSpotifyTrack_def catch_return_def)
qed

lemma spotifyStage_silent:
  assumes "\<forall>t q. yields_nothing (search_reply e t q)"
  shows "\<exists>tr'. spotifyStage e tr ttl art alb = (Inr None, tr')"
proof -
  obtain r tr1 where s: "spotifyStage e tr ttl art alb = (Inr r, tr1)"
    using stage_Inr(1) by blast
  show ?thesis
  proof (cases r)
    case None
    then show ?thesis using s by simp
  next
    case (Some m)
    obtain r1 this1 tr' where en:
      "enrichMetadata e new_enricher tr ttl (Some art) (Some alb) = (r1, this1, tr')"
      by (cases "enrichMetadata e new_enricher tr ttl (Some art) (Some alb)") auto
    have "r1 = Inr (Some m)" using s Some en
      by (cases r1) (simp_all add: spotifyStage_def catch_return_def)
    with en have "enrichMetadata e new_enricher tr ttl (Some art) (Some alb)
                    = (Inr (Some m), this1, tr')" by simp
    from enrichMetadata_sound[OF this] obtain t' where
      "searchSpotifyTrack e new_enricher tr (searchQueryOf ttl (Some art) (Some alb)) ttl
         (js_or (Some art) ''Unknown Artist'') = (Inr (Some t'), this1, tr')"
      by blast
    from searchSpotifyTrack_sound[OF this] obtain this2 tr2 where
      l: "searchLoop e this2 tr2 (buildSearchQueries ttl (js_or (Some art) ''Unknown Artist'')) ttl
         (js_or (Some art) ''Unknown Artist'') = (Inr (Some t'), this1, tr')"
      by blast
    from searchLoop_silent[OF assms, of this2 tr2
           "buildSearchQueries ttl (js_or (Some art) ''Unknown Artist'')" ttl
           "js_or (Some art) ''Unknown Artist''" t'] l
    show ?thesis by auto
  qed
qed

lemma all_silent:
  assumes "\<forall>t q. yields_nothing (search_reply e t q)"
    and "\<forall>t. yields_nothing (lastfm_search_reply e t ttl (knownArtist (Some art)))"
    and "\<forall>t. yields_nothing (mb_search_reply e t ttl (knownArtist (Some art)))"
  shows "\<exists>tr'. enrichMetadataWithAPIs e tr ttl art alb = (Inr None, tr')"
proof -
  obtain tr1 where s: "spotifyStage e tr ttl art alb = (Inr None, tr1)"
    using spotifyStage_silent[OF assms(1)] by blast
  have l: "lastfmStage e tr1 ttl art alb
             = (Inr None, tr1 @ [LastFmSearch ttl (knownArtist (Some art))])"
    using lastfmStage_silent assms(2) by blast
  have m: "musicbrainzStage e (tr1 @ [LastFmSearch ttl (knownArtist (Some art))]) ttl art alb
             = (Inr None, tr1 @ [LastFmSearch ttl (knownArtist (Some art))]
                  @ [MusicBrainzSearch ttl (knownArtist (Some art))])"
    using musicbrainzStage_silent[of e _ ttl art alb] assms(3) by simp
  show ?thesis using s l m by (simp add: enrichMetadataWithAPIs_def)
qed

lemma orchestrator_chain:
  "\<exists>r1 tr1. spotifyStage e tr ttl art alb = (Inr r1, tr1)
     \<and> (r1 \<noteq> None \<longrightarrow> enrichMetadataWithAPIs e tr ttl art alb = (Inr r1, tr1))
     \<and> (r1 = None \<longrightarrow>
          (\<exists>r2 tr2. lastfmStage e tr1 ttl art alb = (Inr r2, tr2)
             \<and> (r2 \<noteq> None \<longrightarrow> enrichMetadataWithAPIs e tr ttl art alb = (Inr r2, tr2))
             \<and> (r2 = None \<longrightarrow>
                  (\<exists>r3 tr3. musicbrainzStage e tr2 ttl art alb = (Inr r3, tr3)
                     \<and> enrichMetadataWithAPIs e tr ttl art alb = (Inr r3, tr3)))))"
proof -
  obtain r1 tr1 where s: "spotifyStage e tr ttl art alb = (Inr r1, tr1)"
    using stage_Inr(1) by blast
  obtain r2 tr2 where l: "lastfmStage e tr1 ttl art alb = (Inr r2, tr2)"
    using stage_Inr(2) by blast
  obtain r3 tr3 where m: "musicbrainzStage e tr2 ttl art alb = (Inr r3, tr3)"
    using stage_Inr(3) by blast
  have a: "r1 \<noteq> None \<Longrightarrow> enrichMetadataWithAPIs e tr ttl art alb = (Inr r1, tr1)"
    using s by (auto simp: enrichMetadataWithAPIs_def)
  have b: "r1 = None \<Longrightarrow> r2 \<noteq> None \<Longrightarrow> enrichMetadataWithAPIs e tr ttl art alb = (Inr r2, tr2)"
    using s l by (auto simp: enrichMetadataWithAPIs_def)
  have c: "r1 = None \<Longrightarrow> r2 = None \<Longrightarrow> enrichMetadataWithAPIs e tr ttl art alb = (Inr r3, tr3)"
    using s l m by (cases r3) (auto simp: enrichMetadataWithAPIs_def)
  show ?thesis using s l m a b c by blast
qed

text \<open>
  Claim C8, as amended. The enrichment never throws to its caller: the orchestrator, and
  the handler code around it, return a value for every input and every behaviour of the
  providers. The providers are tried in order: the result is the record of the first
  block that returns one, each block starting from the requests made before it, and
  \<open>null\<close> when no block returns one. The Spotify block returns no record when the token
  request fails, or when every search request fails, is refused, does not parse or finds
  nothing. The Last.fm and the MusicBrainz block return no record when the search fails,
  is refused, does not parse or finds nothing, when the details request does, and when
  building the record throws. A failure of the artist or album request of Spotify does not
  make the block return nothing: the accepted candidate is returned, unchanged when the
  artist request has a transport error.
\<close>

theorem never_throws:
  "(\<exists>r tr'. enrichMetadataWithAPIs e tr ttl art alb = (Inr r, tr'))
   \<and> (\<exists>r tr'. importMetadata e tr rawTitle = (Inr r, tr'))
   \<and> (\<exists>r1 tr1. spotifyStage e tr ttl art alb = (Inr r1, tr1)
        \<and> (r1 \<noteq> None \<longrightarrow> enrichMetadataWithAPIs e tr ttl art alb = (Inr r1, tr1))
        \<and> (r1 = None \<longrightarrow>
             (\<exists>r2 tr2. lastfmStage e tr1 ttl art alb = (Inr r2, tr2)
                \<and> (r2 \<noteq> None \<longrightarrow> enrichMetadataWithAPIs e tr ttl art alb = (Inr r2, tr2))
                \<and> (r2 = None \<longrightarrow>
                     (\<exists>r3 tr3. musicbrainzStage e tr2 ttl art alb = (Inr r3, tr3)
                        \<and> enrichMetadataWithAPIs e tr ttl art alb = (Inr r3, tr3))))))
   \<and> (auth_fails (token_reply e tr) \<longrightarrow>
        spotifyStage e tr ttl art alb = (Inr None, tr @ [SpotifyToken]))
   \<and> ((\<forall>t q. yields_nothing (search_reply e t q)) \<longrightarrow>
        (\<exists>tr'. spotifyStage e tr ttl art alb = (Inr None, tr')))
   \<and> (yields_nothing (lastfm_search_reply e tr ttl (knownArtist (Some art))) \<longrightarrow>
        lastfmStage e tr ttl art alb
          = (Inr None, tr @ [LastFmSearch ttl (knownArtist (Some art))]))
   \<and> (lastfm_search_reply e tr ttl (knownArtist (Some art)) = Resp True (Some (h # hs))
        \<and> (no_details (lastfm_info_reply e (tr @ [LastFmSearch ttl (knownArtist (Some art))])
                          ttl art)
            \<or> (\<exists>info err.
                  lastfm_info_reply e (tr @ [LastFmSearch ttl (knownArtist (Some art))]) ttl art
                    = Resp True (Some (Some info))
                \<and> lastfmRecord info ttl art alb = Inl err)) \<longrightarrow>
        lastfmStage e tr ttl art alb
          = (Inr None, tr @ [LastFmSearch ttl (knownArtist (Some art)), LastFmInfo ttl art]))
   \<and> (yields_nothing (mb_search_reply e tr ttl (knownArtist (Some art))) \<longrightarrow>
        musicbrainzStage e tr ttl art alb
          = (Inr None, tr @ [MusicBrainzSearch ttl (knownArtist (Some art))]))
   \<and> (mb_search_reply e tr ttl (knownArtist (Some art)) = Resp True (Some (i # ids))
        \<and> (no_details (mb_recording_reply e
                          (tr @ [MusicBrainzSearch ttl (knownArtist (Some art))]) i)
            \<or> (\<exists>rec err.
                  mb_recording_reply e (tr @ [MusicBrainzSearch ttl (knownArtist (Some art))]) i
                    = Resp True (Some (Some rec))
                \<and> musicbrainzRecord rec ttl art alb = Inl err)) \<longrightarrow>
        musicbrainzStage e tr ttl art alb
          = (Inr None,
             tr @ [MusicBrainzSearch ttl (knownArtist (Some art)), MusicBrainzRecording i]))
   \<and> ((\<forall>t q. yields_nothing (search_reply e t q))
        \<and> (\<forall>t. yields_nothing (lastfm_search_reply e t ttl (knownArtist (Some art))))
        \<and> (\<forall>t. yields_nothing (mb_search_reply e t ttl (knownArtist (Some art)))) \<longrightarrow>
        (\<exists>tr'. enrichMetadataWithAPIs e tr ttl art alb = (Inr None, tr')))
   \<and> (token_reply e tr = Resp ok (Some data) \<and> truthy (access_token data)
        \<and> buildSearchQueries ttl (js_or (Some art) ''Unknown Artist'') = q # qs
        \<and> search_reply e (tr @ [SpotifyToken]) q = Resp True (Some items) \<and> items \<noteq> []
        \<and> findBestMatch items ttl (Some (js_or (Some art) ''Unknown Artist''))
            = Some (track, Some s)
        \<and> 7 / 10 < s \<longrightarrow>
        (\<exists>t' this0 this1 tr1.
            enrichTrackData e this0 (tr @ [SpotifyToken, SpotifySearch q]) track
              = (Inr t', this1, tr1)
          \<and> spotifyStage e tr ttl art alb = (Inr (Some (toEnriched t')), tr1)
          \<and> enrichMetadataWithAPIs e tr ttl art alb = (Inr (Some (toEnriched t')), tr1)
          \<and> same_track track t'
          \<and> ((\<forall>t a. artist_reply e t a = NetFail) \<and> t_artists track \<noteq> [] \<longrightarrow> t' = track)))"
proof -
  have c7: "lastfm_search_reply e tr ttl (knownArtist (Some art)) = Resp True (Some (h # hs))
        \<and> (no_details (lastfm_info_reply e (tr @ [LastFmSearch ttl (knownArtist (Some art))])
                          ttl art)
            \<or> (\<exists>info err.
                  lastfm_info_reply e (tr @ [LastFmSearch ttl (knownArtist (Some art))]) ttl art
                    = Resp True (Some (Some info))
                \<and> lastfmRecord info ttl art alb = Inl err)) \<longrightarrow>
        lastfmStage e tr ttl art alb
          = (Inr None, tr @ [LastFmSearch ttl (knownArtist (Some art)), LastFmInfo ttl art])"
    using lastfmStage_no_info[of e tr ttl art h hs alb] lastfmStage_throws[of e tr ttl art h hs]
    by blast
  have c9: "mb_search_reply e tr ttl (knownArtist (Some art)) = Resp True (Some (i # ids))
        \<and> (no_details (mb_recording_reply e
                          (tr @ [MusicBrainzSearch ttl (knownArtist (Some art))]) i)
            \<or> (\<exists>rec err.
                  mb_recording_reply e (tr @ [MusicBrainzSearch ttl (knownArtist (Some art))]) i
                    = Resp True (Some (Some rec))
                \<and> musicbrainzRecord rec ttl art alb = Inl err)) \<longrightarrow>
        musicbrainzStage e tr ttl art alb
          = (Inr None,
             tr @ [MusicBrainzSearch ttl (knownArtist (Some art)), MusicBrainzRecording i])"
    using musicbrainzStage_no_recording[of e tr ttl art i ids alb]
      musicbrainzStage_throws[of e tr ttl art i ids]
    by blast
  have c11: "token_reply e tr = Resp ok (Some data) \<and> truthy (access_token data)
        \<and> buildSearchQueries ttl (js_or (Some art) ''Unknown Artist'') = q # qs
        \<and> search_reply e (tr @ [SpotifyToken]) q = Resp True (Some items) \<and> items \<noteq> []
        \<and> findBestMatch items ttl (Some (js_or (Some art) ''Unknown Artist''))
            = Some (track, Some s)
        \<and> 7 / 10 < s \<longrightarrow>
        (\<exists>t' this0 this1 tr1.
            enrichTrackData e this0 (tr @ [SpotifyToken, SpotifySearch q]) track
              = (Inr t', this1, tr1)
          \<and> spotifyStage e tr ttl art alb = (Inr (Some (toEnriched t')), tr1)
          \<and> enrichMetadataWithAPIs e tr ttl art alb = (Inr (Some (toEnriched t')), tr1)
          \<and> same_track track t'
          \<and> ((\<forall>t a. artist_reply e t a = NetFail) \<and> t_artists track \<noteq> [] \<longrightarrow> t' = track))"
  proof (intro impI, elim conjE)
    assume h: "token_reply e tr = Resp ok (Some data)" "truthy (access_token data)"
      "buildSearchQueries ttl (js_or (Some art) ''Unknown Artist'') = q # qs"
      "search_reply e (tr @ [SpotifyToken]) q = Resp True (Some items)" "items \<noteq> []"
      "findBestMatch items ttl (Some (js_or (Some art) ''Unknown Artist'')) = Some (track, Some s)"
      "7 / 10 < s"
    from spotifyStage_first_query[OF h, of alb] obtain t' this0 this1 tr1 where
      t: "enrichTrackData e this0 (tr @ [SpotifyToken, SpotifySearch q]) track = (Inr t', this1, tr1)"
         "spotifyStage e tr ttl art alb = (Inr (Some (toEnriched t')), tr1)"
         "same_track track t'"
      by blast
    have o: "enrichMetadataWithAPIs e tr ttl art alb = (Inr (Some (toEnriched t')), tr1)"
      using t(2) by (simp add: enrichMetadataWithAPIs_def)
    have d: "(\<forall>t a. artist_reply e t a = NetFail) \<and> t_artists track \<noteq> [] \<longrightarrow> t' = track"
      using enrichTrackData_artist_down[of e track this0 "tr @ [SpotifyToken, SpotifySearch q]"] t(1)
      by auto
    show "\<exists>t' this0 this1 tr1.
            enrichTrackData e this0 (tr @ [SpotifyToken, SpotifySearch q]) track
              = (Inr t', this1, tr1)
          \<and> spotifyStage e tr ttl art alb = (Inr (Some (toEnriched t')), tr1)
          \<and> enrichMetadataWithAPIs e tr ttl art alb = (Inr (Some (toEnriched t')), tr1)
          \<and> same_track track t'
          \<and> ((\<forall>t a. artist_reply e t a = NetFail) \<and> t_artists track \<noteq> [] \<longrightarrow> t' = track)"
      using t o d by blast
  qed
  have c4: "auth_fails (token_reply e tr) \<longrightarrow>
        spotifyStage e tr ttl art alb = (Inr None, tr @ [SpotifyToken])"
    using spotifyStage_auth_fails[of e tr ttl art alb] by blast
  have c5: "(\<forall>t q. yields_nothing (search_reply e t q)) \<longrightarrow>
        (\<exists>tr'. spotifyStage e tr ttl art alb = (Inr None, tr'))"
    using spotifyStage_silent[of e tr ttl art alb] by blast
  have c6: "yields_nothing (lastfm_search_reply e tr ttl (knownArtist (Some art))) \<longrightarrow>
        lastfmStage e tr ttl art alb
          = (Inr None, tr @ [LastFmSearch ttl (knownArtist (Some art))])"
    using lastfmStage_silent[of e tr ttl art alb] by blast
  have c8: "yields_nothing (mb_search_reply e tr ttl (knownArtist (Some art))) \<longrightarrow>
        musicbrainzStage e tr ttl art alb
          = (Inr None, tr @ [MusicBrainzSearch ttl (knownArtist (Some art))])"
    using musicbrainzStage_silent[of e tr ttl art alb] by blast
  have c10: "(\<forall>t q. yields_nothing (search_reply e t q))
        \<and> (\<forall>t. yields_nothing (lastfm_search_reply e t ttl (knownArtist (Some art))))
        \<and> (\<forall>t. yields_nothing (mb_search_reply e t ttl (knownArtist (Some art)))) \<longrightarrow>
        (\<exists>tr'. enrichMetadataWithAPIs e tr ttl art alb = (Inr None, tr'))"
    using all_silent[of e ttl art tr alb] by blast
  show ?thesis
    using enrichMetadataWithAPIs_Inr[of e tr ttl art alb] importMetadata_Inr[of e tr rawTitle]
      orchestrator_chain[of e tr ttl art alb] c4 c5 c6 c7 c8 c9 c10 c11
    by (intro conjI) assumption+
qed

section \<open>The example environments, evaluated\<close>

lemma ex_spotify_stage:
  "spotifyStage (env_spotify [example_track ''Hurt'' ''NIN'' 60]) [] ''Hurt'' ''NIN''
     ''Unknown Album''
   = (Inr (Some \<lparr>artist = ''NIN'', album = ''An Album'', title = ''Hurt'',
                  releaseDate = ''2016-06-01'', duration = Some 3, genres = [''rock''],
                  popularity = 60, spotifyId = Some ''t1'', albumCover = None,
                  artistId = Some ''a1'', albumId = Some ''b1''\<rparr>),
      [SpotifyToken, SpotifySearch (artistTrackQuery ''NIN'' ''Hurt''),
       SpotifyArtist ''a1'', SpotifyAlbum ''b1''])"
  by code_simp

lemma ex_lastfm:
  "enrichMetadataWithAPIs env_lastfm [] ''Big Smoke'' ''Tash Sultana'' ''Unknown Album''
   = (Inr (Some \<lparr>artist = ''Packaday'', album = ''Unknown Album'', title = ''Dreams'',
                  releaseDate = [], duration = Some 215, genres = [''pop''], popularity = 0,
                  spotifyId = None, albumCover = None, artistId = None, albumId = None\<rparr>),
      [SpotifyToken, LastFmSearch ''Big Smoke'' (Some ''Tash Sultana''),
       LastFmInfo ''Big Smoke'' ''Tash Sultana''])"
  by code_simp

lemma ex_score_other:
  "calculateSimilarityScore (example_track ''Dreams'' ''Packaday'' 0) ''Big Smoke''
     (Some ''Tash Sultana'') = Some 0"
  by code_simp

lemma ex_lastfm_record:
  "lastfmRecord other_song ''Big Smoke'' ''Tash Sultana'' ''Unknown Album''
   = Inr \<lparr>artist = ''Packaday'', album = ''Unknown Album'', title = ''Dreams'',
           releaseDate = [], duration = Some 215, genres = [''pop''], popularity = 0,
           spotifyId = None, albumCover = None, artistId = None, albumId = None\<rparr>"
  by code_simp

lemma ex_musicbrainz_record:
  "musicbrainzRecord other_recording ''Big Smoke'' ''Tash Sultana'' ''Unknown Album''
   = Inr \<lparr>artist = ''Packaday'', album = ''Unknown Album'', title = ''Dreams'',
           releaseDate = [], duration = Some 3, genres = [], popularity = 0,
           spotifyId = None, albumCover = None, artistId = Some ''a9'', albumId = None\<rparr>"
  by code_simp

lemma ex_known_artist: "knownArtist (Some ''Tash Sultana'') = Some ''Tash Sultana''"
  by code_simp


theorem primary_short_circuit_witness:
  "spotifyStage (env_spotify [example_track ''Hurt'' ''NIN'' 60]) [] ''Hurt'' ''NIN''
     ''Unknown Album''
   = (Inr (Some \<lparr>artist = ''NIN'', album = ''An Album'', title = ''Hurt'',
                  releaseDate = ''2016-06-01'', duration = Some 3, genres = [''rock''],
                  popularity = 60, spotifyId = Some ''t1'', albumCover = None,
                  artistId = Some ''a1'', albumId = Some ''b1''\<rparr>),
      [SpotifyToken, SpotifySearch (artistTrackQuery ''NIN'' ''Hurt''),
       SpotifyArtist ''a1'', SpotifyAlbum ''b1''])
   \<and> enrichMetadataWithAPIs (env_spotify [example_track ''Hurt'' ''NIN'' 60]) [] ''Hurt''
       ''NIN'' ''Unknown Album''
     = (Inr (Some \<lparr>artist = ''NIN'', album = ''An Album'', title = ''Hurt'',
                    releaseDate = ''2016-06-01'', duration = Some 3, genres = [''rock''],
                    popularity = 60, spotifyId = Some ''t1'', albumCover = None,
                    artistId = Some ''a1'', albumId = Some ''b1''\<rparr>),
        [SpotifyToken, SpotifySearch (artistTrackQuery ''NIN'' ''Hurt''),
         SpotifyArtist ''a1'', SpotifyAlbum ''b1''])
   \<and> map provider_of
        [SpotifyToken, SpotifySearch (artistTrackQuery ''NIN'' ''Hurt''),
         SpotifyArtist ''a1'', SpotifyAlbum ''b1'']
       = [Spotify, Spotify, Spotify, Spotify]"
  using primary_short_circuit[OF ex_spotify_stage] ex_spotify_stage by simp

theorem scoring_is_primary_only_witness:
  "spotifyStage (env_spotify [example_track ''Hurt'' ''NIN'' 60]) [] ''Hurt'' ''NIN''
     ''Unknown Album''
   = (Inr (Some \<lparr>artist = ''NIN'', album = ''An Album'', title = ''Hurt'',
                  releaseDate = ''2016-06-01'', duration = Some 3, genres = [''rock''],
                  popularity = 60, spotifyId = Some ''t1'', albumCover = None,
                  artistId = Some ''a1'', albumId = Some ''b1''\<rparr>),
      [SpotifyToken, SpotifySearch (artistTrackQuery ''NIN'' ''Hurt''),
       SpotifyArtist ''a1'', SpotifyAlbum ''b1''])
   \<and> (\<exists>items track s. offered (env_spotify [example_track ''Hurt'' ''NIN'' 60]) items
         \<and> track \<in> set items
         \<and> calculateSimilarityScore track ''Hurt'' (Some ''NIN'') = Some s \<and> 7 / 10 < s)
   \<and> lastfmStage env_lastfm [] ''Big Smoke'' ''Tash Sultana'' ''Unknown Album''
     = (Inr (Some \<lparr>artist = ''Packaday'', album = ''Unknown Album'', title = ''Dreams'',
                    releaseDate = [], duration = Some 215, genres = [''pop''], popularity = 0,
                    spotifyId = None, albumCover = None, artistId = None, albumId = None\<rparr>),
        [LastFmSearch ''Big Smoke'' (Some ''Tash Sultana''),
         LastFmInfo ''Big Smoke'' ''Tash Sultana''])
   \<and> musicbrainzStage env_musicbrainz [] ''Big Smoke'' ''Tash Sultana'' ''Unknown Album''
     = (Inr (Some \<lparr>artist = ''Packaday'', album = ''Unknown Album'', title = ''Dreams'',
                    releaseDate = [], duration = Some 3, genres = [], popularity = 0,
                    spotifyId = None, albumCover = None, artistId = Some ''a9'',
                    albumId = None\<rparr>),
        [MusicBrainzSearch ''Big Smoke'' (Some ''Tash Sultana''), MusicBrainzRecording ''r1''])"
proof -
  have jo: "js_or (Some ''NIN'') ''Unknown Artist'' = ''NIN''" by code_simp
  have a: "\<exists>items track s. offered (env_spotify [example_track ''Hurt'' ''NIN'' 60]) items
         \<and> track \<in> set items
         \<and> calculateSimilarityScore track ''Hurt'' (Some ''NIN'') = Some s \<and> 7 / 10 < s"
    using scoring_is_primary_only[where e = "env_spotify [example_track ''Hurt'' ''NIN'' 60]"
            and tr = "[]" and ttl = "''Hurt''" and art = "''NIN''" and alb = "''Unknown Album''",
            THEN conjunct1, rule_format, OF ex_spotify_stage]
    unfolding jo by blast
  have l1: "lastfm_search_reply env_lastfm [] ''Big Smoke'' (knownArtist (Some ''Tash Sultana''))
              = Resp True (Some [()])"
    by (simp add: env_lastfm_def)
  have l2: "lastfm_info_reply env_lastfm
              ([] @ [LastFmSearch ''Big Smoke'' (knownArtist (Some ''Tash Sultana''))])
              ''Big Smoke'' ''Tash Sultana'' = Resp True (Some (Some other_song))"
    by (simp add: env_lastfm_def)
  have b: "lastfmStage env_lastfm [] ''Big Smoke'' ''Tash Sultana'' ''Unknown Album''
     = (Inr (Some \<lparr>artist = ''Packaday'', album = ''Unknown Album'', title = ''Dreams'',
                    releaseDate = [], duration = Some 215, genres = [''pop''], popularity = 0,
                    spotifyId = None, albumCover = None, artistId = None, albumId = None\<rparr>),
        [LastFmSearch ''Big Smoke'' (Some ''Tash Sultana''),
         LastFmInfo ''Big Smoke'' ''Tash Sultana''])"
    using scoring_is_primary_only[where e = env_lastfm and tr = "[]" and ttl = "''Big Smoke''"
            and art = "''Tash Sultana''" and alb = "''Unknown Album''"
            and trl = "[LastFmSearch ''Big Smoke'' (Some ''Tash Sultana''),
                        LastFmInfo ''Big Smoke'' ''Tash Sultana'']",
            THEN conjunct2, THEN conjunct1, THEN iffD2]
      l1 l2 ex_lastfm_record
    by (auto simp: ex_known_artist)
  have m1: "mb_search_reply env_musicbrainz [] ''Big Smoke'' (knownArtist (Some ''Tash Sultana''))
              = Resp True (Some [''r1''])"
    by (simp add: env_musicbrainz_def)
  have m2: "mb_recording_reply env_musicbrainz
              ([] @ [MusicBrainzSearch ''Big Smoke'' (knownArtist (Some ''Tash Sultana''))])
              ''r1'' = Resp True (Some (Some other_recording))"
    by (simp add: env_musicbrainz_def)
  have c: "musicbrainzStage env_musicbrainz [] ''Big Smoke'' ''Tash Sultana'' ''Unknown Album''
     = (Inr (Some \<lparr>artist = ''Packaday'', album = ''Unknown Album'', title = ''Dreams'',
                    releaseDate = [], duration = Some 3, genres = [], popularity = 0,
                    spotifyId = None, albumCover = None, artistId = Some ''a9'',
                    albumId = None\<rparr>),
        [MusicBrainzSearch ''Big Smoke'' (Some ''Tash Sultana''), MusicBrainzRecording ''r1''])"
    using scoring_is_primary_only[where e = env_musicbrainz and tr = "[]"
            and ttl = "''Big Smoke''" and art = "''Tash Sultana''" and alb = "''Unknown Album''"
            and trb = "[MusicBrainzSearch ''Big Smoke'' (Some ''Tash Sultana''),
                        MusicBrainzRecording ''r1'']",
            THEN conjunct2, THEN conjunct2, THEN iffD2]
      m1 m2 ex_musicbrainz_record
    by (auto simp: ex_known_artist)
  show ?thesis using ex_spotify_stage a b c by blast
qed

theorem scoring_counterexample:
  "enrichMetadataWithAPIs env_lastfm [] ''Big Smoke'' ''Tash Sultana'' ''Unknown Album''
   = (Inr (Some \<lparr>artist = ''Packaday'', album = ''Unknown Album'', title = ''Dreams'',
                  releaseDate = [], duration = Some 215, genres = [''pop''], popularity = 0,
                  spotifyId = None, albumCover = None, artistId = None, albumId = None\<rparr>),
      [SpotifyToken, LastFmSearch ''Big Smoke'' (Some ''Tash Sultana''),
       LastFmInfo ''Big Smoke'' ''Tash Sultana''])
   \<and> calculateSimilarityScore (example_track ''Dreams'' ''Packaday'' 0) ''Big Smoke''
       (Some ''Tash Sultana'') = Some 0"
  using ex_lastfm ex_score_other by simp

lemma ex_artist_down:
  "enrichMetadataWithAPIs
     ((env_spotify [example_track ''Hurt'' ''NIN'' 60])\<lparr>artist_reply := (\<lambda>tr i. NetFail)\<rparr>)
     [] ''Hurt'' ''NIN'' ''Unknown Album''
   = (Inr (Some \<lparr>artist = ''NIN'', album = ''An Album'', title = ''Hurt'',
                  releaseDate = ''2016-06-01'', duration = Some 3, genres = [],
                  popularity = 60, spotifyId = Some ''t1'', albumCover = None,
                  artistId = Some ''a1'', albumId = Some ''b1''\<rparr>),
      [SpotifyToken, SpotifySearch (artistTrackQuery ''NIN'' ''Hurt''), SpotifyArtist ''a1''])"
  by code_simp

lemma ex_queries:
  "buildSearchQueries ''Hurt'' (js_or (Some ''NIN'') ''Unknown Artist'')
   = artistTrackQuery ''NIN'' ''Hurt''
     # [''NIN Hurt'', ''Hurt NIN'', artistTrackQuery ''NIN'' ''Hurt'', ''NIN Hurt'',
        trackQuery ''Hurt'', ''Hurt'']"
  by code_simp

lemma ex_best_one:
  "findBestMatch [example_track ''Hurt'' ''NIN'' 60] ''Hurt''
     (Some (js_or (Some ''NIN'') ''Unknown Artist''))
   = Some (example_track ''Hurt'' ''NIN'' 60, Some (9007199254740991 / 9007199254740992))"
  by code_simp

lemma ex_enriched_plain:
  "toEnriched (example_track ''Hurt'' ''NIN'' 60)
   = \<lparr>artist = ''NIN'', album = ''An Album'', title = ''Hurt'',
      releaseDate = ''2016-06-01'', duration = Some 3, genres = [],
      popularity = 60, spotifyId = Some ''t1'', albumCover = None,
      artistId = Some ''a1'', albumId = Some ''b1''\<rparr>"
  by code_simp

theorem never_throws_witness:
  "spotifyStage env_down [] ''Hurt'' ''NIN'' ''Unknown Album'' = (Inr None, [SpotifyToken])
   \<and> lastfmStage env_down [SpotifyToken] ''Hurt'' ''NIN'' ''Unknown Album''
       = (Inr None, [SpotifyToken, LastFmSearch ''Hurt'' (Some ''NIN'')])
   \<and> musicbrainzStage env_down [] ''Hurt'' ''NIN'' ''Unknown Album''
       = (Inr None, [MusicBrainzSearch ''Hurt'' (Some ''NIN'')])
   \<and> (\<exists>tr'. enrichMetadataWithAPIs env_down [] ''Hurt'' ''NIN'' ''Unknown Album''
               = (Inr None, tr'))
   \<and> (\<exists>r tr'. importMetadata env_down [] ''NIN - Hurt'' = (Inr r, tr'))
   \<and> lastfmStage (env_down\<lparr>lastfm_search_reply := (\<lambda>tr t a. Resp True (Some [()]))\<rparr>) []
        ''Hurt'' ''NIN'' ''Unknown Album''
       = (Inr None, [LastFmSearch ''Hurt'' (Some ''NIN''), LastFmInfo ''Hurt'' ''NIN''])
   \<and> musicbrainzStage (env_down\<lparr>mb_search_reply := (\<lambda>tr t a. Resp True (Some [''r1'']))\<rparr>) []
        ''Hurt'' ''NIN'' ''Unknown Album''
       = (Inr None, [MusicBrainzSearch ''Hurt'' (Some ''NIN''), MusicBrainzRecording ''r1''])
   \<and> (\<exists>tr1. enrichMetadataWithAPIs
               ((env_spotify [example_track ''Hurt'' ''NIN'' 60])
                  \<lparr>artist_reply := (\<lambda>tr i. NetFail)\<rparr>)
               [] ''Hurt'' ''NIN'' ''Unknown Album''
             = (Inr (Some \<lparr>artist = ''NIN'', album = ''An Album'', title = ''Hurt'',
                            releaseDate = ''2016-06-01'', duration = Some 3, genres = [],
                            popularity = 60, spotifyId = Some ''t1'', albumCover = None,
                            artistId = Some ''a1'', albumId = Some ''b1''\<rparr>), tr1))"
proof -
  have ka: "knownArtist (Some ''NIN'') = Some ''NIN''" by code_simp
  have h1: "auth_fails (token_reply env_down [])" by (simp add: env_down_def auth_fails_def)
  have h2: "\<forall>t q. yields_nothing (search_reply env_down t q)"
    by (simp add: env_down_def yields_nothing_def)
  have h3: "\<forall>t. yields_nothing (lastfm_search_reply env_down t ''Hurt'' (knownArtist (Some ''NIN'')))"
    by (simp add: env_down_def yields_nothing_def)
  have h4: "\<forall>t. yields_nothing (mb_search_reply env_down t ''Hurt'' (knownArtist (Some ''NIN'')))"
    by (simp add: env_down_def yields_nothing_def)
  note t1 = never_throws[where e = env_down and tr = "[]" and ttl = "''Hurt''" and art = "''NIN''"
              and alb = "''Unknown Album''" and rawTitle = "''NIN - Hurt''"]
  note t2 = never_throws[where e = env_down and tr = "[SpotifyToken]" and ttl = "''Hurt''"
              and art = "''NIN''" and alb = "''Unknown Album''" and rawTitle = "''NIN - Hurt''"]
  note n2 = conjunct2[THEN conjunct2]
  note n4 = n2[THEN n2]
  have a1: "spotifyStage env_down [] ''Hurt'' ''NIN'' ''Unknown Album'' = (Inr None, [SpotifyToken])"
    using t1[THEN n2, THEN conjunct2, THEN conjunct1] h1 by simp
  have a2: "lastfmStage env_down [SpotifyToken] ''Hurt'' ''NIN'' ''Unknown Album''
       = (Inr None, [SpotifyToken, LastFmSearch ''Hurt'' (Some ''NIN'')])"
    using t2[THEN n4, THEN conjunct2, THEN conjunct1] h3 by (simp add: ka)
  have a3: "musicbrainzStage env_down [] ''Hurt'' ''NIN'' ''Unknown Album''
       = (Inr None, [MusicBrainzSearch ''Hurt'' (Some ''NIN'')])"
    using t1[THEN n4, THEN n2, THEN conjunct2, THEN conjunct1] h4 by (simp add: ka)
  have a4: "\<exists>tr'. enrichMetadataWithAPIs env_down [] ''Hurt'' ''NIN'' ''Unknown Album''
               = (Inr None, tr')"
    using t1[THEN n4, THEN n4, THEN conjunct2, THEN conjunct1] h2 h3 h4 by blast
  have a5: "\<exists>r tr'. importMetadata env_down [] ''NIN - Hurt'' = (Inr r, tr')"
    using t1[THEN conjunct2, THEN conjunct1] .
  let ?l = "env_down\<lparr>lastfm_search_reply := (\<lambda>tr t a. Resp True (Some [()]))\<rparr>"
  have l1: "lastfm_search_reply ?l [] ''Hurt'' (knownArtist (Some ''NIN'')) = Resp True (Some (() # []))"
    by simp
  have l2: "no_details (lastfm_info_reply ?l ([] @ [LastFmSearch ''Hurt'' (knownArtist (Some ''NIN''))])
              ''Hurt'' ''NIN'')"
    by (simp add: env_down_def no_details_def)
  have a6: "lastfmStage ?l [] ''Hurt'' ''NIN'' ''Unknown Album''
       = (Inr None, [LastFmSearch ''Hurt'' (Some ''NIN''), LastFmInfo ''Hurt'' ''NIN''])"
    using never_throws[where e = ?l and tr = "[]" and ttl = "''Hurt''" and art = "''NIN''"
              and alb = "''Unknown Album''" and h = "()" and hs = "[]",
              THEN n4, THEN n2, THEN conjunct1, rule_format, OF conjI[OF l1 disjI1[OF l2]]]
    by (simp add: ka)
  let ?m = "env_down\<lparr>mb_search_reply := (\<lambda>tr t a. Resp True (Some [''r1'']))\<rparr>"
  have m1: "mb_search_reply ?m [] ''Hurt'' (knownArtist (Some ''NIN'')) = Resp True (Some (''r1'' # []))"
    by simp
  have m2: "no_details (mb_recording_reply ?m ([] @ [MusicBrainzSearch ''Hurt'' (knownArtist (Some ''NIN''))])
              ''r1'')"
    by (simp add: env_down_def no_details_def)
  have a7: "musicbrainzStage ?m [] ''Hurt'' ''NIN'' ''Unknown Album''
       = (Inr None, [MusicBrainzSearch ''Hurt'' (Some ''NIN''), MusicBrainzRecording ''r1''])"
    using never_throws[where e = ?m and tr = "[]" and ttl = "''Hurt''" and art = "''NIN''"
              and alb = "''Unknown Album''" and i = "''r1''" and ids = "[]",
              THEN n4, THEN n4, THEN conjunct1, rule_format, OF conjI[OF m1 disjI1[OF m2]]]
    by (simp add: ka)
  let ?A = "example_track ''Hurt'' ''NIN'' 60"
  let ?e = "(env_spotify [?A])\<lparr>artist_reply := (\<lambda>tr i. NetFail)\<rparr>"
  have s1: "token_reply ?e [] = Resp True (Some \<lparr>access_token = Some ''token'', expires_in = Some 3600\<rparr>)"
    by (simp add: env_spotify_def)
  have s2: "truthy (access_token \<lparr>access_token = Some ''token'', expires_in = Some 3600\<rparr>)"
    by (simp add: truthy_def str_truthy_def)
  have s3: "search_reply ?e ([] @ [SpotifyToken]) (artistTrackQuery ''NIN'' ''Hurt'')
              = Resp True (Some [?A])"
    by (simp add: env_spotify_def)
  have s4: "[?A] \<noteq> []" by simp
  have s5: "7 / 10 < (9007199254740991 / 9007199254740992 :: rat)" by simp
  have s6: "\<forall>t a. artist_reply ?e t a = NetFail" by simp
  have s7: "t_artists ?A \<noteq> []" by (simp add: example_track_def)
  from never_throws[where e = ?e and tr = "[]" and ttl = "''Hurt''" and art = "''NIN''"
          and alb = "''Unknown Album''" and ok = True
          and data = "\<lparr>access_token = Some ''token'', expires_in = Some 3600\<rparr>"
          and q = "artistTrackQuery ''NIN'' ''Hurt''"
          and qs = "[''NIN Hurt'', ''Hurt NIN'', artistTrackQuery ''NIN'' ''Hurt'', ''NIN Hurt'',
                     trackQuery ''Hurt'', ''Hurt'']"
          and items = "[?A]" and track = ?A and s = "9007199254740991 / 9007199254740992",
          THEN n4, THEN n4, THEN n2, rule_format,
          OF conjI[OF s1 conjI[OF s2 conjI[OF ex_queries conjI[OF s3 conjI[OF s4
               conjI[OF ex_best_one s5]]]]]]]
  obtain t' tr1 where
    b: "enrichMetadataWithAPIs ?e [] ''Hurt'' ''NIN'' ''Unknown Album''
          = (Inr (Some (toEnriched t')), tr1)"
       "(\<forall>t a. artist_reply ?e t a = NetFail) \<and> t_artists ?A \<noteq> [] \<longrightarrow> t' = ?A"
    by blast
  have "t' = ?A" using b(2) s6 s7 by blast
  then have a8: "\<exists>tr1. enrichMetadataWithAPIs ?e [] ''Hurt'' ''NIN'' ''Unknown Album''
             = (Inr (Some \<lparr>artist = ''NIN'', album = ''An Album'', title = ''Hurt'',
                            releaseDate = ''2016-06-01'', duration = Some 3, genres = [],
                            popularity = 60, spotifyId = Some ''t1'', albumCover = None,
                            artistId = Some ''a1'', albumId = Some ''b1''\<rparr>), tr1)"
    using b(1) ex_enriched_plain by auto
  show ?thesis using a1 a2 a3 a4 a5 a6 a7 a8 by (intro conjI) assumption+
qed

theorem never_throws_counterexample:
  "artist_reply
     ((env_spotify [example_track ''Hurt'' ''NIN'' 60])\<lparr>artist_reply := (\<lambda>tr i. NetFail)\<rparr>)
     [SpotifyToken, SpotifySearch (artistTrackQuery ''NIN'' ''Hurt'')] ''a1'' = NetFail
   \<and> enrichMetadataWithAPIs
       ((env_spotify [example_track ''Hurt'' ''NIN'' 60])\<lparr>artist_reply := (\<lambda>tr i. NetFail)\<rparr>)
       [] ''Hurt'' ''NIN'' ''Unknown Album''
     = (Inr (Some \<lparr>artist = ''NIN'', album = ''An Album'', title = ''Hurt'',
                    releaseDate = ''2016-06-01'', duration = Some 3, genres = [],
                    popularity = 60, spotifyId = Some ''t1'', albumCover = None,
                    artistId = Some ''a1'', albumId = Some ''b1''\<rparr>),
        [SpotifyToken, SpotifySearch (artistTrackQuery ''NIN'' ''Hurt''), SpotifyArtist ''a1''])"
  using ex_artist_down by simp

section \<open>Validation of the enriched record\<close>




section \<open>Matching, step by step\<close>

lemma run_cat_Nil: "run ic (cat []) st = [st]"
  by (simp add: cat_def)

lemma run_cat_Cons: "run ic (cat (r # rs)) st = concat (map (run ic (cat rs)) (run ic r st))"
  by (simp add: cat_def)

lemma concat_map_last_only:
  assumes "\<And>j. j < k \<Longrightarrow> n \<le> j \<Longrightarrow> f j = []" and "n \<le> k"
  shows "concat (map f (rev [n..<Suc k])) = f k"
proof -
  have "rev [n..<Suc k] = k # rev [n..<k]" using assms(2) by simp
  moreover have "concat (map f (rev [n..<k])) = []" using assms(1) by auto
  ultimately show ?thesis by simp
qed

lemma concat_map_first_hit:
  assumes "\<And>j. n \<le> j \<Longrightarrow> j < m \<Longrightarrow> f j = []" and "n \<le> m" and "m \<le> k"
  shows "\<exists>more. concat (map f [n..<Suc k]) = f m @ more"
proof -
  have "[n..<Suc k] = [n..<m] @ [m..<Suc k]"
    using upt_add_eq_append[of n m "Suc k - m"] assms(2,3) by simp
  moreover have "[m..<Suc k] = m # [Suc m..<Suc k]"
    using assms(3) by (simp add: upt_conv_Cons)
  ultimately have eq: "[n..<Suc k] = [n..<m] @ m # [Suc m..<Suc k]" by simp
  have nil: "concat (map f [n..<m]) = []" using assms(1) by auto
  have "concat (map f [n..<Suc k]) = f m @ concat (map f [Suc m..<Suc k])"
    by (simp only: eq map_append concat_append nil append_Nil list.map concat.simps)
  then show ?thesis by blast
qed

lemma run_Rep_greedy:
  "run ic (Cat (Rep a n True) R) (i, s, c)
   = concat (map (\<lambda>j. run ic R (i + j, drop j s, c))
       (rev [n..<Suc (length (takeWhile (cmatch ic a) s))]))"
  by (simp add: Let_def comp_def)

lemma run_Rep_lazy:
  "run ic (Cat (Rep a n False) R) (i, s, c)
   = concat (map (\<lambda>j. run ic R (i + j, drop j s, c))
       [n..<Suc (length (takeWhile (cmatch ic a) s))])"
  by (simp add: Let_def comp_def)

lemma run_Grp_Rep:
  "run ic (Cat (Grp g (Rep a n greedy)) R) (i, s, c)
   = concat (map (\<lambda>j. run ic R (i + j, drop j s, c(g \<mapsto> take j s)))
       (if greedy then rev [n..<Suc (length (takeWhile (cmatch ic a) s))]
        else [n..<Suc (length (takeWhile (cmatch ic a) s))]))"
  by (simp add: Let_def comp_def)

lemma run_Lit:
  "run False (Cat (Atom (Lit ch)) R) (i, s, c)
   = (case s of [] \<Rightarrow> [] | x # xs \<Rightarrow> if x = ch then run False R (Suc i, xs, c) else [])"
  by (cases s) auto

text \<open>\<open>\s*\<close> before a character that is no space: all the spaces are skipped.\<close>

lemma run_spaces_then_lit:
  assumes ws: "\<forall>y \<in> set ws. is_space y" and ch: "\<not> is_space ch"
    and rest: "rest = [] \<or> \<not> is_space (hd rest)"
  shows "run False (Cat (Rep Space 0 True) (Cat (Atom (Lit ch)) R)) (i, ws @ rest, c)
         = run False (Cat (Atom (Lit ch)) R) (i + length ws, rest, c)"
proof -
  have tw: "takeWhile (cmatch False Space) (ws @ rest) = ws"
    using ws rest by (cases rest) (auto simp: takeWhile_append2)
  have fail: "run False (Cat (Atom (Lit ch)) R) (i + j, drop j (ws @ rest), c) = []"
    if "j < length ws" for j
  proof -
    have "drop j (ws @ rest) = ws ! j # drop (Suc j) (ws @ rest)"
      using that by (simp add: Cons_nth_drop_Suc nth_append)
    moreover have "is_space (ws ! j)" using ws that by simp
    then have "ws ! j \<noteq> ch" using ch by auto
    ultimately show ?thesis by (simp add: run_Lit)
  qed
  show ?thesis
    unfolding run_Rep_greedy tw
    using concat_map_last_only[where f = "\<lambda>j. run False (Cat (Atom (Lit ch)) R)
              (i + j, drop j (ws @ rest), c)" and n = 0 and k = "length ws"] fail
    by simp
qed

text \<open>\<open>([^)]+)\)\<close>: the group is everything before the first closing parenthesis.\<close>

lemma run_until_paren:
  assumes "Q \<noteq> []" and "CHR '')'' \<notin> set Q"
  shows "run False (Cat (Grp g (Rep (NoneOf [Lit CHR '')'']) 1 True)) (Cat (Atom (Lit CHR '')'')) R))
           (i, Q @ CHR '')'' # rest, c)
         = run False R (Suc (i + length Q), rest, c(g \<mapsto> Q))"
proof -
  let ?s = "Q @ CHR '')'' # rest"
  have "\<forall>x \<in> set Q. cmatch False (NoneOf [Lit CHR '')'']) x" using assms(2) by auto
  then have tw: "takeWhile (cmatch False (NoneOf [Lit CHR '')''])) ?s = Q"
    by simp
  have fail: "run False (Cat (Atom (Lit CHR '')'')) R) (i + j, drop j ?s, c(g \<mapsto> take j ?s)) = []"
    if "j < length Q" for j
  proof -
    have "drop j ?s = Q ! j # drop (Suc j) ?s"
      using that by (simp add: Cons_nth_drop_Suc nth_append)
    moreover have "Q ! j \<noteq> CHR '')''" using assms(2) that by (metis nth_mem)
    ultimately show ?thesis by (simp add: run_Lit)
  qed
  have "1 \<le> length Q" using assms(1) by (cases Q) auto
  then show ?thesis
    unfolding run_Grp_Rep tw
    using concat_map_last_only[where f = "\<lambda>j. run False (Cat (Atom (Lit CHR '')'')) R)
              (i + j, drop j ?s, c(g \<mapsto> take j ?s))" and n = 1 and k = "length Q"] fail
    by (simp add: run_Lit)
qed

text \<open>\<open>\s*(.+)$\<close> on spaces and a line that does not begin with a space.\<close>

lemma run_rest_of_line:
  assumes "A \<noteq> []" and "\<forall>y \<in> set A. \<not> is_line_terminator y"
  shows "run False (cat [Grp g (Rep Dot 1 True), Eos]) (i, A, c)
         = [(i + length A, [], c(g \<mapsto> A))]"
proof -
  have tw: "takeWhile (cmatch False Dot) A = A" using assms(2) by simp
  have e: "cat [Grp g (Rep Dot 1 True), Eos] = Cat (Grp g (Rep Dot 1 True)) (Cat Eos Eps)"
    by (simp add: cat_def)
  let ?f = "\<lambda>j. run False (Cat Eos Eps) (i + j, drop j A, c(g \<mapsto> take j A))"
  have eos: "?f j = []" if "j < length A" for j
    using that by simp
  have len: "1 \<le> length A" using assms(1) by (cases A) auto
  have "run False (cat [Grp g (Rep Dot 1 True), Eos]) (i, A, c)
          = concat (map ?f (rev [1..<Suc (length A)]))"
    unfolding e run_Grp_Rep tw by simp
  also have "\<dots> = ?f (length A)"
    using concat_map_last_only[where f = ?f and n = 1 and k = "length A"] eos len by blast
  also have "\<dots> = [(i + length A, [], c(g \<mapsto> A))]" by simp
  finally show ?thesis .
qed

lemma run_spaces_rest_of_line:
  assumes ws: "\<forall>y \<in> set ws. is_space y"
    and A: "A \<noteq> []" "\<not> is_space (hd A)" "\<forall>y \<in> set A. \<not> is_line_terminator y"
  shows "\<exists>more. run False (cat [Rep Space 0 True, Grp g (Rep Dot 1 True), Eos]) (i, ws @ A, c)
           = (i + length ws + length A, [], c(g \<mapsto> A)) # more"
proof -
  have tw: "takeWhile (cmatch False Space) (ws @ A) = ws"
    using ws A by (cases A) auto
  have e: "cat [Rep Space 0 True, Grp g (Rep Dot 1 True), Eos]
             = Cat (Rep Space 0 True) (cat [Grp g (Rep Dot 1 True), Eos])"
    by (simp add: cat_def)
  let ?f = "\<lambda>j. run False (cat [Grp g (Rep Dot 1 True), Eos]) (i + j, drop j (ws @ A), c)"
  have "run False (cat [Rep Space 0 True, Grp g (Rep Dot 1 True), Eos]) (i, ws @ A, c)
          = concat (map ?f (rev [0..<Suc (length ws)]))"
    unfolding e run_Rep_greedy tw by simp
  also have "\<dots> = ?f (length ws) @ concat (map ?f (rev [0..<length ws]))" by simp
  also have "?f (length ws) = [(i + length ws + length A, [], c(g \<mapsto> A))]"
    using run_rest_of_line[OF A(1) A(3), of g "i + length ws" c] by simp
  finally show ?thesis by simp
qed

lemma is_space_facts:
  "is_space CHR '' ''" "\<not> is_space CHR ''(''" "\<not> is_space CHR ''-''" "\<not> is_space CHR '')''"
  "\<not> is_line_terminator CHR '' ''"
  by (simp_all add: is_space_def is_line_terminator_def)

section \<open>Trimming\<close>

lemma ltrim_rtrim_commute:
  "dropWhile P (rev (dropWhile P (rev xs))) = rev (dropWhile P (rev (dropWhile P xs)))"
proof (cases "\<forall>x \<in> set xs. P x")
  case True
  then have a: "dropWhile P xs = []" and b: "dropWhile P (rev xs) = []"
    by (simp_all add: dropWhile_eq_Nil_conv)
  show ?thesis unfolding a b by simp
next
  case False
  then have ne: "dropWhile P xs \<noteq> []" by simp
  then obtain x rest where d: "dropWhile P xs = x # rest" by (cases "dropWhile P xs") auto
  have x: "\<not> P x" using d ne by (metis hd_dropWhile list.sel(1))
  define ws where "ws = takeWhile P xs"
  have xs: "xs = ws @ x # rest" using takeWhile_dropWhile_id[of P xs] d by (simp add: ws_def)
  have ws: "\<forall>y \<in> set ws. P y" by (auto simp: ws_def dest: set_takeWhileD)
  have "dropWhile P (rev xs) = dropWhile P (rev rest) @ x # rev ws"
    using x by (simp add: xs dropWhile_append3)
  then have l: "dropWhile P (rev (dropWhile P (rev xs))) = x # rev (dropWhile P (rev rest))"
    using ws x by simp
  have "dropWhile P (rev (dropWhile P xs)) = dropWhile P (rev rest) @ [x]"
    using x by (simp add: d dropWhile_append3)
  then show ?thesis using l by simp
qed

lemma trim_rtrim: "trim (rev (dropWhile is_space (rev s))) = trim s"
  by (simp add: trim_def ltrim_rtrim_commute[of is_space s])

lemma trim_ltrim: "trim (dropWhile is_space s) = trim s"
  by (simp add: trim_def)

lemma not_year_like_Nil: "\<not> is_year_like []"
  by code_simp

lemma take_le_takeWhile:
  assumes "\<forall>y \<in> set (take k s). P y" and "k \<le> length s"
  shows "k \<le> length (takeWhile P s)"
proof -
  have "takeWhile P (take k s @ drop k s) = take k s @ takeWhile P (drop k s)"
    using assms(1) by (intro takeWhile_append2) auto
  then have "length (takeWhile P s) = length (take k s) + length (takeWhile P (drop k s))"
    by simp
  then show ?thesis using assms(2) by simp
qed

lemma trim_end_split: "s = trim_end s @ rev (takeWhile is_space (rev s))"
  using takeWhile_dropWhile_id[of is_space "rev s"]
  by (metis trim_end_def rev_append rev_rev_ident)

lemma trim_end_Nil: "trim_end s = [] \<longleftrightarrow> (\<forall>y \<in> set s. is_space y)"
  by (auto simp: trim_end_def dropWhile_eq_Nil_conv)

lemma trim_end_last: "trim_end s \<noteq> [] \<Longrightarrow> \<not> is_space (last (trim_end s))"
  using hd_dropWhile[of is_space "rev s"] by (simp add: trim_end_def last_rev)

lemma trim_blank:
  assumes "\<forall>y \<in> set s. is_space y"
  shows "trim s = []"
proof -
  have d: "dropWhile is_space s = []" using assms by (simp add: dropWhile_eq_Nil_conv)
  show ?thesis unfolding trim_def d by simp
qed

section \<open>The first rule of the parser\<close>

lemma run_spaces_split:
  assumes "\<not> is_space ch"
  shows "run False (Cat (Rep Space 0 True) (Cat (Atom (Lit ch)) R)) (i, u, c)
         = run False (Cat (Atom (Lit ch)) R)
             (i + length (takeWhile is_space u), dropWhile is_space u, c)"
proof -
  have ws: "\<forall>y \<in> set (takeWhile is_space u). is_space y" by (auto dest: set_takeWhileD)
  have rest: "dropWhile is_space u = [] \<or> \<not> is_space (hd (dropWhile is_space u))"
    using hd_dropWhile[of is_space u] by blast
  show ?thesis
    using run_spaces_then_lit[OF ws assms rest, of R i c]
    by (simp only: takeWhile_dropWhile_id)
qed

lemma run_spaces_lit_fail:
  assumes "\<not> is_space ch" and "dropWhile is_space u = [] \<or> hd (dropWhile is_space u) \<noteq> ch"
  shows "run False (Cat (Rep Space 0 True) (Cat (Atom (Lit ch)) R)) (i, u, c) = []"
proof (cases "dropWhile is_space u")
  case Nil
  show ?thesis unfolding run_spaces_split[OF assms(1)] run_Lit Nil by simp
next
  case (Cons x xs)
  then have "x \<noteq> ch" using assms(2) by simp
  then show ?thesis unfolding run_spaces_split[OF assms(1)] run_Lit Cons by simp
qed

lemma run_spaces_lit_hit:
  assumes "\<not> is_space ch" and "dropWhile is_space u = ch # v"
  shows "run False (Cat (Rep Space 0 True) (Cat (Atom (Lit ch)) R)) (i, u, c)
         = run False R (Suc (i + length (takeWhile is_space u)), v, c)"
  unfolding run_spaces_split[OF assms(1)] run_Lit assms(2) by simp

lemma run_paren_fail:
  assumes "takeWhile (\<lambda>x. x \<noteq> CHR '')'') v = [] \<or> CHR '')'' \<notin> set v"
  shows "run False (Cat (Grp g (Rep (NoneOf [Lit CHR '')'']) 1 True)) (Cat (Atom (Lit CHR '')'')) R))
           (i, v, c) = []"
proof -
  have cm: "cmatch False (NoneOf [Lit CHR '')'']) = (\<lambda>x. x \<noteq> CHR '')'')" by (rule ext) simp
  show ?thesis
  proof (cases "takeWhile (\<lambda>x. x \<noteq> CHR '')'') v = []")
    case True
    then show ?thesis unfolding run_Grp_Rep cm by simp
  next
    case False
    then have np: "CHR '')'' \<notin> set v" using assms by blast
    have "run False (Cat (Atom (Lit CHR '')'')) R) (i + j, drop j v, c(g \<mapsto> take j v)) = []" for j
    proof (cases "drop j v")
      case Nil
      then show ?thesis by (simp add: run_Lit)
    next
      case (Cons x xs)
      then have "x \<in> set v" by (metis in_set_dropD list.set_intros(1))
      then have "x \<noteq> CHR '')''" using np by auto
      then show ?thesis using Cons by (simp add: run_Lit)
    qed
    then show ?thesis unfolding run_Grp_Rep by simp
  qed
qed

lemma rest_fails:
  assumes ne: "\<not> early_qualifier u" and ns: "\<exists>y \<in> set u. \<not> is_space y"
  shows "run False
           (cat (Rep Space 0 True # Atom (Lit CHR ''('')
                 # Grp g (Rep (NoneOf [Lit CHR '')'']) 1 True) # Atom (Lit CHR '')'')
                 # Rep Space 0 True # Atom (Lit CHR ''-'') # rs))
           (i, u @ '' ('' @ z, c) = []"
proof -
  have catC: "\<And>r rs. cat (r # rs) = Cat r (cat rs)" by (simp add: cat_def)
  obtain y where y: "y \<in> set u" "\<not> is_space y" using ns by blast
  have dw: "dropWhile is_space (u @ '' ('' @ z) = dropWhile is_space u @ '' ('' @ z"
    using y by (rule dropWhile_append1)
  have dne: "dropWhile is_space u \<noteq> []" using y by (auto simp: dropWhile_eq_Nil_conv)
  then obtain x v where xv: "dropWhile is_space u = x # v" by (cases "dropWhile is_space u") auto
  show ?thesis
  proof (cases "x = CHR ''(''")
    case False
    have d2: "dropWhile is_space (u @ '' ('' @ z) = []
              \<or> hd (dropWhile is_space (u @ '' ('' @ z)) \<noteq> CHR ''(''"
      unfolding dw xv using False by simp
    show ?thesis
      unfolding catC by (rule run_spaces_lit_fail[OF is_space_facts(2) d2])
  next
    case True
    define w where "w = dropWhile (\<lambda>c. c \<noteq> CHR '')'') v"
    have w: "w \<noteq> []" "w = v \<or> \<not> starts_with (dropWhile is_space (tl w)) ''-''"
      using ne True by (auto simp: early_qualifier_def xv Let_def w_def)
    have d3: "dropWhile is_space (u @ '' ('' @ z) = CHR ''('' # (v @ '' ('' @ z)"
      unfolding dw xv True by simp
    have hit: "run False
           (cat (Rep Space 0 True # Atom (Lit CHR ''('')
                 # Grp g (Rep (NoneOf [Lit CHR '')'']) 1 True) # Atom (Lit CHR '')'')
                 # Rep Space 0 True # Atom (Lit CHR ''-'') # rs))
           (i, u @ '' ('' @ z, c)
         = run False
           (cat (Grp g (Rep (NoneOf [Lit CHR '')'']) 1 True) # Atom (Lit CHR '')'')
                 # Rep Space 0 True # Atom (Lit CHR ''-'') # rs))
           (Suc (i + length (takeWhile is_space (u @ '' ('' @ z))), v @ '' ('' @ z, c)"
      unfolding catC by (rule run_spaces_lit_hit[OF is_space_facts(2) d3])
    obtain w' where w': "w = CHR '')'' # w'"
      using w(1) hd_dropWhile[of "\<lambda>c. c \<noteq> CHR '')''" v] by (cases w) (auto simp: w_def)
    show ?thesis
    proof (cases "w = v")
      case True
      then have vv: "v = CHR '')'' # w'" using w' by simp
      have "takeWhile (\<lambda>x. x \<noteq> CHR '')'') (v @ '' ('' @ z) = []"
        unfolding vv by simp
      then have "run False
           (cat (Grp g (Rep (NoneOf [Lit CHR '')'']) 1 True) # Atom (Lit CHR '')'')
                 # Rep Space 0 True # Atom (Lit CHR ''-'') # rs))
           (Suc (i + length (takeWhile is_space (u @ '' ('' @ z))), v @ '' ('' @ z, c) = []"
        unfolding catC by (intro run_paren_fail) simp
      then show ?thesis using hit by simp
    next
      case False
      define q where "q = takeWhile (\<lambda>c. c \<noteq> CHR '')'') v"
      have v: "v = q @ CHR '')'' # w'"
        using takeWhile_dropWhile_id[of "\<lambda>c. c \<noteq> CHR '')''" v, symmetric] w'
        unfolding q_def w_def by simp
      have q: "q \<noteq> []" using False v w' by (cases q) auto
      have qn: "CHR '')'' \<notin> set q" by (auto simp: q_def dest: set_takeWhileD)
      have st: "\<not> starts_with (dropWhile is_space w') ''-''" using w(2) False w' by simp
      have vz: "v @ '' ('' @ z = q @ CHR '')'' # (w' @ '' ('' @ z)" by (simp add: v)
      have step: "run False
           (cat (Grp g (Rep (NoneOf [Lit CHR '')'']) 1 True) # Atom (Lit CHR '')'')
                 # Rep Space 0 True # Atom (Lit CHR ''-'') # rs))
           (Suc (i + length (takeWhile is_space (u @ '' ('' @ z))), v @ '' ('' @ z, c)
         = run False (cat (Rep Space 0 True # Atom (Lit CHR ''-'') # rs))
             (Suc (Suc (i + length (takeWhile is_space (u @ '' ('' @ z))) + length q),
              w' @ '' ('' @ z, c(g \<mapsto> q))"
        unfolding catC vz by (rule run_until_paren[OF q qn])
      have dd: "dropWhile is_space (w' @ '' ('' @ z) = []
                \<or> hd (dropWhile is_space (w' @ '' ('' @ z)) \<noteq> CHR ''-''"
      proof (cases "\<forall>y \<in> set w'. is_space y")
        case True
        then have "dropWhile is_space (w' @ '' ('' @ z) = CHR ''('' # z"
          by (simp add: dropWhile_append is_space_facts)
        then show ?thesis by simp
      next
        case False
        then obtain y where "y \<in> set w'" "\<not> is_space y" by blast
        then have e: "dropWhile is_space (w' @ '' ('' @ z) = dropWhile is_space w' @ '' ('' @ z"
          and n: "dropWhile is_space w' \<noteq> []"
          by (auto simp: dropWhile_append1 dropWhile_eq_Nil_conv)
        obtain a b where ab: "dropWhile is_space w' = a # b" using n by (cases "dropWhile is_space w'") auto
        then have "a \<noteq> CHR ''-''" using st by simp
        then show ?thesis using e ab by simp
      qed
      have "run False (cat (Rep Space 0 True # Atom (Lit CHR ''-'') # rs))
             (Suc (Suc (i + length (takeWhile is_space (u @ '' ('' @ z))) + length q),
              w' @ '' ('' @ z, c(g \<mapsto> q)) = []"
        unfolding catC by (rule run_spaces_lit_fail[OF is_space_facts(3) dd])
      then show ?thesis using hit step by simp
    qed
  qed
qed

text \<open>The end of the first rule, on what follows the dash.\<close>

lemma run_artist:
  assumes A1: "\<forall>y \<in> set (trim_start A). \<not> is_line_terminator y"
    and A2: "A = [] \<or> \<not> is_line_terminator (last A)"
  shows "\<exists>j g3 ms. run False (cat [Rep Space 0 True, Grp g (Rep Dot 1 True), Eos])
                       (i, CHR '' '' # A, c) = (j, [], c(g \<mapsto> g3)) # ms
                   \<and> trim g3 = trim A"
proof (cases "trim_start A = []")
  case False
  have ws: "\<forall>y \<in> set (CHR '' '' # takeWhile is_space A). is_space y"
    using is_space_facts(1) by (auto dest: set_takeWhileD)
  have hd: "\<not> is_space (hd (trim_start A))"
    using False hd_dropWhile[of is_space A] by (simp add: trim_start_def)
  have e: "CHR '' '' # A = (CHR '' '' # takeWhile is_space A) @ trim_start A"
    by (simp add: trim_start_def)
  from run_spaces_rest_of_line[OF ws False hd A1, of g i c]
  obtain ms where "run False (cat [Rep Space 0 True, Grp g (Rep Dot 1 True), Eos])
      (i, (CHR '' '' # takeWhile is_space A) @ trim_start A, c)
    = (i + length (CHR '' '' # takeWhile is_space A) + length (trim_start A), [],
       c(g \<mapsto> trim_start A)) # ms"
    by blast
  moreover have "trim (trim_start A) = trim A" by (simp add: trim_start_def trim_ltrim)
  ultimately show ?thesis unfolding e by blast
next
  case True
  define B where "B = CHR '' '' # A"
  have sp: "\<forall>y \<in> set B. is_space y"
    using True is_space_facts(1) by (auto simp: B_def trim_start_def dropWhile_eq_Nil_conv)
  have ne: "B \<noteq> []" by (simp add: B_def)
  have lb: "\<not> is_line_terminator (last B)"
    using A2 is_space_facts(5) by (auto simp: B_def)
  have tw: "takeWhile (cmatch False Space) B = B" using sp by (simp add: takeWhile_eq_all_conv)
  obtain n where n: "length B = Suc n" using ne by (cases B) auto
  have catC: "\<And>r rs. cat (r # rs) = Cat r (cat rs)" by (simp add: cat_def)
  let ?R = "cat [Grp g (Rep Dot 1 True), Eos]"
  have f0: "run False ?R (i + Suc n, drop (Suc n) B, c) = []"
    using n by (simp add: cat_def)
  have dl: "drop n B = [last B]"
    using ne n by (metis append_butlast_last_id append_eq_conv_conj diff_Suc_1 length_butlast)
  have l1: "[last B] \<noteq> []" by simp
  have l2: "\<forall>y \<in> set [last B]. \<not> is_line_terminator y" using lb by simp
  have f1: "run False ?R (i + n, drop n B, c) = [(i + n + length [last B], [], c(g \<mapsto> [last B]))]"
    unfolding dl by (rule run_rest_of_line[OF l1 l2])
  have up: "rev [0..<Suc (Suc n)] = Suc n # n # rev [0..<n]" by simp
  have "run False (cat [Rep Space 0 True, Grp g (Rep Dot 1 True), Eos]) (i, B, c)
        = concat (map (\<lambda>j. run False ?R (i + j, drop j B, c)) (rev [0..<Suc (length B)]))"
    unfolding catC[of "Rep Space 0 True"] run_Rep_greedy tw ..
  also have "\<dots> = (i + n + length [last B], [], c(g \<mapsto> [last B]))
                    # concat (map (\<lambda>j. run False ?R (i + j, drop j B, c)) (rev [0..<n]))"
    unfolding n up using f0 f1 by simp
  finally have "run False (cat [Rep Space 0 True, Grp g (Rep Dot 1 True), Eos]) (i, B, c)
        = (i + n + length [last B], [], c(g \<mapsto> [last B]))
          # concat (map (\<lambda>j. run False ?R (i + j, drop j B, c)) (rev [0..<n]))" .
  moreover have "trim [last B] = trim A"
  proof -
    have "is_space (last B)" using sp ne by simp
    then have "trim [last B] = []" by (simp add: trim_def)
    moreover have "trim A = []" using sp by (intro trim_blank) (simp add: B_def)
    ultimately show ?thesis by simp
  qed
  ultimately show ?thesis unfolding B_def by blast
qed

lemma songYearArtist_first_match:
  assumes T1: "\<forall>y \<in> set (trim_end T). \<not> is_line_terminator y"
    and T2: "T = [] \<or> \<not> is_line_terminator (hd T)"
    and T3: "\<forall>k \<in> set [1..<length T]. \<not> early_qualifier (drop k T)"
    and Q: "Q \<noteq> []" "CHR '')'' \<notin> set Q"
    and A1: "\<forall>y \<in> set (trim_start A). \<not> is_line_terminator y"
    and A2: "A = [] \<or> \<not> is_line_terminator (last A)"
  shows "\<exists>j s' c ms g1 g3.
           run False songYearArtistPattern (0, T @ '' ('' @ Q @ '') - '' @ A, Map.empty)
             = (j, s', c) # ms
           \<and> c 1 = Some g1 \<and> trim g1 = trim T \<and> c 2 = Some Q
           \<and> c 3 = Some g3 \<and> trim g3 = trim A"
proof -
  define TS where "TS = T @ '' ''"
  define tl1 where "tl1 = CHR ''('' # Q @ '') - '' @ A"
  define s where "s = TS @ tl1"
  have s: "s = T @ '' ('' @ Q @ '') - '' @ A" by (simp add: s_def TS_def tl1_def)
  define k0 where "k0 = max 1 (length (trim_end T))"
  define g1 where "g1 = take k0 TS"
  define wt1 where "wt1 = drop k0 TS"
  define r4 where "r4 = [Rep Space 0 True, Grp 3 (Rep Dot 1 True), Eos]"
  define r3 where "r3 = Rep Space 0 True # Atom (Lit CHR ''-'') # r4"
  define r2 where "r2 = Grp 2 (Rep (NoneOf [Lit CHR '')'']) 1 True) # Atom (Lit CHR '')'') # r3"
  define r1 where "r1 = Rep Space 0 True # Atom (Lit CHR ''('') # r2"
  have pat: "songYearArtistPattern = cat (Bos # Grp 1 (Rep Dot 1 False) # r1)"
    by (simp add: songYearArtistPattern_def r1_def r2_def r3_def r4_def)
  have catC: "\<And>r rs. cat (r # rs) = Cat r (cat rs)" by (simp add: cat_def)
  let ?F = "\<lambda>j. run False (cat r1) (0 + j, drop j s, Map.empty(1 \<mapsto> take j s))"
  have start: "run False songYearArtistPattern (0, s, Map.empty)
                 = concat (map ?F [1..<Suc (length (takeWhile (cmatch False Dot) s))])"
  proof -
    have b: "\<And>rs. run False (cat (Bos # rs)) (0, s, Map.empty) = run False (cat rs) (0, s, Map.empty)"
      by (simp add: cat_def)
    show ?thesis
      unfolding pat b catC[of "Grp 1 (Rep Dot 1 False)"] run_Grp_Rep by (simp only: if_False)
  qed
  have lenT: "length (trim_end T) \<le> length T"
    by (simp add: trim_end_def length_dropWhile_le[of is_space "rev T", simplified])
  have k0le: "k0 \<le> length TS" using lenT by (simp add: k0_def TS_def)
  have k0ge: "1 \<le> k0" by (simp add: k0_def)
  have TSs: "TS = g1 @ wt1" by (simp add: g1_def wt1_def)
  have blank_or:
    "(trim_end T = [] \<and> k0 = 1 \<and> (\<forall>y \<in> set TS. is_space y))
     \<or> (trim_end T \<noteq> [] \<and> k0 = length (trim_end T) \<and> g1 = trim_end T
         \<and> wt1 = rev (takeWhile is_space (rev T)) @ '' '')"
  proof (cases "trim_end T = []")
    case True
    then have "\<forall>y \<in> set T. is_space y" by (simp add: trim_end_Nil)
    then have "\<forall>y \<in> set TS. is_space y" using is_space_facts(1) by (auto simp: TS_def)
    then show ?thesis using True by (simp add: k0_def)
  next
    case False
    then have k: "k0 = length (trim_end T)" by (cases "trim_end T") (simp_all add: k0_def)
    have "TS = trim_end T @ (rev (takeWhile is_space (rev T)) @ '' '')"
      using trim_end_split[of T] by (simp add: TS_def)
    then have "g1 = trim_end T" "wt1 = rev (takeWhile is_space (rev T)) @ '' ''"
      by (simp_all add: g1_def wt1_def k)
    then show ?thesis using False k by simp
  qed
  have g1lt: "\<forall>y \<in> set g1. \<not> is_line_terminator y"
  proof -
    from blank_or show ?thesis
    proof (elim disjE conjE)
      assume b: "trim_end T = []" "k0 = 1" "\<forall>y \<in> set TS. is_space y"
      have "g1 = [hd TS]" by (cases TS) (simp_all add: g1_def b(2) TS_def)
      moreover have "\<not> is_line_terminator (hd TS)"
        using T2 is_space_facts(5) by (cases T) (auto simp: TS_def)
      ultimately show ?thesis by simp
    next
      assume "g1 = trim_end T"
      then show ?thesis using T1 by simp
    qed
  qed
  have wt1sp: "\<forall>y \<in> set wt1. is_space y"
  proof -
    from blank_or show ?thesis
    proof (elim disjE conjE)
      assume "\<forall>y \<in> set TS. is_space y"
      then show ?thesis unfolding wt1_def by (auto dest: in_set_dropD)
    next
      assume "wt1 = rev (takeWhile is_space (rev T)) @ '' ''"
      then show ?thesis using is_space_facts(1) by (auto dest: set_takeWhileD)
    qed
  qed
  have g1trim: "trim g1 = trim T"
  proof -
    from blank_or show ?thesis
    proof (elim disjE conjE)
      assume b: "trim_end T = []" "\<forall>y \<in> set TS. is_space y"
      have "\<forall>y \<in> set g1. is_space y" using b(2) unfolding g1_def by (auto dest: in_set_takeD)
      then have "trim g1 = []" by (rule trim_blank)
      moreover have "trim T = []" using b(1) by (intro trim_blank) (simp add: trim_end_Nil)
      ultimately show ?thesis by simp
    next
      assume "g1 = trim_end T"
      then show ?thesis by (simp add: trim_end_def trim_rtrim)
    qed
  qed
  have tk: "take k0 s = g1" using k0le by (simp add: s_def g1_def)
  have dk: "drop k0 s = wt1 @ tl1" using k0le by (simp add: s_def wt1_def)
  have k: "k0 \<le> length (takeWhile (cmatch False Dot) s)"
  proof (rule take_le_takeWhile)
    show "\<forall>y \<in> set (take k0 s). cmatch False Dot y" using g1lt by (simp add: tk)
    show "k0 \<le> length s" using k0le by (simp add: s_def)
  qed
  have early: "?F j = []" if j: "1 \<le> j" "j < k0" for j
  proof -
    have ne: "trim_end T \<noteq> []" and k0: "k0 = length (trim_end T)"
      using blank_or j by auto
    have jT: "j < length T" using j k0 lenT by simp
    then have nq: "\<not> early_qualifier (drop j T)" using T3 j(1) by simp
    have "drop j T = drop j (trim_end T) @ rev (takeWhile is_space (rev T))"
      using trim_end_split[of T] j k0 by (metis drop_append less_imp_le_nat diff_is_0_eq' drop0)
    moreover have "drop j (trim_end T) \<noteq> []" using j k0 by simp
    moreover have "last (drop j (trim_end T)) = last (trim_end T)" using j k0 by simp
    ultimately have "last (trim_end T) \<in> set (drop j T)"
      by (metis Un_iff last_in_set set_append)
    then have ns: "\<exists>y \<in> set (drop j T). \<not> is_space y" using trim_end_last[OF ne] by blast
    have d: "drop j s = drop j T @ '' ('' @ (Q @ '') - '' @ A)" using jT by (simp add: s)
    show ?thesis
      unfolding d r1_def r2_def r3_def
      by (rule rest_fails[OF nq ns])
  qed
  from concat_map_first_hit[where f = ?F and n = 1 and m = k0, OF early k0ge k]
  obtain ms1 where c1: "run False songYearArtistPattern (0, s, Map.empty) = ?F k0 @ ms1"
    unfolding start by blast
  define c1 where "c1 = (Map.empty(1 \<mapsto> g1) :: caps)"
  have F1: "?F k0 = run False (cat r1) (k0, wt1 @ tl1, c1)"
    by (simp add: tk dk c1_def)
  have s1: "run False (cat r1) (k0, wt1 @ tl1, c1)
              = run False (cat r2) (Suc (k0 + length wt1), Q @ CHR '')'' # '' - '' @ A, c1)"
    unfolding tl1_def r1_def catC
    using run_spaces_then_lit[OF wt1sp is_space_facts(2),
            of "CHR ''('' # Q @ CHR '')'' # '' - '' @ A"] is_space_facts(2)
    by (simp add: run_Lit)
  define n2 where "n2 = Suc (Suc (k0 + length wt1) + length Q)"
  have s2: "run False (cat r2) (Suc (k0 + length wt1), Q @ CHR '')'' # '' - '' @ A, c1)
              = run False (cat r3) (n2, '' - '' @ A, c1(2 \<mapsto> Q))"
    unfolding r2_def catC n2_def by (rule run_until_paren[OF Q])
  have t3: "'' - '' @ A = '' '' @ (CHR ''-'' # CHR '' '' # A)" by simp
  have ws3: "\<forall>y \<in> set '' ''. is_space y" using is_space_facts(1) by simp
  have s3: "run False (cat r3) (n2, '' - '' @ A, c1(2 \<mapsto> Q))
              = run False (cat r4) (Suc (n2 + length '' ''), CHR '' '' # A, c1(2 \<mapsto> Q))"
    unfolding t3 r3_def catC
    using run_spaces_then_lit[OF ws3 is_space_facts(3), of "CHR ''-'' # CHR '' '' # A"]
      is_space_facts(3)
    by (simp add: run_Lit)
  from run_artist[OF A1 A2, of 3 "Suc (n2 + length '' '')" "c1(2 \<mapsto> Q)"]
  obtain j g3 ms2 where s4:
    "run False (cat r4) (Suc (n2 + length '' ''), CHR '' '' # A, c1(2 \<mapsto> Q))
       = (j, [], c1(2 \<mapsto> Q, 3 \<mapsto> g3)) # ms2" "trim g3 = trim A"
    unfolding r4_def by blast
  have "run False songYearArtistPattern (0, s, Map.empty)
          = (j, [], c1(2 \<mapsto> Q, 3 \<mapsto> g3)) # ms2 @ ms1"
    using c1 F1 s1 s2 s3 s4(1) by simp
  moreover have "(c1(2 \<mapsto> Q, 3 \<mapsto> g3)) 1 = Some g1" "(c1(2 \<mapsto> Q, 3 \<mapsto> g3)) 2 = Some Q"
    "(c1(2 \<mapsto> Q, 3 \<mapsto> g3)) 3 = Some g3"
    by (simp_all add: c1_def)
  ultimately show ?thesis using g1trim s4(2) unfolding s by blast
qed

text \<open>
  Claim C5, as amended. Take a label \<open>Title (Qualifier) - Artist\<close>, that is the title, a
  space, the qualifier in parentheses, \<open>" - "\<close> and the artist. Let the qualifier hold no
  closing parenthesis and, trimmed, be four digits or contain \<open>remaster\<close> or \<open>edition\<close> in
  any case. Let the title hold no line break but in its trailing white space and not as
  its first character, and the artist none but in its leading white space and not as its
  last character. Let the title open, after its first character, no parenthesis that is
  never closed in the title, or that is closed after at least one character and followed,
  after white space, by a dash. Then the first rule returns, before the dash rule is tried:
  the artist is the trimmed artist, the title the trimmed title, the album is unknown. The
  title and the artist may be blank, and the title may hold other parentheses.
\<close>

theorem qualifier_rule:
  assumes "\<forall>y \<in> set (trim_end T). \<not> is_line_terminator y"
    and "T = [] \<or> \<not> is_line_terminator (hd T)"
    and "\<forall>k \<in> set [1..<length T]. \<not> early_qualifier (drop k T)"
    and "CHR '')'' \<notin> set Q" and "is_year_like (trim Q)"
    and "\<forall>y \<in> set (trim_start A). \<not> is_line_terminator y"
    and "A = [] \<or> \<not> is_line_terminator (last A)"
  shows "songYearArtistRule (T @ '' ('' @ Q @ '') - '' @ A)
           = Inr (Some \<lparr>artist = trim A, album = ''Unknown Album'', title = trim T\<rparr>)
         \<and> extractBasicMetadata (T @ '' ('' @ Q @ '') - '' @ A)
           = Inr \<lparr>artist = trim A, album = ''Unknown Album'', title = trim T\<rparr>"
proof -
  have Q1: "Q \<noteq> []" using assms(5) not_year_like_Nil by (auto simp: trim_def)
  let ?s = "T @ '' ('' @ Q @ '') - '' @ A"
  from songYearArtist_first_match[OF assms(1,2,3) Q1 assms(4) assms(6,7)]
  obtain j s' c ms g1 g3 where
    m: "run False songYearArtistPattern (0, ?s, Map.empty) = (j, s', c) # ms"
       "c 1 = Some g1" "trim g1 = trim T" "c 2 = Some Q" "c 3 = Some g3" "trim g3 = trim A"
    by blast
  have ma: "match_at False songYearArtistPattern 0 ?s = Some (j, s', c)"
    using m(1) by (simp add: match_at_def)
  obtain x xs where xs: "?s = x # xs" by (cases T) auto
  have "exec False songYearArtistPattern 0 ?s = Some (j, s', c)"
    using ma unfolding xs by simp
  then have jm: "js_match False songYearArtistPattern ?s = Some c"
    by (simp add: js_match_def)
  have rule: "songYearArtistRule ?s
      = Inr (Some \<lparr>artist = trim A, album = ''Unknown Album'', title = trim T\<rparr>)"
    using jm m(2,3,4,5,6) assms(5)
    by (simp add: songYearArtistRule_def trim_group_def group_def)
  then show ?thesis by (simp add: extractBasicMetadata_def)
qed

theorem qualifier_rule_witness:
  "extractBasicMetadata ''Hurt (2009 Remaster) - Nine Inch Nails''
     = Inr \<lparr>artist = ''Nine Inch Nails'', album = ''Unknown Album'', title = ''Hurt''\<rparr>
   \<and> extractBasicMetadata ''Song (feat. X) (2009 Remaster) - Artist''
     = Inr \<lparr>artist = ''Artist'', album = ''Unknown Album'', title = ''Song (feat. X)''\<rparr>
   \<and> extractBasicMetadata '' (2009) - X''
     = Inr \<lparr>artist = ''X'', album = ''Unknown Album'', title = []\<rparr>
   \<and> extractBasicMetadata ''T (2009) - ''
     = Inr \<lparr>artist = [], album = ''Unknown Album'', title = ''T''\<rparr>"
proof -
  have a1: "\<forall>y \<in> set (trim_end ''Hurt''). \<not> is_line_terminator y" by code_simp
  have a2: "''Hurt'' = [] \<or> \<not> is_line_terminator (hd ''Hurt'')" by code_simp
  have a3: "\<forall>k \<in> set [1..<length ''Hurt'']. \<not> early_qualifier (drop k ''Hurt'')" by code_simp
  have a4: "CHR '')'' \<notin> set ''2009 Remaster''" by simp
  have a5: "is_year_like (trim ''2009 Remaster'')" by code_simp
  have a6: "\<forall>y \<in> set (trim_start ''Nine Inch Nails''). \<not> is_line_terminator y" by code_simp
  have a7: "''Nine Inch Nails'' = [] \<or> \<not> is_line_terminator (last ''Nine Inch Nails'')"
    by code_simp
  have t1: "trim ''Hurt'' = ''Hurt''" by code_simp
  have t2: "trim ''Nine Inch Nails'' = ''Nine Inch Nails''" by code_simp
  have a: "extractBasicMetadata ''Hurt (2009 Remaster) - Nine Inch Nails''
     = Inr \<lparr>artist = ''Nine Inch Nails'', album = ''Unknown Album'', title = ''Hurt''\<rparr>"
    using qualifier_rule[OF a1 a2 a3 a4 a5 a6 a7] by (simp add: t1 t2)
  have b1: "\<forall>y \<in> set (trim_end ''Song (feat. X)''). \<not> is_line_terminator y" by code_simp
  have b2: "''Song (feat. X)'' = [] \<or> \<not> is_line_terminator (hd ''Song (feat. X)'')"
    by code_simp
  have b3: "\<forall>k \<in> set [1..<length ''Song (feat. X)'']. \<not> early_qualifier (drop k ''Song (feat. X)'')"
    by code_simp
  have b6: "\<forall>y \<in> set (trim_start ''Artist''). \<not> is_line_terminator y" by code_simp
  have b7: "''Artist'' = [] \<or> \<not> is_line_terminator (last ''Artist'')" by code_simp
  have t3: "trim ''Song (feat. X)'' = ''Song (feat. X)''" by code_simp
  have t4: "trim ''Artist'' = ''Artist''" by code_simp
  have b: "extractBasicMetadata ''Song (feat. X) (2009 Remaster) - Artist''
     = Inr \<lparr>artist = ''Artist'', album = ''Unknown Album'', title = ''Song (feat. X)''\<rparr>"
    using qualifier_rule[OF b1 b2 b3 a4 a5 b6 b7] by (simp add: t3 t4)
  have c1: "\<forall>y \<in> set (trim_end []). \<not> is_line_terminator y" by code_simp
  have c2: "([] :: string) = [] \<or> \<not> is_line_terminator (hd [])" by simp
  have c3: "\<forall>k \<in> set [1..<length ([] :: string)]. \<not> early_qualifier (drop k [])" by simp
  have c4: "CHR '')'' \<notin> set ''2009''" by simp
  have c5: "is_year_like (trim ''2009'')" by code_simp
  have c6: "\<forall>y \<in> set (trim_start ''X''). \<not> is_line_terminator y" by code_simp
  have c7: "''X'' = [] \<or> \<not> is_line_terminator (last ''X'')" by code_simp
  have t5: "trim [] = []" by code_simp
  have t6: "trim ''X'' = ''X''" by code_simp
  have c: "extractBasicMetadata '' (2009) - X''
     = Inr \<lparr>artist = ''X'', album = ''Unknown Album'', title = []\<rparr>"
    using qualifier_rule[OF c1 c2 c3 c4 c5 c6 c7] by (simp add: t5 t6)
  have d1: "\<forall>y \<in> set (trim_end ''T''). \<not> is_line_terminator y" by code_simp
  have d2: "''T'' = [] \<or> \<not> is_line_terminator (hd ''T'')" by code_simp
  have d3: "\<forall>k \<in> set [1..<length ''T'']. \<not> early_qualifier (drop k ''T'')" by code_simp
  have d6: "\<forall>y \<in> set (trim_start []). \<not> is_line_terminator y" by code_simp
  have d7: "([] :: string) = [] \<or> \<not> is_line_terminator (last [])" by simp
  have t7: "trim ''T'' = ''T''" by code_simp
  have d: "extractBasicMetadata ''T (2009) - ''
     = Inr \<lparr>artist = [], album = ''Unknown Album'', title = ''T''\<rparr>"
    using qualifier_rule[OF d1 d2 d3 c4 c5 d6 d7] by (simp add: t5 t7)
  show ?thesis using a b c d by simp
qed

theorem qualifier_rule_counterexample:
  "extractBasicMetadata ''A (x) - B (2009) - C''
     = Inr \<lparr>artist = ''A (x)'', album = ''B (2009)'', title = ''C''\<rparr>
   \<and> extractBasicMetadata ''A (x (2009) - C''
     = Inr \<lparr>artist = ''A (x (2009)'', album = ''Unknown Album'', title = ''C''\<rparr>
   \<and> extractBasicMetadata ''Hurt (2009) (Remaster) - NIN''
     = Inr \<lparr>artist = ''NIN'', album = ''Unknown Album'', title = ''Hurt (2009)''\<rparr>
   \<and> extractBasicMetadata (''Hurt (2009) - Nine'' @ [CHR 0x0A] @ ''Inch'')
     = Inr \<lparr>artist = ''Unknown Artist'', album = ''Unknown Album'',
            title = ''Hurt (2009) - Nine'' @ [CHR 0x0A] @ ''Inch''\<rparr>
   \<and> extractBasicMetadata (''Hu'' @ [CHR 0x0A] @ ''rt (2009) - NIN'')
     = Inr \<lparr>artist = ''Unknown Artist'', album = ''Unknown Album'',
            title = ''Hu'' @ [CHR 0x0A] @ ''rt (2009) - NIN''\<rparr>"
proof -
  have a: "extractBasicMetadata ''A (x) - B (2009) - C''
     = Inr \<lparr>artist = ''A (x)'', album = ''B (2009)'', title = ''C''\<rparr>"
    by code_simp
  have b: "extractBasicMetadata ''A (x (2009) - C''
     = Inr \<lparr>artist = ''A (x (2009)'', album = ''Unknown Album'', title = ''C''\<rparr>"
    by code_simp
  have c: "extractBasicMetadata ''Hurt (2009) (Remaster) - NIN''
     = Inr \<lparr>artist = ''NIN'', album = ''Unknown Album'', title = ''Hurt (2009)''\<rparr>"
    by code_simp
  have d: "extractBasicMetadata (''Hurt (2009) - Nine'' @ [CHR 0x0A] @ ''Inch'')
     = Inr \<lparr>artist = ''Unknown Artist'', album = ''Unknown Album'',
            title = ''Hurt (2009) - Nine'' @ [CHR 0x0A] @ ''Inch''\<rparr>"
    by code_simp
  have e: "extractBasicMetadata (''Hu'' @ [CHR 0x0A] @ ''rt (2009) - NIN'')
     = Inr \<lparr>artist = ''Unknown Artist'', album = ''Unknown Album'',
            title = ''Hu'' @ [CHR 0x0A] @ ''rt (2009) - NIN''\<rparr>"
    by code_simp
  show ?thesis using a b c d e by (intro conjI)
qed

section \<open>Letter case\<close>













section \<open>The qualifiers of the query builder\<close>







































end
